theory Spec2Isabelle
  imports Complex_Main "HOL-Library.Word"
begin

unbundle bit_operations_syntax

section \<open>JavaScript values\<close>

text \<open>
  A JavaScript string is a sequence of UTF-16 code units: \<open>s.length\<close> is the length of
  the list and \<open>s.charCodeAt(i)\<close> its \<open>i\<close>-th element. A \<open>Uint8Array\<close> is a list of
  bytes. String literals of the source are written \<open>str ''...''\<close>.
\<close>

type_synonym jsstring = "16 word list"
type_synonym bytes = "8 word list"

definition str :: "string \<Rightarrow> jsstring" where
  "str s = map of_char s"

text \<open>
  The exceptions that reach the builders. The first three are the error codes of the
  ethers library (with the message of the assertion that failed), \<open>SyntaxError\<close> is
  thrown by the built-in \<open>BigInt\<close> conversion, and \<open>Error\<close> is a plain
  \<open>new Error(message)\<close> of the repository.
\<close>

datatype error =
    INVALID_ARGUMENT string
  | NUMERIC_FAULT string
  | BUFFER_OVERRUN string
  | SyntaxError
  | Error jsstring

text \<open>Sequencing of computations that may throw: the first exception wins.\<close>

definition bind :: "error + 'a \<Rightarrow> ('a \<Rightarrow> error + 'b) \<Rightarrow> error + 'b" where
  "bind m f = (case m of Inl e \<Rightarrow> Inl e | Inr x \<Rightarrow> f x)"

text \<open>
  The numeric arguments of the encoders (\<open>BigNumberish\<close> in ethers): a JavaScript
  number holding an integer, a \<open>bigint\<close>, or a string. \<open>JNumber v\<close> is the number whose
  value is the integer \<open>v\<close>. Numbers with a fractional part, \<open>NaN\<close> and the infinities
  are outside this model.
\<close>

datatype BigNumberish = JNumber int | JBigInt int | JString jsstring

section \<open>Built-in conversions\<close>

subsection \<open>\<open>StringToBigInt\<close>: the conversion \<open>BigInt(string)\<close>\<close>

text \<open>
  \<open>BigInt(s)\<close> trims white space and line terminators, reads the empty string as
  \<open>0n\<close>, a decimal literal with an optional sign, or an unsigned literal with prefix
  \<open>0x\<close>, \<open>0o\<close> or \<open>0b\<close> (either case); anything else throws a \<open>SyntaxError\<close>.
\<close>

definition isStrWhiteSpaceChar :: "16 word \<Rightarrow> bool" where
  "isStrWhiteSpaceChar c \<longleftrightarrow>
     c \<in> {0x0009, 0x000A, 0x000B, 0x000C, 0x000D, 0x0020, 0x00A0, 0x1680,
          0x2028, 0x2029, 0x202F, 0x205F, 0x3000, 0xFEFF}
     \<or> (0x2000 \<le> c \<and> c \<le> 0x200A)"

definition trimString :: "jsstring \<Rightarrow> jsstring" where
  "trimString s =
     rev (dropWhile isStrWhiteSpaceChar (rev (dropWhile isStrWhiteSpaceChar s)))"

definition digitValue :: "16 word \<Rightarrow> nat option" where
  "digitValue c =
     (if 0x30 \<le> c \<and> c \<le> 0x39 then Some (unat c - 48)
      else if 0x61 \<le> c \<and> c \<le> 0x7A then Some (unat c - 87)
      else if 0x41 \<le> c \<and> c \<le> 0x5A then Some (unat c - 55)
      else None)"

definition isDigit :: "nat \<Rightarrow> 16 word \<Rightarrow> bool" where
  "isDigit radix c = (case digitValue c of None \<Rightarrow> False | Some d \<Rightarrow> d < radix)"

definition digitsValue :: "nat \<Rightarrow> jsstring \<Rightarrow> nat" where
  "digitsValue radix ds = foldl (\<lambda>acc c. acc * radix + the (digitValue c)) 0 ds"

definition parseDigits :: "nat \<Rightarrow> jsstring \<Rightarrow> nat option" where
  "parseDigits radix ds =
     (if ds \<noteq> [] \<and> list_all (isDigit radix) ds then Some (digitsValue radix ds) else None)"

definition StringToBigInt :: "jsstring \<Rightarrow> int option" where
  "StringToBigInt s =
     (case trimString s of
        [] \<Rightarrow> Some 0
      | c # cs \<Rightarrow>
          if c = 0x30 \<and> cs \<noteq> [] \<and> hd cs \<in> {0x78, 0x58} then map_option int (parseDigits 16 (tl cs))
          else if c = 0x30 \<and> cs \<noteq> [] \<and> hd cs \<in> {0x6F, 0x4F} then map_option int (parseDigits 8 (tl cs))
          else if c = 0x30 \<and> cs \<noteq> [] \<and> hd cs \<in> {0x62, 0x42} then map_option int (parseDigits 2 (tl cs))
          else if c = 0x2B then map_option int (parseDigits 10 cs)
          else if c = 0x2D then map_option (\<lambda>n. - int n) (parseDigits 10 cs)
          else map_option int (parseDigits 10 (c # cs)))"

definition BigInt :: "jsstring \<Rightarrow> error + int" where
  "BigInt s = (case StringToBigInt s of None \<Rightarrow> Inl SyntaxError | Some v \<Rightarrow> Inr v)"

subsection \<open>\<open>toString\<close>\<close>

text \<open>
  \<open>value.toString(16)\<close> of a non-negative \<open>bigint\<close>: the lower-case hexadecimal digits
  without leading zeros; \<open>toString()\<close>: the decimal digits, with a minus sign for a
  negative value. The radix is 10 or 16 throughout.
\<close>

definition digitChar :: "nat \<Rightarrow> 16 word" where
  "digitChar d = str ''0123456789abcdefghijklmnopqrstuvwxyz'' ! d"

fun natToString :: "nat \<Rightarrow> nat \<Rightarrow> jsstring" where
  "natToString radix n =
     (if n < radix \<or> radix < 2 then [digitChar n]
      else natToString radix (n div radix) @ [digitChar (n mod radix)])"

declare natToString.simps [simp del]

definition intToString :: "int \<Rightarrow> jsstring" where
  "intToString v = (if v < 0 then 0x2D # natToString 10 (nat (- v)) else natToString 10 (nat v))"

text \<open>
  \<open>toString()\<close> of a number prints the decimal digits of a safe integer (at most
  \<open>2^53 - 1\<close> in absolute value). Beyond that it prints the shortest digits that read
  back as the same double, and exponent form from \<open>1e21\<close> on; this floating-point
  formatting is not modelled: it is the parameter \<open>numberText\<close> of the functions that
  print a number. \<open>toString()\<close> of a \<open>bigint\<close> prints all its digits, and of a string
  is the string.
\<close>

definition MAX_SAFE_INTEGER :: int where
  "MAX_SAFE_INTEGER = 2 ^ 53 - 1"

definition Number_toString :: "(int \<Rightarrow> jsstring) \<Rightarrow> int \<Rightarrow> jsstring" where
  "Number_toString numberText v =
     (if - MAX_SAFE_INTEGER \<le> v \<and> v \<le> MAX_SAFE_INTEGER then intToString v else numberText v)"

fun toString :: "(int \<Rightarrow> jsstring) \<Rightarrow> BigNumberish \<Rightarrow> jsstring" where
  "toString numberText (JNumber v) = Number_toString numberText v"
| "toString numberText (JBigInt v) = intToString v"
| "toString numberText (JString s) = s"

text \<open>
  \<open>Math.ceil(n / d)\<close> for a length \<open>n\<close> and a positive \<open>d\<close>. The quotient by 32 of a
  length is exact in double precision, so the result is the integer ceiling.
\<close>

definition Math_ceil_div :: "nat \<Rightarrow> nat \<Rightarrow> nat" where
  "Math_ceil_div n d = (if n mod d = 0 then n div d else n div d + 1)"

section \<open>The ethers functions used by the encoders\<close>

text \<open>
  The encoders are one-line compositions of functions of the ethers library (version 6),
  which is a dependency of the repository and not part of it. The definitions of this
  section follow the library: \<open>getBigInt\<close>, \<open>getUint\<close> and \<open>toBeHex\<close> of
  \<open>utils/maths\<close>, \<open>getBytes\<close>, \<open>hexlify\<close>, \<open>zeroPadValue\<close> and \<open>zeroPadBytes\<close> of
  \<open>utils/data\<close>, and \<open>toUtf8Bytes\<close> of \<open>utils/utf8\<close>.
\<close>

datatype BytesLike = HexString jsstring | Uint8Array bytes

definition maxValue :: int where
  "maxValue = 0x1fffffffffffff"

fun getBigInt :: "BigNumberish \<Rightarrow> error + int" where
  "getBigInt (JBigInt v) = Inr v"
| "getBigInt (JNumber v) =
     (if v \<ge> - maxValue \<and> v \<le> maxValue then Inr v else Inl (INVALID_ARGUMENT ''overflow''))"
| "getBigInt (JString s) =
     (if s = [] then Inl (INVALID_ARGUMENT ''invalid BigNumberish string'')
      else if hd s = 0x2D \<and> \<not> (length s > 1 \<and> s ! 1 = 0x2D) then
        (case BigInt (tl s) of
           Inl e \<Rightarrow> Inl (INVALID_ARGUMENT ''invalid BigNumberish string'')
         | Inr v \<Rightarrow> Inr (- v))
      else
        (case BigInt s of
           Inl e \<Rightarrow> Inl (INVALID_ARGUMENT ''invalid BigNumberish string'')
         | Inr v \<Rightarrow> Inr v))"

definition getUint :: "BigNumberish \<Rightarrow> error + int" where
  "getUint v =
     bind (getBigInt v) (\<lambda>result.
       if result \<ge> 0 then Inr result
       else Inl (NUMERIC_FAULT ''unsigned value cannot be negative''))"

definition toBeHex :: "BigNumberish \<Rightarrow> error + jsstring" where
  "toBeHex v =
     bind (getUint v) (\<lambda>value.
       let result = natToString 16 (nat value);
           result = (if odd (length result) then str ''0'' @ result else result)
       in Inr (str ''0x'' @ result))"

text \<open>
  \<open>getBytes\<close> accepts a \<open>Uint8Array\<close>, or a string matching
  \<open>/^0x(?:[0-9a-f][0-9a-f])*$/i\<close>, whose digit pairs it reads with \<open>parseInt(_, 16)\<close>.
\<close>

definition isHexDataString :: "jsstring \<Rightarrow> bool" where
  "isHexDataString s \<longleftrightarrow>
     length s \<ge> 2 \<and> s ! 0 = 0x30 \<and> s ! 1 \<in> {0x78, 0x58}
     \<and> even (length s - 2) \<and> list_all (isDigit 16) (drop 2 s)"

fun parseHexPairs :: "jsstring \<Rightarrow> bytes" where
  "parseHexPairs (a # b # cs) = of_nat (digitsValue 16 [a, b]) # parseHexPairs cs"
| "parseHexPairs _ = []"

fun getBytes :: "BytesLike \<Rightarrow> error + bytes" where
  "getBytes (Uint8Array bs) = Inr bs"
| "getBytes (HexString s) =
     (if isHexDataString s then Inr (parseHexPairs (drop 2 s))
      else Inl (INVALID_ARGUMENT ''invalid BytesLike value''))"

definition HexCharacters :: jsstring where
  "HexCharacters = str ''0123456789abcdef''"

definition hexByte :: "8 word \<Rightarrow> jsstring" where
  "hexByte v = [HexCharacters ! unat (drop_bit 4 (v AND 0xf0)), HexCharacters ! unat (v AND 0x0f)]"

definition hexOf :: "bytes \<Rightarrow> jsstring" where
  "hexOf bs = concat (map hexByte bs)"

definition hexlify :: "BytesLike \<Rightarrow> error + jsstring" where
  "hexlify data = bind (getBytes data) (\<lambda>bs. Inr (str ''0x'' @ hexOf bs))"

definition zeroPad :: "BytesLike \<Rightarrow> nat \<Rightarrow> bool \<Rightarrow> error + jsstring" where
  "zeroPad data len left =
     bind (getBytes data) (\<lambda>bs.
       if len \<ge> length bs then
         hexlify (Uint8Array (if left then replicate (len - length bs) 0 @ bs
                              else bs @ replicate (len - length bs) 0))
       else Inl (BUFFER_OVERRUN ''padding exceeds data length''))"

definition zeroPadValue :: "BytesLike \<Rightarrow> nat \<Rightarrow> error + jsstring" where
  "zeroPadValue data len = zeroPad data len True"

definition zeroPadBytes :: "BytesLike \<Rightarrow> nat \<Rightarrow> error + jsstring" where
  "zeroPadBytes data len = zeroPad data len False"

text \<open>
  \<open>toUtf8Bytes\<close> walks the code units. A high surrogate must be followed by a low
  surrogate, or the string is rejected; a low surrogate on its own is encoded as three
  bytes like any other code unit from \<open>0x800\<close> on.
\<close>

fun toUtf8Bytes :: "jsstring \<Rightarrow> error + bytes" where
  "toUtf8Bytes [] = Inr []"
| "toUtf8Bytes (c # cs) =
     (if c < 0x80 then
        bind (toUtf8Bytes cs) (\<lambda>result. Inr (ucast c # result))
      else if c < 0x800 then
        bind (toUtf8Bytes cs) (\<lambda>result.
          Inr (ucast (drop_bit 6 c OR 0xc0) # ucast ((c AND 0x3f) OR 0x80) # result))
      else if c AND 0xfc00 = 0xd800 then
        (case cs of
           [] \<Rightarrow> Inl (INVALID_ARGUMENT ''invalid surrogate pair'')
         | c2 # cs' \<Rightarrow>
             if c2 AND 0xfc00 = 0xdc00 then
               (let pair = (0x10000 :: 32 word) + push_bit 10 (ucast (c AND 0x03ff))
                             + ucast (c2 AND 0x03ff)
                in bind (toUtf8Bytes cs') (\<lambda>result.
                     Inr (ucast (drop_bit 18 pair OR 0xf0)
                          # ucast ((drop_bit 12 pair AND 0x3f) OR 0x80)
                          # ucast ((drop_bit 6 pair AND 0x3f) OR 0x80)
                          # ucast ((pair AND 0x3f) OR 0x80) # result)))
             else Inl (INVALID_ARGUMENT ''invalid surrogate pair''))
      else
        bind (toUtf8Bytes cs) (\<lambda>result.
          Inr (ucast (drop_bit 12 c OR 0xe0) # ucast ((drop_bit 6 c AND 0x3f) OR 0x80)
               # ucast ((c AND 0x3f) OR 0x80) # result)))"

text \<open>
  The strings \<open>toUtf8Bytes\<close> accepts: every high surrogate (\<open>0xD800\<close> to \<open>0xDBFF\<close>) is
  followed by a low surrogate (\<open>0xDC00\<close> to \<open>0xDFFF\<close>).
\<close>

fun surrogatesPaired :: "jsstring \<Rightarrow> bool" where
  "surrogatesPaired [] = True"
| "surrogatesPaired (c # cs) =
     (if c AND 0xfc00 = 0xd800 then
        (case cs of
           [] \<Rightarrow> False
         | c2 # cs' \<Rightarrow> c2 AND 0xfc00 = 0xdc00 \<and> surrogatesPaired cs')
      else surrogatesPaired cs)"

section \<open>The word encoder: \<open>utils/encoding.js\<close>\<close>

definition encodeAddress :: "jsstring \<Rightarrow> error + jsstring" where
  "encodeAddress addr =
     bind (zeroPadValue (HexString addr) 32) (\<lambda>padded.
     bind (hexlify (HexString padded)) (\<lambda>h. Inr (drop 2 h)))"

definition encodeUint :: "BigNumberish \<Rightarrow> error + jsstring" where
  "encodeUint v =
     bind (toBeHex v) (\<lambda>hex.
     bind (zeroPadValue (HexString hex) 32) (\<lambda>padded.
     bind (hexlify (HexString padded)) (\<lambda>h. Inr (drop 2 h))))"

record EncodedString =
  lengthHex :: jsstring
  paddedData :: jsstring

definition encodeString :: "jsstring \<Rightarrow> error + EncodedString" where
  "encodeString s =
     bind (toUtf8Bytes s) (\<lambda>bs.
     bind (zeroPadBytes (Uint8Array bs) (Math_ceil_div (length bs) 32 * 32)) (\<lambda>padded.
     bind (encodeUint (JNumber (int (length bs)))) (\<lambda>lengthHex.
     bind (hexlify (HexString padded)) (\<lambda>h.
       Inr \<lparr>lengthHex = lengthHex, paddedData = drop 2 h\<rparr>))))"

definition encodeBool :: "bool \<Rightarrow> error + jsstring" where
  "encodeBool v = encodeUint (JNumber (if v then 1 else 0))"

section \<open>Delegation and claim: \<open>features/delegation/calldata-builder.js\<close>\<close>

text \<open>
  The builder object holds the target contract (from the delegation configuration,
  which is passed to the constructor here) and the two selectors.
\<close>

record DelegationCalldataBuilder =
  TARGET_CONTRACT :: jsstring
  DELEGATE_SELECTOR :: jsstring
  CLAIM_SELECTOR :: jsstring

definition new_DelegationCalldataBuilder :: "jsstring \<Rightarrow> DelegationCalldataBuilder" where
  "new_DelegationCalldataBuilder target =
     \<lparr>TARGET_CONTRACT = target,
      DELEGATE_SELECTOR = str ''f5e56040'',
      CLAIM_SELECTOR = str ''2efe8a5f''\<rparr>"

text \<open>The optional argument \<open>denom\<close> is \<open>None\<close> when the caller leaves it out.\<close>

definition buildDelegationCalldata ::
  "DelegationCalldataBuilder \<Rightarrow> jsstring \<Rightarrow> jsstring \<Rightarrow> BigNumberish \<Rightarrow> jsstring option
     \<Rightarrow> error + jsstring" where
  "buildDelegationCalldata this delegator validator amount denomArg =
     (let denom = (case denomArg of None \<Rightarrow> str ''ahelios'' | Some d \<Rightarrow> d) in
      bind (encodeAddress delegator) (\<lambda>encodedDelegator.
      bind (encodeAddress validator) (\<lambda>encodedValidator.
      bind (encodeUint amount) (\<lambda>encodedAmount.
      bind (encodeUint (JNumber 128)) (\<lambda>encodedOffset.
      bind (encodeString denom) (\<lambda>encodedString.
        Inr (str ''0x'' @ DELEGATE_SELECTOR this @ encodedDelegator @ encodedValidator
             @ encodedAmount @ encodedOffset
             @ lengthHex encodedString @ paddedData encodedString)))))))"

definition buildClaimCalldata ::
  "(int \<Rightarrow> jsstring) \<Rightarrow> DelegationCalldataBuilder \<Rightarrow> jsstring \<Rightarrow> BigNumberish
     \<Rightarrow> error + jsstring" where
  "buildClaimCalldata numberText this delegator claimAmountOrId =
     bind (encodeAddress delegator) (\<lambda>encodedDelegator.
     bind (encodeUint (JString (toString numberText claimAmountOrId))) (\<lambda>encodedAmount.
       Inr (str ''0x'' @ CLAIM_SELECTOR this @ encodedDelegator @ encodedAmount)))"

section \<open>Governance: \<open>features/governance/governance-service.js\<close>\<close>

text \<open>
  The service object: the fields its constructor and \<open>connectWallet\<close> set (the
  network provider is left out). The service has its own copies of the encoders.
\<close>

record GovernanceService =
  governanceInitialized :: bool
  governanceWallet :: "jsstring option"
  apiUrl :: jsstring

definition GovernanceService_encodeAddress :: "jsstring \<Rightarrow> error + jsstring" where
  "GovernanceService_encodeAddress addr =
     bind (zeroPadValue (HexString addr) 32) (\<lambda>padded.
     bind (hexlify (HexString padded)) (\<lambda>h. Inr (drop 2 h)))"

definition GovernanceService_encodeUint :: "BigNumberish \<Rightarrow> error + jsstring" where
  "GovernanceService_encodeUint v =
     bind (toBeHex v) (\<lambda>hex.
     bind (zeroPadValue (HexString hex) 32) (\<lambda>padded.
     bind (hexlify (HexString padded)) (\<lambda>h. Inr (drop 2 h))))"

definition GovernanceService_encodeBool :: "bool \<Rightarrow> error + jsstring" where
  "GovernanceService_encodeBool v = GovernanceService_encodeUint (JNumber (if v then 1 else 0))"

definition GovernanceService_encodeString :: "jsstring \<Rightarrow> error + EncodedString" where
  "GovernanceService_encodeString s =
     bind (toUtf8Bytes s) (\<lambda>bs.
     bind (toBeHex (JNumber (int (length bs)))) (\<lambda>hex.
     bind (zeroPadValue (HexString hex) 32) (\<lambda>paddedLength.
     bind (hexlify (HexString paddedLength)) (\<lambda>hl.
     bind (zeroPadBytes (Uint8Array bs) (Math_ceil_div (length bs) 32 * 32)) (\<lambda>padded.
     bind (hexlify (HexString padded)) (\<lambda>h.
       Inr \<lparr>lengthHex = drop 2 hl, paddedData = drop 2 h\<rparr>))))))"

definition buildVoteCalldata ::
  "GovernanceService \<Rightarrow> jsstring \<Rightarrow> BigNumberish \<Rightarrow> bool \<Rightarrow> jsstring \<Rightarrow> error + jsstring" where
  "buildVoteCalldata this voter proposalId support reason =
     (let selector = str ''9ec4d363'' in
      bind (GovernanceService_encodeAddress voter) (\<lambda>encodedVoter.
      bind (GovernanceService_encodeUint proposalId) (\<lambda>encodedProposalId.
      bind (GovernanceService_encodeBool support) (\<lambda>encodedSupport.
      bind (GovernanceService_encodeUint (JNumber 128)) (\<lambda>offsetToString.
      bind (GovernanceService_encodeString reason) (\<lambda>encodedString.
        let calldata = selector @ encodedVoter @ encodedProposalId @ encodedSupport
                       @ offsetToString @ lengthHex encodedString @ paddedData encodedString
        in Inr (str ''0x'' @ calldata)))))))"

text \<open>
  \<open>encodeMessagesArray\<close> serialises the messages with \<open>JSON.stringify\<close> and encodes the
  text like a string. The serialisation is the built-in's: the model receives its result,
  \<open>messagesJson\<close>.
\<close>

definition encodeMessagesArray :: "jsstring \<Rightarrow> error + EncodedString" where
  "encodeMessagesArray messagesJson =
     bind (toUtf8Bytes messagesJson) (\<lambda>bs.
     bind (toBeHex (JNumber (int (length bs)))) (\<lambda>hex.
     bind (zeroPadValue (HexString hex) 32) (\<lambda>paddedLength.
     bind (hexlify (HexString paddedLength)) (\<lambda>hl.
     bind (zeroPadBytes (Uint8Array bs) (Math_ceil_div (length bs) 32 * 32)) (\<lambda>padded.
     bind (hexlify (HexString padded)) (\<lambda>h.
       Inr \<lparr>lengthHex = drop 2 hl, paddedData = drop 2 h\<rparr>))))))"

definition buildCreateProposalCalldata ::
  "GovernanceService \<Rightarrow> jsstring \<Rightarrow> jsstring \<Rightarrow> jsstring \<Rightarrow> BigNumberish \<Rightarrow> error + jsstring" where
  "buildCreateProposalCalldata this title description messagesJson deposit =
     (let selector = str ''cb0dddfe'';
          titleOffset = 160;
          descriptionOffset = titleOffset + 32 + Math_ceil_div (length title) 32 * 32;
          messagesOffset = descriptionOffset + 32 + Math_ceil_div (length description) 32 * 32
      in
      bind (GovernanceService_encodeUint (JNumber (int titleOffset))) (\<lambda>encodedTitleOffset.
      bind (GovernanceService_encodeUint (JNumber (int descriptionOffset))) (\<lambda>encodedDescriptionOffset.
      bind (GovernanceService_encodeUint (JNumber (int messagesOffset))) (\<lambda>encodedMessagesOffset.
      bind (GovernanceService_encodeUint deposit) (\<lambda>encodedDeposit.
      bind (GovernanceService_encodeAddress (str ''0x0000000000000000000000000000000000000000''))
        (\<lambda>encodedProposer.
      bind (GovernanceService_encodeString title) (\<lambda>encodedTitle.
      bind (GovernanceService_encodeString description) (\<lambda>encodedDescription.
      bind (encodeMessagesArray messagesJson) (\<lambda>encodedMessages.
        let calldata = selector @ encodedTitleOffset @ encodedDescriptionOffset
                       @ encodedMessagesOffset @ encodedDeposit @ encodedProposer
                       @ lengthHex encodedTitle @ paddedData encodedTitle
                       @ lengthHex encodedDescription @ paddedData encodedDescription
                       @ lengthHex encodedMessages @ paddedData encodedMessages
        in Inr (str ''0x'' @ calldata))))))))))"

section \<open>Bridge: calldata builder and service\<close>

text \<open>
  \<open>Helpers.log\<close> reads the clock and writes a line to the console. The world holds both;
  a console line is kept as the time stamp, the type argument (a string, or the error
  object that the call sites pass in its place) and the message. The builder prints the
  chain id only after it has encoded it, so the id is a safe integer there and its text
  is its decimal digits.
\<close>

datatype logtype = LogType string | LogError error

record World =
  now :: nat
  console :: "(nat \<times> logtype \<times> jsstring) list"

definition Helpers_log :: "World \<Rightarrow> jsstring \<Rightarrow> logtype \<Rightarrow> World" where
  "Helpers_log w message type = w\<lparr>console := console w @ [(now w, type, message)]\<rparr>"

definition buildBridgeCalldata ::
  "World \<Rightarrow> int \<Rightarrow> jsstring \<Rightarrow> jsstring \<Rightarrow> jsstring \<Rightarrow> jsstring \<Rightarrow> (error + jsstring) \<times> World" where
  "buildBridgeCalldata w destChainId tokenAddress amountWei feeOrGas extraString =
     (let selector = str ''0x7ae4a8ff'';
          built =
            bind (encodeUint (JNumber destChainId)) (\<lambda>encodedDest.
            bind (encodeUint (JNumber 0xa0)) (\<lambda>encodedOffset.
            bind (encodeAddress tokenAddress) (\<lambda>encodedToken.
            bind (encodeUint (JString amountWei)) (\<lambda>encodedAmount.
            bind (encodeUint (JString feeOrGas)) (\<lambda>encodedFee.
            bind (encodeString extraString) (\<lambda>encodedExtra.
              let encodedLength = lengthHex encodedExtra;
                  encodedData = paddedData encodedExtra
              in Inr (selector @ encodedDest @ encodedOffset @ encodedToken @ encodedAmount
                      @ encodedFee @ encodedLength @ encodedData)))))))
      in case built of
           Inr calldata \<Rightarrow>
             (Inr calldata,
              Helpers_log w ([0xD83D, 0xDD27] @ str '' Built bridge calldata for chain ''
                             @ intToString destChainId) (LogType ''INFO''))
         | Inl error \<Rightarrow>
             (Inl error, Helpers_log w (str ''Failed to build bridge calldata'') (LogError error)))"

text \<open>
  \<open>validateBridgeParams\<close> collects a message for each failed check and throws them
  joined. \<open>Helpers.isValidAddress\<close> asks \<open>ethers.getAddress\<close>, whose checksum rules are
  not modelled: the predicate is a parameter. The chain id is a number, the other
  arguments are strings, so \<open>!x\<close> holds for the number 0 and for the empty string.
\<close>

fun joinStrings :: "jsstring \<Rightarrow> jsstring list \<Rightarrow> jsstring" where
  "joinStrings sep [] = []"
| "joinStrings sep [x] = x"
| "joinStrings sep (x # y # ys) = x @ sep @ joinStrings sep (y # ys)"

definition startsWith :: "jsstring \<Rightarrow> jsstring \<Rightarrow> bool" where
  "startsWith s p = (take (length p) s = p)"

definition validateBridgeParams ::
  "(jsstring \<Rightarrow> bool) \<Rightarrow> int \<Rightarrow> jsstring \<Rightarrow> jsstring \<Rightarrow> jsstring \<Rightarrow> jsstring \<Rightarrow> error + bool" where
  "validateBridgeParams isValidAddress destChainId tokenAddress amountWei feeOrGas extraString =
     (let errors = [];
          errors = (if destChainId = 0 \<or> destChainId \<le> 0
                    then errors @ [str ''Invalid destination chain ID''] else errors);
          errors = (if isValidAddress tokenAddress
                    then errors else errors @ [str ''Invalid token address''])
      in
      bind (if amountWei = [] then Inr True
            else bind (BigInt amountWei) (\<lambda>v. Inr (v \<le> 0))) (\<lambda>badAmount.
      let errors = (if badAmount then errors @ [str ''Invalid amount''] else errors) in
      bind (if feeOrGas = [] then Inr True
            else bind (BigInt feeOrGas) (\<lambda>v. Inr (v < 0))) (\<lambda>badFee.
      let errors = (if badFee then errors @ [str ''Invalid fee/gas amount''] else errors);
          errors = (if extraString = [] then errors @ [str ''Invalid extra string (must be hex address)'']
                    else if startsWith extraString (str ''0x'') then errors
                    else errors @ [str ''Invalid extra string (must be hex address)''])
      in if length errors > 0
         then Inl (Error (str ''Bridge validation failed: '' @ joinStrings (str '', '') errors))
         else Inr True)))"

text \<open>
  The bridge service, up to the point where \<open>bridgeTokens\<close> hands the calldata to the
  network: the two guards, then, inside the \<open>try\<close>, validation, the check of the
  destination chain against the configured chains, and the builder; an exception inside
  the \<open>try\<close> is logged by the \<open>catch\<close>. The result is the exception that ends the
  call, or the calldata. \<open>estimateBridgeGas\<close> calls the builder after the first guard
  only, and logs and rethrows what the builder throws.
\<close>

record BridgeService =
  supportedChains :: "int list"
  isInitialized :: bool
  wallet :: "jsstring option"

definition new_BridgeService :: BridgeService where
  "new_BridgeService = \<lparr>supportedChains = [11155111, 137, 56], isInitialized = False, wallet = None\<rparr>"

definition bridgeTokens ::
  "(jsstring \<Rightarrow> bool) \<Rightarrow> (int \<Rightarrow> jsstring) \<Rightarrow> World \<Rightarrow> BridgeService
     \<Rightarrow> int \<Rightarrow> jsstring \<Rightarrow> jsstring \<Rightarrow> jsstring \<Rightarrow> jsstring \<Rightarrow> (error + jsstring) \<times> World" where
  "bridgeTokens isValidAddress numberText w this destChainId tokenAddress amountWei feeOrGas
     extraString =
     (if isInitialized this then
        (if wallet this = None then (Inl (Error (str ''Wallet not connected'')), w)
         else
           (let (result, w') =
                  (case validateBridgeParams isValidAddress destChainId tokenAddress amountWei
                          feeOrGas extraString of
                     Inl e \<Rightarrow> (Inl e, w)
                   | Inr ok \<Rightarrow>
                       if destChainId \<in> set (supportedChains this) then
                         buildBridgeCalldata w destChainId tokenAddress amountWei feeOrGas
                           extraString
                       else (Inl (Error (str ''Unsupported destination chain: ''
                                         @ Number_toString numberText destChainId)), w))
            in case result of
                 Inl error \<Rightarrow>
                   (Inl error, Helpers_log w' (str ''Bridge transaction failed'') (LogError error))
               | Inr calldata \<Rightarrow> (Inr calldata, w')))
      else (Inl (Error (str ''Bridge Service not initialized'')), w))"

definition estimateBridgeGas ::
  "World \<Rightarrow> BridgeService \<Rightarrow> int \<Rightarrow> jsstring \<Rightarrow> jsstring \<Rightarrow> jsstring \<Rightarrow> jsstring
     \<Rightarrow> (error + jsstring) \<times> World" where
  "estimateBridgeGas w this destChainId tokenAddress amountWei feeOrGas extraString =
     (if isInitialized this then
        (let (result, w') =
               buildBridgeCalldata w destChainId tokenAddress amountWei feeOrGas extraString
         in case result of
              Inl error \<Rightarrow>
                (Inl error,
                 Helpers_log w' (str ''Failed to estimate bridge gas'') (LogError error))
            | Inr calldata \<Rightarrow> (Inr calldata, w'))
      else (Inl (Error (str ''Bridge Service not initialized'')), w))"

section \<open>Properties of the conversions, the encoders and the builders\<close>

subsection \<open>Hexadecimal digits\<close>

lemma bind_Inr [simp]: "bind (Inr x) f = f x"
  by (simp add: bind_def)

lemma bind_Inl [simp]: "bind (Inl e) f = Inl e"
  by (simp add: bind_def)

lemma bind_eq_Inr: "bind m f = Inr y \<longleftrightarrow> (\<exists>x. m = Inr x \<and> f x = Inr y)"
  by (cases m) simp_all

lemma str_0x: "str ''0x'' = [0x30, 0x78]"
  by (simp add: str_def)

lemma str_0: "str ''0'' = [0x30]"
  by (simp add: str_def)

lemma nibble_lo: "unat ((b::8 word) AND 0x0f) = unat b mod 16"
proof -
  have "(0x0f :: 8 word) = mask 4" by (simp add: mask_eq_exp_minus_1)
  then have "b AND 0x0f = take_bit 4 b" by (simp add: take_bit_eq_mask)
  then show ?thesis by (simp only: unsigned_take_bit_eq) (simp add: take_bit_eq_mod)
qed

lemma nibble_hi: "unat (drop_bit 4 ((b::8 word) AND 0xf0)) = unat b div 16"
proof -
  have e: "(0xf0 :: 8 word) = push_bit 4 (mask 4)"
    by (simp add: mask_eq_exp_minus_1 push_bit_eq_mult)
  have "drop_bit 4 (b AND 0xf0) = drop_bit 4 b"
    unfolding e by (rule bit_word_eqI) (auto simp: bit_simps dest: bit_imp_le_length)
  then show ?thesis by (simp only: unat_drop_bit_eq) (simp add: drop_bit_eq_div)
qed

lemma HexCharacters_list:
  "HexCharacters = [0x30,0x31,0x32,0x33,0x34,0x35,0x36,0x37,0x38,0x39,0x61,0x62,0x63,0x64,0x65,0x66]"
  by (simp add: HexCharacters_def str_def)

lemma digit36:
  "str ''0123456789abcdefghijklmnopqrstuvwxyz'' =
     [0x30,0x31,0x32,0x33,0x34,0x35,0x36,0x37,0x38,0x39,0x61,0x62,0x63,0x64,0x65,0x66]
       @ str ''ghijklmnopqrstuvwxyz''"
  by (simp add: str_def)

lemma upt16: "[0..<16] = [0,1,2,3,4,5,6,7,8,9,10,11,12,13,14,15::nat]"
  by code_simp

lemma nat_lt16:
  assumes "k < 16"
  shows "k = 0 \<or> k = 1 \<or> k = 2 \<or> k = 3 \<or> k = 4 \<or> k = 5 \<or> k = 6 \<or> k = 7 \<or> k = 8
         \<or> k = 9 \<or> k = 10 \<or> k = 11 \<or> k = 12 \<or> k = 13 \<or> k = 14 \<or> k = (15::nat)"
proof -
  have "k \<in> set [0..<16]" using assms by simp
  then show ?thesis by (simp only: upt16 list.set insert_iff empty_iff simp_thms)
qed

lemma HexCharacters_digit:
  assumes "k < 16" shows "digitValue (HexCharacters ! k) = Some k"
  using nat_lt16[OF assms] unfolding HexCharacters_list digitValue_def
  by (elim disjE) simp_all

lemma digitChar_hex: "k < 16 \<Longrightarrow> digitChar k = HexCharacters ! k"
  unfolding digitChar_def digit36 HexCharacters_list by (simp only: nth_append list.size) simp

lemma isDigit_HexCharacters: "k < 16 \<Longrightarrow> isDigit 16 (HexCharacters ! k)"
  by (simp add: isDigit_def HexCharacters_digit)

lemma digitsValue_Nil [simp]: "digitsValue r [] = 0"
  by (simp add: digitsValue_def)

lemma digitsValue_snoc: "digitsValue r (ds @ [c]) = digitsValue r ds * r + the (digitValue c)"
  by (simp add: digitsValue_def)

lemma digitsValue_append:
  "digitsValue r (xs @ ys) = digitsValue r xs * r ^ length ys + digitsValue r ys"
proof (induction ys rule: rev_induct)
  case Nil
  show ?case by simp
next
  case (snoc y ys)
  have "digitsValue r (xs @ ys @ [y]) = digitsValue r ((xs @ ys) @ [y])" by simp
  also have "\<dots> = digitsValue r (xs @ ys) * r + the (digitValue y)"
    by (rule digitsValue_snoc)
  finally show ?case
    by (simp add: snoc.IH digitsValue_snoc algebra_simps)
qed

lemma unat_byte_div: "unat (b::8 word) div 16 < 16"
  using unsigned_less[of b, where 'a=nat] by simp

lemma hexByte_eq: "hexByte b = [HexCharacters ! (unat b div 16), HexCharacters ! (unat b mod 16)]"
  unfolding hexByte_def by (simp only: nibble_lo nibble_hi)

lemma digitsValue_hexByte: "digitsValue 16 (hexByte b) = unat b"
  by (simp add: digitsValue_def hexByte_eq HexCharacters_digit unat_byte_div)

lemma isDigit_hexByte: "list_all (isDigit 16) (hexByte b)"
  by (simp add: hexByte_eq isDigit_HexCharacters unat_byte_div)

lemma length_hexByte [simp]: "length (hexByte b) = 2"
  by (simp add: hexByte_def)

lemma hexOf_Nil [simp]: "hexOf [] = []"
  by (simp add: hexOf_def)

lemma hexOf_Cons: "hexOf (b # bs) = hexByte b @ hexOf bs"
  by (simp add: hexOf_def)

lemma hexOf_append: "hexOf (xs @ ys) = hexOf xs @ hexOf ys"
  by (simp add: hexOf_def)

lemma length_hexOf [simp]: "length (hexOf bs) = 2 * length bs"
  by (induction bs) (simp_all add: hexOf_Cons)

lemma isDigit_hexOf: "list_all (isDigit 16) (hexOf bs)"
  by (induction bs) (simp_all add: hexOf_Cons isDigit_hexByte)

lemma parseHexPairs_hexByte: "parseHexPairs (hexByte b @ cs) = b # parseHexPairs cs"
  using digitsValue_hexByte[of b] by (simp add: hexByte_eq)

lemma parseHexPairs_hexOf [simp]: "parseHexPairs (hexOf bs) = bs"
  by (induction bs) (simp_all add: hexOf_Cons parseHexPairs_hexByte)

lemma isHexDataString_hexOf: "isHexDataString (str ''0x'' @ hexOf bs)"
  by (simp add: isHexDataString_def str_0x isDigit_hexOf)

lemma getBytes_hexOf [simp]: "getBytes (HexString (str ''0x'' @ hexOf bs)) = Inr bs"
  by (simp add: isHexDataString_hexOf) (simp add: str_0x)

lemma hexlify_Uint8Array [simp]: "hexlify (Uint8Array bs) = Inr (str ''0x'' @ hexOf bs)"
  by (simp add: hexlify_def)

lemma hexlify_hexOf [simp]:
  "hexlify (HexString (str ''0x'' @ hexOf bs)) = Inr (str ''0x'' @ hexOf bs)"
  by (simp only: hexlify_def getBytes_hexOf bind_Inr)

lemma drop2_0x_split [simp]: "drop 2 (str ''0x'') @ drop (2 - length (str ''0x'')) w = w"
  by (simp add: str_0x)


subsection \<open>Padding\<close>

lemma zeroPad_Inr:
  "getBytes data = Inr bs \<Longrightarrow> length bs \<le> len \<Longrightarrow>
   zeroPad data len left =
     Inr (str ''0x'' @ hexOf (if left then replicate (len - length bs) 0 @ bs
                              else bs @ replicate (len - length bs) 0))"
  by (simp add: zeroPad_def)

lemma zeroPad_overrun:
  "getBytes data = Inr bs \<Longrightarrow> len < length bs \<Longrightarrow>
   zeroPad data len left = Inl (BUFFER_OVERRUN ''padding exceeds data length'')"
  by (simp add: zeroPad_def)

lemma length_parseHexPairs: "length (parseHexPairs s) = length s div 2"
  by (induction s rule: parseHexPairs.induct) simp_all

lemma encodeAddress_eq:
  "encodeAddress addr =
     (if \<not> isHexDataString addr then Inl (INVALID_ARGUMENT ''invalid BytesLike value'')
      else if 32 < (length addr - 2) div 2 then Inl (BUFFER_OVERRUN ''padding exceeds data length'')
      else Inr (hexOf (replicate (32 - (length addr - 2) div 2) 0 @ parseHexPairs (drop 2 addr))))"
proof (cases "isHexDataString addr")
  case False
  then show ?thesis
    by (simp add: encodeAddress_def zeroPadValue_def zeroPad_def)
next
  case True
  then have g: "getBytes (HexString addr) = Inr (parseHexPairs (drop 2 addr))" by simp
  show ?thesis
  proof (cases "32 < (length addr - 2) div 2")
    case True
    with g show ?thesis
      using zeroPad_overrun[OF g, of 32 True] \<open>isHexDataString addr\<close>
      by (simp add: encodeAddress_def zeroPadValue_def length_parseHexPairs)
  next
    case False
    then show ?thesis
      using zeroPad_Inr[OF g, of 32 True] \<open>isHexDataString addr\<close>
      by (simp add: encodeAddress_def zeroPadValue_def length_parseHexPairs del: getBytes.simps)
  qed
qed


subsection \<open>Digits of a number\<close>

lemma digitValue_digitChar: "k < 16 \<Longrightarrow> digitValue (digitChar k) = Some k"
  by (simp add: digitChar_hex HexCharacters_digit)

lemma isDigit_digitChar: "k < r \<Longrightarrow> r \<le> 16 \<Longrightarrow> isDigit r (digitChar k)"
  by (simp add: isDigit_def digitValue_digitChar)

lemma natToString_digits:
  "2 \<le> r \<Longrightarrow> r \<le> 16 \<Longrightarrow>
   list_all (isDigit r) (natToString r n) \<and> digitsValue r (natToString r n) = n
   \<and> natToString r n \<noteq> []"
proof (induction r n rule: natToString.induct)
  case (1 radix n)
  show ?case
  proof (cases "n < radix")
    case True
    then have "natToString radix n = [digitChar n]"
      by (simp add: natToString.simps)
    with True 1(2,3) show ?thesis
      by (simp add: isDigit_digitChar digitsValue_def digitValue_digitChar)
  next
    case False
    with 1(2) have e: "natToString radix n = natToString radix (n div radix) @ [digitChar (n mod radix)]"
      by (subst natToString.simps) simp
    have m: "n mod radix < radix" using 1(2) by simp
    have ih: "list_all (isDigit radix) (natToString radix (n div radix))
              \<and> digitsValue radix (natToString radix (n div radix)) = n div radix"
      using 1(1)[OF _ 1(2,3)] False 1(2) by simp
    from m 1(3) have "digitValue (digitChar (n mod radix)) = Some (n mod radix)"
      by (simp add: digitValue_digitChar)
    with ih m 1(3) show ?thesis
      by (simp add: e digitsValue_snoc isDigit_digitChar)
  qed
qed

lemma length_natToString_le:
  "2 \<le> r \<Longrightarrow> 0 < k \<Longrightarrow> length (natToString r n) \<le> k \<longleftrightarrow> n < r ^ k"
proof (induction r n arbitrary: k rule: natToString.induct)
  case (1 radix n)
  show ?case
  proof (cases "n < radix")
    case True
    then have "natToString radix n = [digitChar n]"
      by (simp add: natToString.simps)
    moreover have "n < radix ^ k"
    proof -
      have "radix ^ 1 \<le> radix ^ k"
        using 1(2,3) by (intro power_increasing) simp_all
      with True show ?thesis by simp
    qed
    ultimately show ?thesis using 1(3) by simp
  next
    case False
    with 1(2) have e: "natToString radix n = natToString radix (n div radix) @ [digitChar (n mod radix)]"
      by (subst natToString.simps) simp
    show ?thesis
    proof (cases "k = 1")
      case True
      have "natToString radix (n div radix) \<noteq> []"
        by (subst natToString.simps) simp
      then have "length (natToString radix (n div radix)) \<ge> 1"
        by (cases "natToString radix (n div radix)") simp_all
      with True False show ?thesis by (auto simp: e)
    next
      case k: False
      with 1(3) obtain j where j: "k = Suc j" "0 < j" by (cases k) auto
      have "length (natToString radix (n div radix)) \<le> j \<longleftrightarrow> n div radix < radix ^ j"
        using 1(1)[OF _ 1(2) j(2)] False 1(2) by simp
      moreover have "n div radix < radix ^ j \<longleftrightarrow> n < radix ^ Suc j"
        using 1(2) by (simp add: less_mult_imp_div_less div_less_iff_less_mult mult.commute)
      ultimately show ?thesis by (simp add: e j)
    qed
  qed
qed

lemma digitValue_zero: "digitValue 0x30 = Some 0"
  by (simp add: digitValue_def)

lemma digitsValue_Cons: "digitsValue r (c # ds) = the (digitValue c) * r ^ length ds + digitsValue r ds"
  using digitsValue_append[of r "[c]" ds] by (simp add: digitsValue_def)

lemma digitsValue_hexOf_zeros: "digitsValue 16 (hexOf (replicate k 0 @ bs)) = digitsValue 16 (hexOf bs)"
proof (induction k)
  case 0
  show ?case by simp
next
  case (Suc k)
  have "digitsValue 16 (hexOf (replicate (Suc k) 0 @ bs))
          = digitsValue 16 (hexByte 0 @ hexOf (replicate k 0 @ bs))"
    by (simp add: hexOf_Cons)
  also have "\<dots> = digitsValue 16 (hexOf (replicate k 0 @ bs))"
    by (simp only: digitsValue_append digitsValue_hexByte) simp
  finally show ?case using Suc by simp
qed

lemma digitValue_less: "isDigit r c \<Longrightarrow> the (digitValue c) < r"
  by (auto simp: isDigit_def split: option.splits)

lemma digitsValue_parseHexPairs:
  "even (length ds) \<Longrightarrow> list_all (isDigit 16) ds \<Longrightarrow>
   digitsValue 16 (hexOf (parseHexPairs ds)) = digitsValue 16 ds"
proof (induction ds rule: parseHexPairs.induct)
  case (1 a b cs)
  let ?v = "digitsValue 16 [a, b]"
  have ab: "the (digitValue a) < 16" "the (digitValue b) < 16"
    using 1(3) by (simp_all add: digitValue_less)
  have v: "?v = the (digitValue a) * 16 + the (digitValue b)"
    by (simp add: digitsValue_def)
  with ab have "?v < 256" by simp
  then have u: "unat (of_nat ?v :: 8 word) = ?v"
    by (simp add: unat_of_nat)
  have ih: "digitsValue 16 (hexOf (parseHexPairs cs)) = digitsValue 16 cs"
    using 1 by simp
  have len: "length (hexOf (parseHexPairs cs)) = length cs"
    using 1(2) by (simp add: length_parseHexPairs)
  have "digitsValue 16 (hexOf (parseHexPairs (a # b # cs)))
          = digitsValue 16 (hexByte (of_nat ?v) @ hexOf (parseHexPairs cs))"
    by (simp add: hexOf_Cons)
  also have "\<dots> = ?v * 16 ^ length cs + digitsValue 16 cs"
    by (simp only: digitsValue_append digitsValue_hexByte u ih len)
  also have "\<dots> = digitsValue 16 (a # b # cs)"
    using digitsValue_append[of 16 "[a, b]" cs] by simp
  finally show ?case .
qed simp_all


subsection \<open>The unsigned encoder\<close>

lemma pow_16_64: "(16::nat) ^ 64 = 2 ^ 256"
proof -
  have "(16::nat) ^ 64 = (2 ^ 4) ^ 64" by simp
  also have "\<dots> = 2 ^ 256" by (simp only: power_mult [symmetric]) simp
  finally show ?thesis .
qed

lemma toBeHex_props:
  assumes "getBigInt x = Inr v" "0 \<le> v"
  shows "\<exists>ds. toBeHex x = Inr (str ''0x'' @ ds) \<and> even (length ds) \<and> list_all (isDigit 16) ds
              \<and> digitsValue 16 ds = nat v \<and> (length ds \<le> 64 \<longleftrightarrow> v < 2 ^ 256)"
proof -
  let ?r = "natToString 16 (nat v)"
  let ?ds = "if odd (length ?r) then str ''0'' @ ?r else ?r"
  have r: "list_all (isDigit 16) ?r" "digitsValue 16 ?r = nat v"
    using natToString_digits[of 16 "nat v"] by simp_all
  have z: "isDigit 16 0x30" by (simp add: isDigit_def digitValue_zero)
  have 1: "toBeHex x = Inr (str ''0x'' @ ?ds)"
    using assms by (simp add: toBeHex_def getUint_def Let_def)
  have 2: "even (length ?ds)" by (simp add: str_0)
  have 3: "list_all (isDigit 16) ?ds" using r z by (simp add: str_0)
  have 4: "digitsValue 16 ?ds = nat v"
    using r by (simp add: str_0 digitsValue_Cons digitValue_zero)
  have "length ?r \<le> 64 \<longleftrightarrow> nat v < 16 ^ 64"
    by (rule length_natToString_le) simp_all
  then have l: "length ?r \<le> 64 \<longleftrightarrow> v < 2 ^ 256"
    using assms(2) by (simp only: pow_16_64) (simp add: nat_less_iff)
  have "length ?ds \<le> 64 \<longleftrightarrow> length ?r \<le> 64"
  proof (cases "odd (length ?r)")
    case True
    then have "length ?r \<noteq> 64" by auto
    with True show ?thesis by (simp add: str_0) linarith
  next
    case False
    then show ?thesis by simp
  qed
  with l have 5: "length ?ds \<le> 64 \<longleftrightarrow> v < 2 ^ 256" by simp
  from 1 2 3 4 5 show ?thesis by blast
qed

lemma isHexDataString_0x:
  "even (length ds) \<Longrightarrow> list_all (isDigit 16) ds \<Longrightarrow> isHexDataString (str ''0x'' @ ds)"
  by (simp add: isHexDataString_def str_0x)

lemma encodeUint_negative:
  assumes "getBigInt x = Inr v" "v < 0"
  shows "encodeUint x = Inl (NUMERIC_FAULT ''unsigned value cannot be negative'')"
  using assms by (simp add: encodeUint_def toBeHex_def getUint_def)

lemma encodeUint_invalid:
  assumes "getBigInt x = Inl e"
  shows "encodeUint x = Inl e"
  using assms by (simp add: encodeUint_def toBeHex_def getUint_def)

lemma encodeUint_in_range:
  assumes "getBigInt x = Inr v" "0 \<le> v" "v < 2 ^ 256"
  shows "\<exists>w. encodeUint x = Inr w \<and> length w = 64 \<and> list_all (isDigit 16) w
             \<and> digitsValue 16 w = nat v"
proof -
  from toBeHex_props[OF assms(1,2)] assms(3) obtain ds where
    ds: "toBeHex x = Inr (str ''0x'' @ ds)" "even (length ds)" "list_all (isDigit 16) ds"
        "digitsValue 16 ds = nat v" "length ds \<le> 64"
    by auto
  let ?bs = "parseHexPairs ds"
  let ?w = "hexOf (replicate (32 - length ?bs) 0 @ ?bs)"
  have g: "getBytes (HexString (str ''0x'' @ ds)) = Inr ?bs"
    using isHexDataString_0x[OF ds(2,3)] by (simp add: str_0x)
  have len: "length ?bs \<le> 32"
    using ds(5) by (simp add: length_parseHexPairs)
  have "zeroPadValue (HexString (str ''0x'' @ ds)) 32 = Inr (str ''0x'' @ ?w)"
    using zeroPad_Inr[OF g len, of True] by (simp add: zeroPadValue_def)
  then have 1: "encodeUint x = Inr ?w"
    by (simp add: encodeUint_def ds(1) del: getBytes.simps)
  have 2: "length ?w = 64" using len by simp
  have 3: "list_all (isDigit 16) ?w" by (rule isDigit_hexOf)
  have 4: "digitsValue 16 ?w = nat v"
    by (simp only: digitsValue_hexOf_zeros digitsValue_parseHexPairs[OF ds(2,3)] ds(4))
  from 1 2 3 4 show ?thesis by blast
qed

lemma encodeUint_too_large:
  assumes "getBigInt x = Inr v" "2 ^ 256 \<le> v"
  shows "encodeUint x = Inl (BUFFER_OVERRUN ''padding exceeds data length'')"
proof -
  have "0 \<le> v" using assms(2) by (rule order_trans[rotated]) simp
  from toBeHex_props[OF assms(1) this] assms(2) obtain ds where
    ds: "toBeHex x = Inr (str ''0x'' @ ds)" "even (length ds)" "list_all (isDigit 16) ds"
        "\<not> length ds \<le> 64"
    by auto
  have g: "getBytes (HexString (str ''0x'' @ ds)) = Inr (parseHexPairs ds)"
    using isHexDataString_0x[OF ds(2,3)] by (simp add: str_0x)
  have "32 < length (parseHexPairs ds)"
    using ds(2,4) by (auto simp: length_parseHexPairs elim!: evenE)
  then have "zeroPadValue (HexString (str ''0x'' @ ds)) 32
               = Inl (BUFFER_OVERRUN ''padding exceeds data length'')"
    using zeroPad_overrun[OF g, of 32 True] by (simp add: zeroPadValue_def)
  then show ?thesis
    by (simp add: encodeUint_def ds(1) del: getBytes.simps)
qed

lemma encodeUint_Inr_iff:
  "encodeUint x = Inr w \<Longrightarrow>
   \<exists>v. getBigInt x = Inr v \<and> 0 \<le> v \<and> v < 2 ^ 256 \<and> length w = 64
       \<and> list_all (isDigit 16) w \<and> digitsValue 16 w = nat v"
proof -
  assume a: "encodeUint x = Inr w"
  show ?thesis
  proof (cases "getBigInt x")
    case (Inl e)
    with a encodeUint_invalid[OF Inl] show ?thesis by simp
  next
    case (Inr v)
    have "\<not> v < 0" using a encodeUint_negative[OF Inr] by auto
    moreover have "\<not> 2 ^ 256 \<le> v" using a encodeUint_too_large[OF Inr] by auto
    ultimately have r: "0 \<le> v" "v < 2 ^ 256" by simp_all
    from encodeUint_in_range[OF Inr r] a Inr r show ?thesis by auto
  qed
qed

subsection \<open>Reading a word back\<close>

lemma isDigit_not_space: "isDigit r c \<Longrightarrow> \<not> isStrWhiteSpaceChar c"
proof
  assume d: "isDigit r c" and w: "isStrWhiteSpaceChar c"
  from d have "(0x30 \<le> c \<and> c \<le> 0x39) \<or> (0x61 \<le> c \<and> c \<le> 0x7A) \<or> (0x41 \<le> c \<and> c \<le> 0x5A)"
    by (auto simp: isDigit_def digitValue_def split: if_splits)
  then have u: "48 \<le> unat c \<and> unat c \<le> 122"
    by (auto simp: word_le_nat_alt)
  from w have "unat c \<in> {9, 10, 11, 12, 13, 32, 160, 5760, 8232, 8233, 8239, 8287, 12288, 65279}
               \<or> (8192 \<le> unat c \<and> unat c \<le> 8202)"
    unfolding isStrWhiteSpaceChar_def by (auto simp: word_le_nat_alt)
  with u show False by auto
qed

lemma trimString_id:
  assumes "s \<noteq> []" "\<not> isStrWhiteSpaceChar (hd s)" "\<not> isStrWhiteSpaceChar (last s)"
  shows "trimString s = s"
proof -
  have 1: "dropWhile isStrWhiteSpaceChar s = s"
    using assms(2) by (simp add: dropWhile_eq_self_iff)
  have 2: "dropWhile isStrWhiteSpaceChar (rev s) = rev s"
    using assms(1,3) by (simp add: dropWhile_eq_self_iff hd_rev)
  show ?thesis by (simp add: trimString_def 1 2)
qed

lemma BigInt_hex_word:
  assumes "w \<noteq> []" "list_all (isDigit 16) w"
  shows "BigInt (str ''0x'' @ w) = Inr (int (digitsValue 16 w))"
proof -
  have "isDigit 16 (last w)"
    using assms by (simp add: list_all_iff)
  then have l: "\<not> isStrWhiteSpaceChar (last (str ''0x'' @ w))"
    using assms(1) by (simp add: isDigit_not_space)
  have h: "\<not> isStrWhiteSpaceChar (hd (str ''0x'' @ w))"
    by (simp add: str_0x isStrWhiteSpaceChar_def)
  have "trimString (str ''0x'' @ w) = str ''0x'' @ w"
    by (rule trimString_id[OF _ h l]) (simp add: str_0x)
  then show ?thesis
    using assms by (simp add: BigInt_def StringToBigInt_def str_0x parseDigits_def)
qed


subsection \<open>The address and string encoders\<close>

lemma encodeAddress_Inr:
  assumes "encodeAddress a = Inr w"
  shows "isHexDataString a \<and> (length a - 2) div 2 \<le> 32 \<and> length w = 64
         \<and> list_all (isDigit 16) w
         \<and> w = hexOf (replicate (32 - (length a - 2) div 2) 0 @ parseHexPairs (drop 2 a))"
  using assms
  by (auto simp: encodeAddress_eq length_parseHexPairs isDigit_hexOf split: if_splits)

lemma Math_ceil_div_ge: "n \<le> Math_ceil_div n 32 * 32"
  unfolding Math_ceil_div_def by (auto simp: algebra_simps)

lemma Math_ceil_div_ceiling:
  assumes "0 < d"
  shows "Math_ceil_div n d = nat \<lceil>real n / real d\<rceil>"
proof -
  have n: "real n = real (n div d) * real d + real (n mod d)"
    by (metis of_nat_add of_nat_mult div_mult_mod_eq)
  show ?thesis
  proof (cases "n mod d = 0")
    case True
    with n assms have "real n / real d = real (n div d)" by simp
    with True show ?thesis by (simp add: Math_ceil_div_def)
  next
    case False
    then have pos: "0 < real (n mod d)" by simp
    have lt: "real (n mod d) < real d" using assms by simp
    have "\<lceil>real n / real d\<rceil> = int (n div d) + 1"
    proof (rule ceiling_unique)
      show "of_int (int (n div d) + 1) - 1 < real n / real d"
        using assms pos by (simp add: pos_less_divide_eq) (simp add: n)
      show "real n / real d \<le> of_int (int (n div d) + 1)"
        using assms lt by (simp add: pos_divide_le_eq) (simp add: n algebra_simps)
    qed
    with False show ?thesis by (simp add: Math_ceil_div_def)
  qed
qed

lemma encodeString_Inr:
  assumes "encodeString s = Inr es"
  shows "\<exists>bs. toUtf8Bytes s = Inr bs \<and> int (length bs) \<le> maxValue
              \<and> encodeUint (JNumber (int (length bs))) = Inr (lengthHex es)
              \<and> paddedData es = hexOf (bs @ replicate (Math_ceil_div (length bs) 32 * 32 - length bs) 0)"
proof -
  from assms obtain bs padded lh h where
    1: "toUtf8Bytes s = Inr bs"
    and 2: "zeroPadBytes (Uint8Array bs) (Math_ceil_div (length bs) 32 * 32) = Inr padded"
    and 3: "encodeUint (JNumber (int (length bs))) = Inr lh"
    and 4: "hexlify (HexString padded) = Inr h"
    and 5: "es = \<lparr>lengthHex = lh, paddedData = drop 2 h\<rparr>"
    unfolding encodeString_def by (auto simp: bind_eq_Inr)
  have g: "getBytes (Uint8Array bs) = Inr bs" by simp
  from zeroPad_Inr[OF g Math_ceil_div_ge, of False] 2
  have p: "padded = str ''0x'' @ hexOf (bs @ replicate (Math_ceil_div (length bs) 32 * 32 - length bs) 0)"
    by (simp add: zeroPadBytes_def)
  from 4 have "h = padded" unfolding p by (simp only: hexlify_hexOf) simp
  with p 5 have 6: "paddedData es = hexOf (bs @ replicate (Math_ceil_div (length bs) 32 * 32 - length bs) 0)"
    by simp
  from encodeUint_Inr_iff[OF 3] have "int (length bs) \<le> maxValue"
    by (auto split: if_splits)
  with 1 3 5 6 show ?thesis by simp
qed


lemma encodeString_ok:
  assumes "toUtf8Bytes s = Inr bs" "int (length bs) \<le> maxValue"
  shows "\<exists>w. encodeUint (JNumber (int (length bs))) = Inr w
           \<and> encodeString s = Inr \<lparr>lengthHex = w,
                paddedData = hexOf (bs @ replicate (Math_ceil_div (length bs) 32 * 32 - length bs) 0)\<rparr>"
proof -
  have gb: "getBigInt (JNumber (int (length bs))) = Inr (int (length bs))"
    using assms(2) by (simp add: maxValue_def)
  have "int (length bs) < 2 ^ 256"
    using assms(2) by (simp add: maxValue_def)
  from encodeUint_in_range[OF gb _ this] obtain w where
    w: "encodeUint (JNumber (int (length bs))) = Inr w" by auto
  have g: "getBytes (Uint8Array bs) = Inr bs" by simp
  from zeroPad_Inr[OF g Math_ceil_div_ge, of False]
  have "zeroPadBytes (Uint8Array bs) (Math_ceil_div (length bs) 32 * 32)
          = Inr (str ''0x'' @ hexOf (bs @ replicate (Math_ceil_div (length bs) 32 * 32 - length bs) 0))"
    by (simp add: zeroPadBytes_def)
  then have "encodeString s = Inr \<lparr>lengthHex = w,
                paddedData = hexOf (bs @ replicate (Math_ceil_div (length bs) 32 * 32 - length bs) 0)\<rparr>"
    by (simp add: encodeString_def assms(1) w del: getBytes.simps)
  with w show ?thesis by blast
qed

lemma GovernanceService_encodeAddress_eq: "GovernanceService_encodeAddress = encodeAddress"
  by (rule ext) (simp add: GovernanceService_encodeAddress_def encodeAddress_def)

lemma GovernanceService_encodeUint_eq: "GovernanceService_encodeUint = encodeUint"
  by (rule ext) (simp add: GovernanceService_encodeUint_def encodeUint_def)

lemma GovernanceService_encodeBool_eq: "GovernanceService_encodeBool = encodeBool"
  by (rule ext) (simp add: GovernanceService_encodeBool_def encodeBool_def GovernanceService_encodeUint_eq)

lemma GovernanceService_encodeString_eq: "GovernanceService_encodeString s = encodeString s"
proof (cases "toUtf8Bytes s")
  case (Inl e)
  then show ?thesis by (simp add: GovernanceService_encodeString_def encodeString_def)
next
  case (Inr bs)
  have g: "getBytes (Uint8Array bs) = Inr bs" by simp
  from zeroPad_Inr[OF g Math_ceil_div_ge, of False]
  have z: "zeroPadBytes (Uint8Array bs) (Math_ceil_div (length bs) 32 * 32)
          = Inr (str ''0x'' @ hexOf (bs @ replicate (Math_ceil_div (length bs) 32 * 32 - length bs) 0))"
    by (simp add: zeroPadBytes_def)
  show ?thesis
    unfolding GovernanceService_encodeString_def encodeString_def encodeUint_def Inr
    by (cases "toBeHex (JNumber (int (length bs)))";
        cases "zeroPadValue (HexString (projr (toBeHex (JNumber (int (length bs)))))) 32";
        cases "hexlify (HexString (projr (zeroPadValue (HexString (projr (toBeHex (JNumber (int (length bs)))))) 32)))")
       (simp_all add: z del: getBytes.simps)
qed

lemma encodeMessagesArray_eq: "encodeMessagesArray s = encodeString s"
  using GovernanceService_encodeString_eq[of s]
  by (simp add: encodeMessagesArray_def GovernanceService_encodeString_def)

subsection \<open>Strings the encoders accept\<close>

lemma toUtf8Bytes_ascii:
  "list_all (\<lambda>c. c < 0x80) s \<Longrightarrow> toUtf8Bytes s = Inr (map ucast s)"
  by (induction s) simp_all

lemma isDigit_10_range: "isDigit 10 c \<Longrightarrow> 0x30 \<le> c \<and> c \<le> 0x39"
  by (auto simp: isDigit_def digitValue_def word_le_nat_alt unat_sub split: if_splits)

lemma BigInt_decimal:
  assumes "s \<noteq> []" "list_all (isDigit 10) s"
  shows "BigInt s = Inr (int (digitsValue 10 s))"
proof -
  have "isDigit 10 (hd s)" "isDigit 10 (last s)"
    using assms by (simp_all add: list_all_iff)
  then have "\<not> isStrWhiteSpaceChar (hd s)" "\<not> isStrWhiteSpaceChar (last s)"
    by (simp_all add: isDigit_not_space)
  then have t: "trimString s = s"
    using assms(1) by (simp add: trimString_id)
  obtain c cs where s: "s = c # cs" using assms(1) by (cases s) auto
  have c: "0x30 \<le> c \<and> c \<le> 0x39"
    using assms(2) s by (simp add: isDigit_10_range)
  then have 1: "c \<noteq> 0x2B" "c \<noteq> 0x2D" by auto
  have 2: "hd cs \<notin> {0x78, 0x58, 0x6F, 0x4F, 0x62, 0x42}" if "cs \<noteq> []"
  proof -
    from that assms(2) s have "isDigit 10 (hd cs)" by (cases cs) simp_all
    then have "0x30 \<le> hd cs \<and> hd cs \<le> 0x39" by (rule isDigit_10_range)
    then show ?thesis by auto
  qed
  show ?thesis
    using assms 1 2 unfolding BigInt_def StringToBigInt_def t
    by (auto simp: s parseDigits_def)
qed

lemma getBigInt_decimal:
  assumes "s \<noteq> []" "list_all (isDigit 10) s"
  shows "getBigInt (JString s) = Inr (int (digitsValue 10 s))"
proof -
  have "isDigit 10 (hd s)" using assms by (cases s) simp_all
  then have "hd s \<noteq> 0x2D" using isDigit_10_range[of "hd s"] by auto
  then show ?thesis using assms by (simp add: BigInt_decimal)
qed

lemma getBigInt_intToString: "getBigInt (JString (intToString v)) = Inr v"
proof (cases "v < 0")
  case False
  from natToString_digits[of 10 "nat v"] False show ?thesis
    by (simp add: intToString_def getBigInt_decimal del: getBigInt.simps)
next
  case True
  let ?ds = "natToString 10 (nat (- v))"
  from natToString_digits[of 10 "nat (- v)"] have
    ds: "list_all (isDigit 10) ?ds" "digitsValue 10 ?ds = nat (- v)" "?ds \<noteq> []"
    by simp_all
  then have "isDigit 10 (?ds ! 0)" by (cases ?ds) simp_all
  then have "?ds ! 0 \<noteq> 0x2D" using isDigit_10_range[of "?ds ! 0"] by auto
  with True ds show ?thesis
    by (simp add: intToString_def BigInt_decimal )
qed

lemma getBigInt_toString:
  "(case x of JNumber v \<Rightarrow> - maxValue \<le> v \<and> v \<le> maxValue | _ \<Rightarrow> True) \<Longrightarrow>
   getBigInt (JString (toString numberText x)) = getBigInt x"
  by (cases x)
     (simp_all add: getBigInt_intToString Number_toString_def MAX_SAFE_INTEGER_def maxValue_def
        del: getBigInt.simps(3))

subsection \<open>What a returned calldata is made of\<close>

lemma buildBridgeCalldata_Inr:
  assumes "fst (buildBridgeCalldata w d t a f e) = Inr cd"
  shows "\<exists>wd wo wt wa wfee es.
           encodeUint (JNumber d) = Inr wd \<and> encodeUint (JNumber 160) = Inr wo
           \<and> encodeAddress t = Inr wt \<and> encodeUint (JString a) = Inr wa
           \<and> encodeUint (JString f) = Inr wfee \<and> encodeString e = Inr es
           \<and> cd = str ''0x7ae4a8ff'' @ wd @ wo @ wt @ wa @ wfee @ lengthHex es @ paddedData es"
  using assms unfolding buildBridgeCalldata_def Let_def
  by (auto simp: bind_eq_Inr split: sum.splits)

lemma buildBridgeCalldata_ok:
  assumes "encodeUint (JNumber d) = Inr wd" "encodeUint (JNumber 160) = Inr wo"
    "encodeAddress t = Inr wt" "encodeUint (JString a) = Inr wa"
    "encodeUint (JString f) = Inr wfee" "encodeString e = Inr es"
  shows "fst (buildBridgeCalldata w d t a f e)
           = Inr (str ''0x7ae4a8ff'' @ wd @ wo @ wt @ wa @ wfee @ lengthHex es @ paddedData es)"
  using assms unfolding buildBridgeCalldata_def Let_def by simp

lemma buildDelegationCalldata_Inr:
  assumes "buildDelegationCalldata this dl v am dn = Inr cd"
  shows "\<exists>wd wv wa wo es.
           encodeAddress dl = Inr wd \<and> encodeAddress v = Inr wv \<and> encodeUint am = Inr wa
           \<and> encodeUint (JNumber 128) = Inr wo
           \<and> encodeString (case dn of None \<Rightarrow> str ''ahelios'' | Some x \<Rightarrow> x) = Inr es
           \<and> cd = str ''0x'' @ DELEGATE_SELECTOR this @ wd @ wv @ wa @ wo
                    @ lengthHex es @ paddedData es"
  using assms unfolding buildDelegationCalldata_def Let_def
  by (auto simp: bind_eq_Inr)

lemma buildClaimCalldata_Inr:
  assumes "buildClaimCalldata numberText this dl x = Inr cd"
  shows "\<exists>wd wa. encodeAddress dl = Inr wd \<and> encodeUint (JString (toString numberText x)) = Inr wa
           \<and> cd = str ''0x'' @ CLAIM_SELECTOR this @ wd @ wa"
  using assms unfolding buildClaimCalldata_def by (auto simp: bind_eq_Inr)

lemma buildVoteCalldata_Inr:
  assumes "buildVoteCalldata this voter pid support reason = Inr cd"
  shows "\<exists>wv wp ws wo es.
           encodeAddress voter = Inr wv \<and> encodeUint pid = Inr wp \<and> encodeBool support = Inr ws
           \<and> encodeUint (JNumber 128) = Inr wo \<and> encodeString reason = Inr es
           \<and> cd = str ''0x'' @ str ''9ec4d363'' @ wv @ wp @ ws @ wo
                    @ lengthHex es @ paddedData es"
  using assms unfolding buildVoteCalldata_def Let_def
    GovernanceService_encodeAddress_eq GovernanceService_encodeUint_eq
    GovernanceService_encodeBool_eq GovernanceService_encodeString_eq
  by (auto simp: bind_eq_Inr)

lemma buildCreateProposalCalldata_Inr:
  assumes "buildCreateProposalCalldata this title description messagesJson deposit = Inr cd"
  shows "\<exists>w1 w2 w3 wd wp et ed em.
           encodeUint (JNumber 160) = Inr w1
           \<and> encodeUint (JNumber (int (160 + 32 + Math_ceil_div (length title) 32 * 32))) = Inr w2
           \<and> encodeUint (JNumber (int (160 + 32 + Math_ceil_div (length title) 32 * 32
                                        + 32 + Math_ceil_div (length description) 32 * 32))) = Inr w3
           \<and> encodeUint deposit = Inr wd
           \<and> encodeAddress (str ''0x0000000000000000000000000000000000000000'') = Inr wp
           \<and> encodeString title = Inr et \<and> encodeString description = Inr ed
           \<and> encodeString messagesJson = Inr em
           \<and> cd = str ''0x'' @ str ''cb0dddfe'' @ w1 @ w2 @ w3 @ wd @ wp
                    @ lengthHex et @ paddedData et @ lengthHex ed @ paddedData ed
                    @ lengthHex em @ paddedData em"
  using assms unfolding buildCreateProposalCalldata_def Let_def
    GovernanceService_encodeAddress_eq GovernanceService_encodeUint_eq
    GovernanceService_encodeString_eq encodeMessagesArray_eq
  by (auto simp: bind_eq_Inr)

lemma encodeUint_length: "encodeUint x = Inr w \<Longrightarrow> length w = 64"
  using encodeUint_Inr_iff by blast

lemma encodeUint_number_value:
  assumes "encodeUint (JNumber n) = Inr w"
  shows "BigInt (str ''0x'' @ w) = Inr n"
proof -
  from encodeUint_Inr_iff[OF assms] obtain v where
    v: "getBigInt (JNumber n) = Inr v" "0 \<le> v" "length w = 64" "list_all (isDigit 16) w"
       "digitsValue 16 w = nat v"
    by auto
  from v(1) have "v = n" by (auto split: if_splits)
  moreover from v(3) have "w \<noteq> []" by auto
  ultimately show ?thesis using BigInt_hex_word[of w] v by simp
qed

lemma encodeAddress_length: "encodeAddress a = Inr w \<Longrightarrow> length w = 64"
  using encodeAddress_Inr by blast

lemma encodeString_lengthHex: "encodeString s = Inr es \<Longrightarrow> length (lengthHex es) = 64"
  using encodeString_Inr encodeUint_length by blast

lemma length_str [simp]: "length (str s) = length s"
  by (simp add: str_def)

subsection \<open>Sample arguments\<close>

lemma sample_address:
  "\<exists>w. encodeAddress (str ''0xd4949664cd82660aae99bedc034a0dea8a0bd517'') = Inr w"
proof -
  have "isHexDataString (str ''0xd4949664cd82660aae99bedc034a0dea8a0bd517'')"
    by (simp add: isHexDataString_def isDigit_def digitValue_def str_def)
  then show ?thesis by (simp add: encodeAddress_eq)
qed

lemma encodeUint_decimal_ok:
  assumes "s \<noteq> []" "list_all (isDigit 10) s" "digitsValue 10 s < 2 ^ 256"
  shows "\<exists>w. encodeUint (JString s) = Inr w"
proof -
  have "int (digitsValue 10 s) < 2 ^ 256"
    using assms(3) by (metis of_nat_less_iff of_nat_numeral of_nat_power)
  from encodeUint_in_range[OF getBigInt_decimal[OF assms(1,2)] _ this]
  show ?thesis by auto
qed

lemma sample_amount: "\<exists>w. encodeUint (JString (str ''1000000000000000'')) = Inr w"
  by (rule encodeUint_decimal_ok)
     (simp_all add: isDigit_def digitValue_def digitsValue_def str_def)

lemma sample_fee: "\<exists>w. encodeUint (JString (str ''500000000000000000'')) = Inr w"
  by (rule encodeUint_decimal_ok)
     (simp_all add: isDigit_def digitValue_def digitsValue_def str_def)

lemma encodeUint_number_ok:
  assumes "0 \<le> n" "n \<le> maxValue"
  shows "\<exists>w. encodeUint (JNumber n) = Inr w"
proof -
  have g: "getBigInt (JNumber n) = Inr n" using assms by (simp add: maxValue_def)
  have "n < 2 ^ 256" using assms(2) by (simp add: maxValue_def)
  from encodeUint_in_range[OF g assms(1) this] show ?thesis by auto
qed

lemma encodeString_ascii_ok:
  assumes "list_all (\<lambda>c. c < 0x80) s" "int (length s) \<le> maxValue"
  shows "\<exists>es. encodeString s = Inr es"
  using encodeString_ok[OF toUtf8Bytes_ascii[OF assms(1)]] assms(2) by auto

lemma sample_recipient:
  "\<exists>es. encodeString (str ''0x1234567890abcdef1234567890abcdef12345678'') = Inr es"
  by (rule encodeString_ascii_ok) (simp_all add: str_def maxValue_def)

lemma sample_denom: "\<exists>es. encodeString (str ''ahelios'') = Inr es"
  by (rule encodeString_ascii_ok) (simp_all add: str_def maxValue_def)

lemma sample_empty: "\<exists>es. encodeString [] = Inr es"
  by (rule encodeString_ascii_ok) (simp_all add: maxValue_def)

lemma sample_bridge:
  "\<exists>cd. fst (buildBridgeCalldata w 11155111 (str ''0xd4949664cd82660aae99bedc034a0dea8a0bd517'')
            (str ''1000000000000000'') (str ''500000000000000000'')
            (str ''0x1234567890abcdef1234567890abcdef12345678'')) = Inr cd"
proof -
  obtain wd where 1: "encodeUint (JNumber 11155111) = Inr wd"
    using encodeUint_number_ok[of 11155111] by (auto simp: maxValue_def)
  obtain wo where 2: "encodeUint (JNumber 160) = Inr wo"
    using encodeUint_number_ok[of 160] by (auto simp: maxValue_def)
  from sample_address sample_amount sample_fee sample_recipient obtain wt wa wfee es where
    "encodeAddress (str ''0xd4949664cd82660aae99bedc034a0dea8a0bd517'') = Inr wt"
    "encodeUint (JString (str ''1000000000000000'')) = Inr wa"
    "encodeUint (JString (str ''500000000000000000'')) = Inr wfee"
    "encodeString (str ''0x1234567890abcdef1234567890abcdef12345678'') = Inr es"
    by blast
  from buildBridgeCalldata_ok[OF 1 2 this] show ?thesis by blast
qed

lemma sample_delegation:
  "\<exists>cd. buildDelegationCalldata (new_DelegationCalldataBuilder target)
           (str ''0xd4949664cd82660aae99bedc034a0dea8a0bd517'')
           (str ''0xd4949664cd82660aae99bedc034a0dea8a0bd517'')
           (JString (str ''1000000000000000'')) None = Inr cd"
proof -
  obtain wo where 2: "encodeUint (JNumber 128) = Inr wo"
    using encodeUint_number_ok[of 128] by (auto simp: maxValue_def)
  from sample_address sample_amount sample_denom obtain wt wa es where
    "encodeAddress (str ''0xd4949664cd82660aae99bedc034a0dea8a0bd517'') = Inr wt"
    "encodeUint (JString (str ''1000000000000000'')) = Inr wa"
    "encodeString (str ''ahelios'') = Inr es"
    by blast
  with 2 show ?thesis by (simp add: buildDelegationCalldata_def)
qed

lemma sample_claim:
  "\<exists>cd. buildClaimCalldata numberText (new_DelegationCalldataBuilder target)
           (str ''0xd4949664cd82660aae99bedc034a0dea8a0bd517'')
           (JString (str ''1000000000000000'')) = Inr cd"
proof -
  from sample_address sample_amount obtain wt wa where
    "encodeAddress (str ''0xd4949664cd82660aae99bedc034a0dea8a0bd517'') = Inr wt"
    "encodeUint (JString (str ''1000000000000000'')) = Inr wa"
    by blast
  then show ?thesis by (simp add: buildClaimCalldata_def)
qed

lemma sample_vote:
  "\<exists>cd. buildVoteCalldata this (str ''0xd4949664cd82660aae99bedc034a0dea8a0bd517'')
           (JNumber 7) True [] = Inr cd"
proof -
  obtain wp where 1: "encodeUint (JNumber 7) = Inr wp"
    using encodeUint_number_ok[of 7] by (auto simp: maxValue_def)
  obtain ws where 2: "encodeUint (JNumber 1) = Inr ws"
    using encodeUint_number_ok[of 1] by (auto simp: maxValue_def)
  obtain wo where 3: "encodeUint (JNumber 128) = Inr wo"
    using encodeUint_number_ok[of 128] by (auto simp: maxValue_def)
  from sample_address sample_empty obtain wt es where
    "encodeAddress (str ''0xd4949664cd82660aae99bedc034a0dea8a0bd517'') = Inr wt"
    "encodeString [] = Inr es"
    by blast
  with 1 2 3 show ?thesis
    by (simp add: buildVoteCalldata_def GovernanceService_encodeAddress_eq
        GovernanceService_encodeUint_eq GovernanceService_encodeBool_eq
        GovernanceService_encodeString_eq encodeBool_def)
qed

lemma sample_proposal:
  "\<exists>cd. buildCreateProposalCalldata this (str ''A'') (str ''BB'') (str ''[]'')
           (JString (str ''1000000000000000'')) = Inr cd"
proof -
  obtain w1 where 1: "encodeUint (JNumber 160) = Inr w1"
    using encodeUint_number_ok[of 160] by (auto simp: maxValue_def)
  obtain w2 where 2: "encodeUint (JNumber 224) = Inr w2"
    using encodeUint_number_ok[of 224] by (auto simp: maxValue_def)
  obtain w3 where 3: "encodeUint (JNumber 288) = Inr w3"
    using encodeUint_number_ok[of 288] by (auto simp: maxValue_def)
  have z: "\<exists>w. encodeAddress (str ''0x0000000000000000000000000000000000000000'') = Inr w"
  proof -
    have "isHexDataString (str ''0x0000000000000000000000000000000000000000'')"
      by (simp add: isHexDataString_def isDigit_def digitValue_def str_def)
    then show ?thesis by (simp add: encodeAddress_eq)
  qed
  have t: "\<exists>es. encodeString (str ''A'') = Inr es"
    by (rule encodeString_ascii_ok) (simp_all add: str_def maxValue_def)
  have d: "\<exists>es. encodeString (str ''BB'') = Inr es"
    by (rule encodeString_ascii_ok) (simp_all add: str_def maxValue_def)
  have m: "\<exists>es. encodeString (str ''[]'') = Inr es"
    by (rule encodeString_ascii_ok) (simp_all add: str_def maxValue_def)
  from z t d m sample_amount obtain wp et ed em wd where
    "encodeAddress (str ''0x0000000000000000000000000000000000000000'') = Inr wp"
    "encodeString (str ''A'') = Inr et" "encodeString (str ''BB'') = Inr ed"
    "encodeString (str ''[]'') = Inr em"
    "encodeUint (JString (str ''1000000000000000'')) = Inr wd"
    by blast
  with 1 2 3 show ?thesis
    by (simp add: buildCreateProposalCalldata_def GovernanceService_encodeAddress_eq
        GovernanceService_encodeUint_eq GovernanceService_encodeString_eq
        encodeMessagesArray_eq Math_ceil_div_def)
qed

subsection \<open>Every returned character is a hexadecimal digit\<close>

lemma encodeUint_digits: "encodeUint x = Inr w \<Longrightarrow> list_all (isDigit 16) w"
  using encodeUint_Inr_iff by blast

lemma encodeAddress_digits: "encodeAddress a = Inr w \<Longrightarrow> list_all (isDigit 16) w"
  using encodeAddress_Inr by blast

lemma encodeString_digits:
  assumes "encodeString s = Inr es"
  shows "list_all (isDigit 16) (lengthHex es) \<and> list_all (isDigit 16) (paddedData es)"
proof -
  from encodeString_Inr[OF assms] obtain bs where
    "encodeUint (JNumber (int (length bs))) = Inr (lengthHex es)"
    "paddedData es = hexOf (bs @ replicate (Math_ceil_div (length bs) 32 * 32 - length bs) 0)"
    by blast
  then show ?thesis by (simp add: encodeUint_digits isDigit_hexOf)
qed

lemma selector_digits:
  "list_all (isDigit 16) (str ''7ae4a8ff'')" "list_all (isDigit 16) (str ''f5e56040'')"
  "list_all (isDigit 16) (str ''2efe8a5f'')" "list_all (isDigit 16) (str ''9ec4d363'')"
  "list_all (isDigit 16) (str ''cb0dddfe'')"
  by (simp_all add: isDigit_def digitValue_def str_def)

lemma bridge_selector: "str ''0x7ae4a8ff'' = str ''0x'' @ str ''7ae4a8ff''"
  by (simp add: str_def)

subsection \<open>The claim builder\<close>

lemma encodeUint_cong: "getBigInt x = getBigInt y \<Longrightarrow> encodeUint x = encodeUint y"
  by (simp add: encodeUint_def toBeHex_def getUint_def)

subsection \<open>Bridge validation\<close>

lemma validateBridgeParams_eq:
  assumes "amountWei = [] \<or> BigInt amountWei = Inr va"
    and "feeOrGas = [] \<or> BigInt feeOrGas = Inr vf"
  shows "validateBridgeParams isValidAddress destChainId tokenAddress amountWei feeOrGas extraString =
     (let errors =
            (if destChainId \<le> 0 then [str ''Invalid destination chain ID''] else [])
          @ (if isValidAddress tokenAddress then [] else [str ''Invalid token address''])
          @ (if amountWei = [] \<or> va \<le> 0 then [str ''Invalid amount''] else [])
          @ (if feeOrGas = [] \<or> vf < 0 then [str ''Invalid fee/gas amount''] else [])
          @ (if startsWith extraString (str ''0x'') then []
             else [str ''Invalid extra string (must be hex address)''])
      in if errors = [] then Inr True
         else Inl (Error (str ''Bridge validation failed: '' @ joinStrings (str '', '') errors)))"
proof -
  have e: "extraString = [] \<Longrightarrow> \<not> startsWith extraString (str ''0x'')"
    by (simp add: startsWith_def str_0x)
  show ?thesis
    using assms e unfolding validateBridgeParams_def Let_def
    by (cases "amountWei = []"; cases "feeOrGas = []") auto
qed

lemma validateBridgeParams_SyntaxError:
  "amountWei \<noteq> [] \<Longrightarrow> BigInt amountWei = Inl e \<Longrightarrow>
   validateBridgeParams isValidAddress destChainId tokenAddress amountWei feeOrGas extraString = Inl e"
  by (simp add: validateBridgeParams_def)

lemma bridgeTokens_validation_first:
  assumes "isInitialized this" "wallet this \<noteq> None"
    "validateBridgeParams isValidAddress destChainId tokenAddress amountWei feeOrGas extraString = Inl e"
  shows "fst (bridgeTokens isValidAddress numberText w this destChainId tokenAddress amountWei feeOrGas extraString) = Inl e"
  using assms by (auto simp: bridgeTokens_def)

lemma BigInt_zero: "BigInt (str ''0'') = Inr 0"
  using BigInt_decimal[of "str ''0''"]
  by (simp add: isDigit_def digitValue_def digitsValue_def str_def)

lemma BigInt_sample_amount: "BigInt (str ''1000000000000000'') = Inr 1000000000000000"
  using BigInt_decimal[of "str ''1000000000000000''"]
  by (simp add: isDigit_def digitValue_def digitsValue_def str_def)

lemma BigInt_sample_fee: "BigInt (str ''500000000000000000'') = Inr 500000000000000000"
  using BigInt_decimal[of "str ''500000000000000000''"]
  by (simp add: isDigit_def digitValue_def digitsValue_def str_def)

lemma BigInt_minus_one: "BigInt (str ''-1'') = Inr (- 1)"
  by (simp add: BigInt_def StringToBigInt_def trimString_def parseDigits_def digitsValue_def
      isDigit_def digitValue_def isStrWhiteSpaceChar_def str_def)

lemma BigInt_abc: "BigInt (str ''abc'') = Inl SyntaxError"
  by (simp add: BigInt_def StringToBigInt_def trimString_def parseDigits_def digitsValue_def
      isDigit_def digitValue_def isStrWhiteSpaceChar_def str_def)

lemma estimateBridgeGas_fst:
  "isInitialized this \<Longrightarrow>
   fst (estimateBridgeGas w this d t a f e) = fst (buildBridgeCalldata w d t a f e)"
  by (cases "buildBridgeCalldata w d t a f e")
     (simp add: estimateBridgeGas_def split: sum.splits)

lemma buildBridgeCalldata_prefix:
  assumes "fst (buildBridgeCalldata w d t a f e) = Inr cd"
  shows "take 2 cd = str ''0x''"
proof -
  from buildBridgeCalldata_Inr[OF assms] obtain rest where
    "cd = str ''0x7ae4a8ff'' @ rest" by blast
  then show ?thesis by (simp add: bridge_selector)
qed

subsection \<open>Zero bytes and sample words\<close>

lemma hexByte_zero: "hexByte 0 = [0x30, 0x30]"
  by (simp add: hexByte_eq HexCharacters_list)

lemma hexOf_replicate_zero: "hexOf (replicate k 0) = replicate (2 * k) 0x30"
  by (induction k) (simp_all add: hexOf_Cons hexByte_zero)

lemma sample_address_hex:
  "isHexDataString (str ''0xD4949664cD82660AaE99bEdc034a0deA8A0bd517'')"
  by (simp add: isHexDataString_def isDigit_def digitValue_def str_def)

subsection \<open>The strings \<open>toUtf8Bytes\<close> accepts\<close>

lemma high_surrogate_large:
  assumes "c AND 0xfc00 = (0xd800 :: 16 word)"
  shows "\<not> c < 0x800 \<and> \<not> c < 0x80"
proof -
  have "c AND 0xfc00 \<le> c" by (rule word_and_le2)
  with assms have "0xd800 \<le> c" by simp
  then show ?thesis by (simp add: word_le_nat_alt word_less_nat_alt)
qed

lemma toUtf8Bytes_accepts:
  "surrogatesPaired s \<Longrightarrow> \<exists>bs. toUtf8Bytes s = Inr bs \<and> length bs \<le> 3 * length s"
proof (induction s rule: surrogatesPaired.induct)
  case 1
  show ?case by simp
next
  case (2 c cs)
  show ?case
  proof (cases "c AND 0xfc00 = 0xd800")
    case True
    with 2(3) obtain c2 cs' where cs: "cs = c2 # cs'" "c2 AND 0xfc00 = 0xdc00" "surrogatesPaired cs'"
      by (cases cs) auto
    from 2(1)[OF True cs(1)] cs obtain bs where "toUtf8Bytes cs' = Inr bs" "length bs \<le> 3 * length cs'"
      by auto
    with True cs high_surrogate_large[OF True] show ?thesis
      by (auto simp: Let_def)
  next
    case False
    with 2(3) have "surrogatesPaired cs" by simp
    from 2(2)[OF False this] obtain bs where "toUtf8Bytes cs = Inr bs" "length bs \<le> 3 * length cs"
      by auto
    with False show ?thesis by auto
  qed
qed

lemma toUtf8Bytes_rejects:
  "\<not> surrogatesPaired s \<Longrightarrow> toUtf8Bytes s = Inl (INVALID_ARGUMENT ''invalid surrogate pair'')"
proof (induction s rule: surrogatesPaired.induct)
  case 1
  then show ?case by simp
next
  case (2 c cs)
  show ?case
  proof (cases "c AND 0xfc00 = 0xd800")
    case True
    note hs = high_surrogate_large[OF True]
    show ?thesis
    proof (cases cs)
      case Nil
      with True hs show ?thesis by auto
    next
      case (Cons c2 cs')
      show ?thesis
      proof (cases "c2 AND 0xfc00 = 0xdc00")
        case low: True
        with 2(3) True Cons have "\<not> surrogatesPaired cs'" by simp
        from 2(1)[OF True Cons this] True hs Cons low show ?thesis
          by (auto simp: Let_def)
      next
        case False
        with True hs Cons show ?thesis by auto
      qed
    qed
  next
    case False
    with 2(3) have "\<not> surrogatesPaired cs" by simp
    from 2(2)[OF False this] False show ?thesis by auto
  qed
qed

lemma Math_ceil_div_less: "Math_ceil_div n 32 * 32 - n < 32"
proof (cases "n mod 32 = 0")
  case True
  then have "n div 32 * 32 = n" by presburger
  with True show ?thesis by (simp add: Math_ceil_div_def)
next
  case False
  then have "(n div 32 + 1) * 32 - n < 32" by presburger
  with False show ?thesis by (simp add: Math_ceil_div_def)
qed


subsection \<open>The layout of a create-proposal calldata\<close>

lemma length_paddedData:
  assumes "encodeString s = Inr es" "toUtf8Bytes s = Inr bs"
  shows "length (paddedData es) = 2 * (Math_ceil_div (length bs) 32 * 32)"
proof -
  from encodeString_Inr[OF assms(1)] assms(2) have
    "paddedData es = hexOf (bs @ replicate (Math_ceil_div (length bs) 32 * 32 - length bs) 0)"
    by auto
  then show ?thesis using Math_ceil_div_ge[of "length bs"] by simp
qed

lemma createProposal_layout:
  assumes "buildCreateProposalCalldata this title description messagesJson deposit = Inr cd"
  shows "\<exists>tb et ed.
           toUtf8Bytes title = Inr tb \<and> encodeString title = Inr et
           \<and> encodeString description = Inr ed
           \<and> BigInt (str ''0x'' @ take 64 (drop 10 cd)) = Inr 160
           \<and> BigInt (str ''0x'' @ take 64 (drop (10 + 64) cd))
               = Inr (int (160 + 32 + Math_ceil_div (length title) 32 * 32))
           \<and> BigInt (str ''0x'' @ take 64 (drop (10 + 2 * 64) cd))
               = Inr (int (160 + 32 + Math_ceil_div (length title) 32 * 32
                           + 32 + Math_ceil_div (length description) 32 * 32))
           \<and> take 64 (drop (10 + 2 * 160) cd) = lengthHex et
           \<and> take 64 (drop (10 + 2 * (160 + 32 + Math_ceil_div (length tb) 32 * 32)) cd)
               = lengthHex ed"
proof -
  from buildCreateProposalCalldata_Inr[OF assms] obtain w1 w2 w3 wd wp et ed em where
    p: "encodeUint (JNumber 160) = Inr w1"
       "encodeUint (JNumber (int (160 + 32 + Math_ceil_div (length title) 32 * 32))) = Inr w2"
       "encodeUint (JNumber (int (160 + 32 + Math_ceil_div (length title) 32 * 32
                                  + 32 + Math_ceil_div (length description) 32 * 32))) = Inr w3"
       "encodeUint deposit = Inr wd"
       "encodeAddress (str ''0x0000000000000000000000000000000000000000'') = Inr wp"
       "encodeString title = Inr et" "encodeString description = Inr ed"
       "encodeString messagesJson = Inr em"
       "cd = str ''0x'' @ str ''cb0dddfe'' @ w1 @ w2 @ w3 @ wd @ wp
                @ lengthHex et @ paddedData et @ lengthHex ed @ paddedData ed
                @ lengthHex em @ paddedData em"
    by blast
  from encodeString_Inr[OF p(6)] obtain tb where tb: "toUtf8Bytes title = Inr tb" by blast
  have l: "length w1 = 64" "length w2 = 64" "length w3 = 64" "length wd = 64" "length wp = 64"
    "length (lengthHex et) = 64" "length (lengthHex ed) = 64"
    "length (paddedData et) = 2 * (Math_ceil_div (length tb) 32 * 32)"
    using p tb
    by (simp_all add: encodeUint_length encodeAddress_length encodeString_lengthHex
        length_paddedData)
  have 1: "take 64 (drop 10 cd) = w1" using l by (simp add: p(9))
  have 2: "take 64 (drop (10 + 64) cd) = w2" using l by (simp add: p(9))
  have 3: "take 64 (drop (10 + 2 * 64) cd) = w3" using l by (simp add: p(9))
  have 4: "take 64 (drop (10 + 2 * 160) cd) = lengthHex et" using l by (simp add: p(9))
  have 5: "take 64 (drop (10 + 2 * (160 + 32 + Math_ceil_div (length tb) 32 * 32)) cd) = lengthHex ed"
    using l by (simp add: p(9))
  from encodeUint_number_value[OF p(1)] encodeUint_number_value[OF p(2)]
    encodeUint_number_value[OF p(3)] 1 2 3 4 5 tb p(6,7)
  show ?thesis by (intro exI[of _ tb] exI[of _ et] exI[of _ ed]) (simp only: simp_thms)
qed

lemma buildCreateProposalCalldata_ok:
  assumes "\<exists>et. encodeString title = Inr et" "\<exists>ed. encodeString description = Inr ed"
    "\<exists>em. encodeString messagesJson = Inr em" "\<exists>wd. encodeUint deposit = Inr wd"
    "int (length title) \<le> 2 ^ 51" "int (length description) \<le> 2 ^ 51"
  shows "\<exists>cd. buildCreateProposalCalldata this title description messagesJson deposit = Inr cd"
proof -
  have c: "Math_ceil_div n 32 * 32 \<le> n + 32" for n
    using Math_ceil_div_less[of n] Math_ceil_div_ge[of n] by linarith
  have t: "int (Math_ceil_div (length title) 32 * 32) \<le> 2 ^ 51 + 32"
    using c[of "length title"] assms(5) by linarith
  have d: "int (Math_ceil_div (length description) 32 * 32) \<le> 2 ^ 51 + 32"
    using c[of "length description"] assms(6) by linarith
  obtain w1 where 1: "encodeUint (JNumber 160) = Inr w1"
    using encodeUint_number_ok[of 160] by (auto simp: maxValue_def)
  obtain w2 where 2: "encodeUint (JNumber (int (160 + 32 + Math_ceil_div (length title) 32 * 32))) = Inr w2"
    using encodeUint_number_ok[of "int (160 + 32 + Math_ceil_div (length title) 32 * 32)"] t
    by (auto simp: maxValue_def)
  obtain w3 where 3: "encodeUint (JNumber (int (160 + 32 + Math_ceil_div (length title) 32 * 32
                                  + 32 + Math_ceil_div (length description) 32 * 32))) = Inr w3"
    using encodeUint_number_ok[of "int (160 + 32 + Math_ceil_div (length title) 32 * 32
                                  + 32 + Math_ceil_div (length description) 32 * 32)"] t d
    by (auto simp: maxValue_def)
  have z: "\<exists>w. encodeAddress (str ''0x0000000000000000000000000000000000000000'') = Inr w"
  proof -
    have "isHexDataString (str ''0x0000000000000000000000000000000000000000'')"
      by (simp add: isHexDataString_def isDigit_def digitValue_def str_def)
    then show ?thesis by (simp add: encodeAddress_eq)
  qed
  from z assms(1-4) obtain wp et ed em wd where
    "encodeAddress (str ''0x0000000000000000000000000000000000000000'') = Inr wp"
    "encodeString title = Inr et" "encodeString description = Inr ed"
    "encodeString messagesJson = Inr em" "encodeUint deposit = Inr wd"
    by blast
  with 1 2 3 show ?thesis
    unfolding buildCreateProposalCalldata_def Let_def GovernanceService_encodeAddress_eq
      GovernanceService_encodeUint_eq GovernanceService_encodeString_eq encodeMessagesArray_eq
    by simp
qed

subsection \<open>The builders return on well-formed arguments\<close>

lemma encodeString_returns:
  assumes "surrogatesPaired s" "length s < 2 ^ 51"
  shows "\<exists>es. encodeString s = Inr es"
proof -
  from toUtf8Bytes_accepts[OF assms(1)] obtain bs where
    bs: "toUtf8Bytes s = Inr bs" "length bs \<le> 3 * length s"
    by blast
  have "3 * length s < 3 * 2 ^ 51" using assms(2) by simp
  with bs(2) have "length bs < 3 * 2 ^ 51" by linarith
  then have "int (length bs) < 3 * 2 ^ 51"
    by (metis of_nat_less_iff of_nat_numeral of_nat_power of_nat_mult)
  then have "int (length bs) \<le> maxValue" by (simp add: maxValue_def)
  from encodeString_ok[OF bs(1) this] show ?thesis by blast
qed

lemma encodeAddress_returns:
  assumes "isHexDataString a" "length a \<le> 66"
  shows "\<exists>w. encodeAddress a = Inr w"
proof -
  have "\<not> 32 < (length a - 2) div 2" using assms(2) by linarith
  with assms(1) show ?thesis by (simp add: encodeAddress_eq)
qed

lemma encodeUint_returns:
  assumes "getBigInt x = Inr v" "0 \<le> v" "v < 2 ^ 256"
  shows "\<exists>w. encodeUint x = Inr w"
  using encodeUint_in_range[OF assms] by blast

lemma buildBridgeCalldata_returns:
  assumes "0 \<le> destChainId" "destChainId \<le> maxValue"
    and "isHexDataString tokenAddress" "length tokenAddress \<le> 66"
    and "getBigInt (JString amountWei) = Inr va" "0 \<le> va" "va < 2 ^ 256"
    and "getBigInt (JString feeOrGas) = Inr vf" "0 \<le> vf" "vf < 2 ^ 256"
    and "surrogatesPaired extraString" "length extraString < 2 ^ 51"
  shows "\<exists>cd. fst (buildBridgeCalldata w destChainId tokenAddress amountWei feeOrGas extraString) = Inr cd"
proof -
  obtain wo where o: "encodeUint (JNumber 160) = Inr wo"
    using encodeUint_number_ok[of 160] by (auto simp: maxValue_def)
  from encodeUint_number_ok[OF assms(1,2)] encodeAddress_returns[OF assms(3,4)]
    encodeUint_returns[OF assms(5,6,7)] encodeUint_returns[OF assms(8,9,10)]
    encodeString_returns[OF assms(11,12)]
  obtain wd wt wa wfee es where
    "encodeUint (JNumber destChainId) = Inr wd" "encodeAddress tokenAddress = Inr wt"
    "encodeUint (JString amountWei) = Inr wa" "encodeUint (JString feeOrGas) = Inr wfee"
    "encodeString extraString = Inr es"
    by blast
  from buildBridgeCalldata_ok[OF this(1) o this(2-5)] show ?thesis by blast
qed

lemma buildDelegationCalldata_returns:
  assumes "isHexDataString delegator" "length delegator \<le> 66"
    and "isHexDataString validator" "length validator \<le> 66"
    and "getBigInt amount = Inr v" "0 \<le> v" "v < 2 ^ 256"
    and "surrogatesPaired (case denom of None \<Rightarrow> str ''ahelios'' | Some d \<Rightarrow> d)"
    and "length (case denom of None \<Rightarrow> str ''ahelios'' | Some d \<Rightarrow> d) < 2 ^ 51"
  shows "\<exists>cd. buildDelegationCalldata this delegator validator amount denom = Inr cd"
proof -
  obtain wo where o: "encodeUint (JNumber 128) = Inr wo"
    using encodeUint_number_ok[of 128] by (auto simp: maxValue_def)
  from encodeAddress_returns[OF assms(1,2)] encodeAddress_returns[OF assms(3,4)]
    encodeUint_returns[OF assms(5,6,7)] encodeString_returns[OF assms(8,9)]
  obtain wd wv wa es where
    "encodeAddress delegator = Inr wd" "encodeAddress validator = Inr wv"
    "encodeUint amount = Inr wa"
    "encodeString (case denom of None \<Rightarrow> str ''ahelios'' | Some d \<Rightarrow> d) = Inr es"
    by blast
  with o show ?thesis by (simp add: buildDelegationCalldata_def)
qed

lemma buildVoteCalldata_returns:
  assumes "isHexDataString voter" "length voter \<le> 66"
    and "getBigInt proposalId = Inr v" "0 \<le> v" "v < 2 ^ 256"
    and "surrogatesPaired reason" "length reason < 2 ^ 51"
  shows "\<exists>cd. buildVoteCalldata this voter proposalId support reason = Inr cd"
proof -
  obtain wo where o: "encodeUint (JNumber 128) = Inr wo"
    using encodeUint_number_ok[of 128] by (auto simp: maxValue_def)
  obtain ws where s: "encodeBool support = Inr ws"
    using encodeUint_number_ok[of 1] encodeUint_number_ok[of 0]
    by (cases support) (auto simp: maxValue_def encodeBool_def)
  from encodeAddress_returns[OF assms(1,2)] encodeUint_returns[OF assms(3,4,5)]
    encodeString_returns[OF assms(6,7)]
  obtain wv wp es where
    "encodeAddress voter = Inr wv" "encodeUint proposalId = Inr wp" "encodeString reason = Inr es"
    by blast
  with o s show ?thesis
    by (simp add: buildVoteCalldata_def GovernanceService_encodeAddress_eq
        GovernanceService_encodeUint_eq GovernanceService_encodeBool_eq
        GovernanceService_encodeString_eq)
qed

subsection \<open>The default denomination\<close>

lemma encodeUint_seven: "encodeUint (JNumber 7) = Inr (replicate 62 0x30 @ str ''07'')"
proof -
  have n: "natToString 16 7 = [0x37]"
    by (simp add: natToString.simps digitChar_def str_def)
  have h: "str ''0'' @ [0x37] = hexOf [7]"
    by (simp add: hexOf_def hexByte_eq HexCharacters_list str_0)
  have t: "toBeHex (JNumber 7) = Inr (str ''0x'' @ hexOf [7])"
    by (simp add: toBeHex_def getUint_def maxValue_def n h)
  have g: "getBytes (HexString (str ''0x'' @ hexOf [7])) = Inr [7]"
    by (rule getBytes_hexOf)
  have "zeroPadValue (HexString (str ''0x'' @ hexOf [7])) 32
          = Inr (str ''0x'' @ hexOf (replicate 31 0 @ [7]))"
    using zeroPad_Inr[OF g, of 32 True] by (simp add: zeroPadValue_def)
  then have "encodeUint (JNumber 7) = Inr (hexOf (replicate 31 0 @ [7]))"
    by (simp add: encodeUint_def t del: getBytes.simps)
  then show ?thesis
    by (simp add: hexOf_append hexOf_replicate_zero)
       (simp add: hexOf_def hexByte_eq HexCharacters_list str_def)
qed

lemma encodeString_ahelios:
  "encodeString (str ''ahelios'')
     = Inr \<lparr>lengthHex = replicate 62 0x30 @ str ''07'',
            paddedData = str ''6168656c696f73'' @ replicate 50 0x30\<rparr>"
proof -
  have u: "toUtf8Bytes (str ''ahelios'') = Inr [0x61, 0x68, 0x65, 0x6c, 0x69, 0x6f, 0x73]"
    by (simp add: str_def)
  have p: "hexOf ([0x61, 0x68, 0x65, 0x6c, 0x69, 0x6f, 0x73] @ replicate 25 0)
             = str ''6168656c696f73'' @ replicate 50 0x30"
    by (simp only: hexOf_append hexOf_replicate_zero)
       (simp add: hexOf_def hexByte_eq HexCharacters_list str_def)
  from encodeString_ok[OF u] encodeUint_seven p show ?thesis
    by (simp add: maxValue_def Math_ceil_div_def)
qed

lemma encodeUint_bytes:
  assumes "getBigInt x = Inr v" "0 \<le> v"
    and "(if odd (length (natToString 16 (nat v))) then str ''0'' @ natToString 16 (nat v)
          else natToString 16 (nat v)) = hexOf bs"
    and "length bs \<le> 32"
  shows "encodeUint x = Inr (hexOf (replicate (32 - length bs) 0 @ bs))"
proof -
  have t: "toBeHex x = Inr (str ''0x'' @ hexOf bs)"
    using assms(1,2) by (simp add: toBeHex_def getUint_def Let_def assms(3) del: getBigInt.simps)
  have g: "getBytes (HexString (str ''0x'' @ hexOf bs)) = Inr bs"
    by (rule getBytes_hexOf)
  have "zeroPadValue (HexString (str ''0x'' @ hexOf bs)) 32
          = Inr (str ''0x'' @ hexOf (replicate (32 - length bs) 0 @ bs))"
    using zeroPad_Inr[OF g assms(4), of True] by (simp add: zeroPadValue_def)
  then show ?thesis
    by (simp add: encodeUint_def t del: getBytes.simps)
qed

lemma natToString_16_1e18:
  "natToString 16 1000000000000000000 = str ''de0b6b3a7640000''"
  by (simp add: natToString.simps digitChar_def str_def)

lemma getBigInt_1e18: "getBigInt (JString (str ''1000000000000000000'')) = Inr (10 ^ 18)"
  using getBigInt_decimal[of "str ''1000000000000000000''"]
  by (simp add: isDigit_def digitValue_def digitsValue_def str_def del: getBigInt.simps)

lemma encodeUint_1e18:
  "encodeUint (JString (str ''1000000000000000000''))
     = Inr (replicate 48 0x30 @ str ''0de0b6b3a7640000'')"
proof -
  have h: "(if odd (length (natToString 16 (nat (10 ^ 18))))
            then str ''0'' @ natToString 16 (nat (10 ^ 18))
            else natToString 16 (nat (10 ^ 18)))
           = hexOf [0x0d, 0xe0, 0xb6, 0xb3, 0xa7, 0x64, 0x00, 0x00]"
    by (simp add: natToString_16_1e18)
       (simp add: hexOf_def hexByte_eq HexCharacters_list str_def)
  from encodeUint_bytes[OF getBigInt_1e18 _ h]
  have "encodeUint (JString (str ''1000000000000000000''))
     = Inr (hexOf (replicate 24 0 @ [0x0d, 0xe0, 0xb6, 0xb3, 0xa7, 0x64, 0x00, 0x00]))"
    by simp
  then show ?thesis
    by (simp only: hexOf_append hexOf_replicate_zero)
       (simp add: hexOf_def hexByte_eq HexCharacters_list str_def)
qed

lemma encodeAddress_sample:
  "encodeAddress (str ''0xd4949664cd82660aae99bedc034a0dea8a0bd517'')
     = Inr (replicate 24 0x30 @ str ''d4949664cd82660aae99bedc034a0dea8a0bd517'')"
proof -
  have h: "isHexDataString (str ''0xd4949664cd82660aae99bedc034a0dea8a0bd517'')"
    by (simp add: isHexDataString_def isDigit_def digitValue_def str_def)
  show ?thesis
    unfolding encodeAddress_eq using h
    by (simp add: hexOf_append hexOf_replicate_zero)
       (simp add: hexOf_def hexByte_eq HexCharacters_list str_def digitsValue_def digitValue_def)
qed

subsection \<open>The exceptions of the encoders and of the bridge builder\<close>

lemma bind_eq_Inl: "bind m f = Inl e \<longleftrightarrow> m = Inl e \<or> (\<exists>x. m = Inr x \<and> f x = Inl e)"
  by (cases m) simp_all

lemma getBigInt_error:
  "getBigInt x = Inl e \<Longrightarrow> e \<noteq> SyntaxError \<and> (\<forall>m. e \<noteq> Error m)"
  by (cases x) (auto split: if_splits sum.splits)

lemma encodeUint_error:
  assumes "encodeUint x = Inl e"
  shows "e \<noteq> SyntaxError \<and> (\<forall>m. e \<noteq> Error m)"
proof (cases "getBigInt x")
  case (Inl e')
  with assms encodeUint_invalid[OF Inl] getBigInt_error[OF Inl] show ?thesis by simp
next
  case (Inr v)
  consider "v < 0" | "0 \<le> v" "v < 2 ^ 256" | "2 ^ 256 \<le> v" by linarith
  then show ?thesis
  proof cases
    case 1
    with assms encodeUint_negative[OF Inr] show ?thesis by auto
  next
    case 2
    with assms encodeUint_in_range[OF Inr] show ?thesis by auto
  next
    case 3
    with assms encodeUint_too_large[OF Inr] show ?thesis by auto
  qed
qed

lemma encodeAddress_error:
  "encodeAddress a = Inl e \<Longrightarrow> e \<noteq> SyntaxError \<and> (\<forall>m. e \<noteq> Error m)"
  by (auto simp: encodeAddress_eq split: if_splits)

lemma getBytes_error:
  "getBytes d = Inl e \<Longrightarrow> e \<noteq> SyntaxError \<and> (\<forall>m. e \<noteq> Error m)"
  by (cases d) (auto split: if_splits)

lemma hexlify_error:
  "hexlify d = Inl e \<Longrightarrow> e \<noteq> SyntaxError \<and> (\<forall>m. e \<noteq> Error m)"
  unfolding hexlify_def bind_eq_Inl using getBytes_error by blast

lemma zeroPad_error:
  "zeroPad d n l = Inl e \<Longrightarrow> e \<noteq> SyntaxError \<and> (\<forall>m. e \<noteq> Error m)"
  unfolding zeroPad_def bind_eq_Inl
  using getBytes_error hexlify_error by (auto split: if_splits simp del: getBytes.simps)

lemma toUtf8Bytes_error:
  assumes "toUtf8Bytes s = Inl e"
  shows "e \<noteq> SyntaxError \<and> (\<forall>m. e \<noteq> Error m)"
proof (cases "surrogatesPaired s")
  case True
  with assms toUtf8Bytes_accepts[OF True] show ?thesis by auto
next
  case False
  with assms toUtf8Bytes_rejects[OF False] show ?thesis by auto
qed

lemma encodeString_error:
  assumes "encodeString s = Inl e"
  shows "e \<noteq> SyntaxError \<and> (\<forall>m. e \<noteq> Error m)"
  using assms unfolding encodeString_def zeroPadBytes_def bind_eq_Inl
  using toUtf8Bytes_error zeroPad_error encodeUint_error hexlify_error
  by (elim disjE exE conjE) (blast, blast, blast, blast, simp)

lemma buildBridgeCalldata_Inl:
  assumes "fst (buildBridgeCalldata w d t a f e) = Inl err"
  shows "encodeUint (JNumber d) = Inl err \<or> encodeUint (JNumber 160) = Inl err
         \<or> encodeAddress t = Inl err \<or> encodeUint (JString a) = Inl err
         \<or> encodeUint (JString f) = Inl err \<or> encodeString e = Inl err"
  using assms unfolding buildBridgeCalldata_def Let_def
  by (auto simp: bind_eq_Inl split: sum.splits)

lemma buildBridgeCalldata_error:
  assumes "fst (buildBridgeCalldata w d t a f e) = Inl err"
  shows "err \<noteq> SyntaxError \<and> (\<forall>m. err \<noteq> Error m)"
  using buildBridgeCalldata_Inl[OF assms] encodeUint_error encodeAddress_error encodeString_error
  by blast

lemma buildBridgeCalldata_returns_iff:
  "(\<exists>cd. fst (buildBridgeCalldata w d t a f e) = Inr cd)
     \<longleftrightarrow> (\<exists>wd. encodeUint (JNumber d) = Inr wd) \<and> (\<exists>wt. encodeAddress t = Inr wt)
          \<and> (\<exists>wa. encodeUint (JString a) = Inr wa) \<and> (\<exists>wfee. encodeUint (JString f) = Inr wfee)
          \<and> (\<exists>es. encodeString e = Inr es)"
proof
  assume "\<exists>cd. fst (buildBridgeCalldata w d t a f e) = Inr cd"
  then obtain cd where "fst (buildBridgeCalldata w d t a f e) = Inr cd" ..
  from buildBridgeCalldata_Inr[OF this] show
    "(\<exists>wd. encodeUint (JNumber d) = Inr wd) \<and> (\<exists>wt. encodeAddress t = Inr wt)
          \<and> (\<exists>wa. encodeUint (JString a) = Inr wa) \<and> (\<exists>wfee. encodeUint (JString f) = Inr wfee)
          \<and> (\<exists>es. encodeString e = Inr es)"
    by blast
next
  assume "(\<exists>wd. encodeUint (JNumber d) = Inr wd) \<and> (\<exists>wt. encodeAddress t = Inr wt)
          \<and> (\<exists>wa. encodeUint (JString a) = Inr wa) \<and> (\<exists>wfee. encodeUint (JString f) = Inr wfee)
          \<and> (\<exists>es. encodeString e = Inr es)"
  then obtain wd wt wa wfee es where
    p: "encodeUint (JNumber d) = Inr wd" "encodeAddress t = Inr wt"
       "encodeUint (JString a) = Inr wa" "encodeUint (JString f) = Inr wfee"
       "encodeString e = Inr es"
    by blast
  obtain wo where o: "encodeUint (JNumber 160) = Inr wo"
    using encodeUint_number_ok[of 160] by (auto simp: maxValue_def)
  from buildBridgeCalldata_ok[OF p(1) o p(2) p(3) p(4) p(5), of w]
  show "\<exists>cd. fst (buildBridgeCalldata w d t a f e) = Inr cd" by blast
qed

subsection \<open>Validation and the bridge service\<close>

lemma validateBridgeParams_rejects_amount:
  assumes "BigInt amountWei = Inr v" "v \<le> 0"
  shows "\<exists>e. validateBridgeParams isValidAddress destChainId tokenAddress amountWei feeOrGas
                extraString = Inl e"
  using assms unfolding validateBridgeParams_def Let_def
  by (cases "BigInt feeOrGas") auto

lemma validateBridgeParams_rejects_extra:
  assumes "\<not> startsWith extraString (str ''0x'')"
  shows "\<exists>e. validateBridgeParams isValidAddress destChainId tokenAddress amountWei feeOrGas
                extraString = Inl e"
  using assms unfolding validateBridgeParams_def Let_def
  by (cases "BigInt feeOrGas"; cases "BigInt amountWei") auto

lemma bind_Inr_elim: "bind m f = Inr y \<Longrightarrow> (\<And>x. f x = Inr y \<Longrightarrow> P) \<Longrightarrow> P"
  by (cases m) simp_all

lemma if_Inl_Inr: "(if c then Inl a else Inr True) = Inr ok \<Longrightarrow> ok"
  by (cases c) simp_all

lemma validateBridgeParams_Inr:
  "validateBridgeParams isValidAddress destChainId tokenAddress amountWei feeOrGas extraString
     = Inr ok \<Longrightarrow> ok"
  unfolding validateBridgeParams_def Let_def
  by (elim bind_Inr_elim) (rule if_Inl_Inr)

lemma bridgeTokens_validation_error:
  assumes "isInitialized this" "wallet this \<noteq> None"
    "validateBridgeParams isValidAddress destChainId tokenAddress amountWei feeOrGas extraString = Inl e"
  shows "bridgeTokens isValidAddress numberText w this destChainId tokenAddress amountWei feeOrGas
           extraString
         = (Inl e, Helpers_log w (str ''Bridge transaction failed'') (LogError e))"
  using assms by (auto simp: bridgeTokens_def)

lemma bridgeTokens_Inr:
  assumes "fst (bridgeTokens isValidAddress numberText w this destChainId tokenAddress amountWei
                  feeOrGas extraString) = Inr cd"
  shows "validateBridgeParams isValidAddress destChainId tokenAddress amountWei feeOrGas
           extraString = Inr True
         \<and> fst (buildBridgeCalldata w destChainId tokenAddress amountWei feeOrGas extraString)
             = Inr cd"
proof (cases "validateBridgeParams isValidAddress destChainId tokenAddress amountWei feeOrGas
           extraString")
  case (Inl e)
  with assms show ?thesis
    by (auto simp: bridgeTokens_def split: if_splits)
next
  case (Inr ok)
  from validateBridgeParams_Inr[OF Inr] Inr have v: "validateBridgeParams isValidAddress
    destChainId tokenAddress amountWei feeOrGas extraString = Inr True"
    by simp
  from assms show ?thesis
    unfolding v
    by (cases "buildBridgeCalldata w destChainId tokenAddress amountWei feeOrGas extraString")
       (auto simp: bridgeTokens_def v split: if_splits sum.splits)
qed

lemma encodeUint_minus_one:
  "encodeUint (JString (str ''-1'')) = Inl (NUMERIC_FAULT ''unsigned value cannot be negative'')"
proof -
  have "BigInt (str ''1'') = Inr 1"
    using BigInt_decimal[of "str ''1''"]
    by (simp add: isDigit_def digitValue_def digitsValue_def str_def)
  then have "BigInt (tl (str ''-1'')) = Inr 1" by (simp add: str_def)
  then have "getBigInt (JString (str ''-1'')) = Inr (- 1)"
    by (simp add: str_def)
  then show ?thesis by (rule encodeUint_negative) simp
qed

section \<open>The claims\<close>

text \<open>
  Claim C1 at two inputs. For the title \<open>A\<close> and the description \<open>BB\<close> the offsets in the
  head are 224 and 288, as claimed. For a title of the repository's own generator, 28 code
  units that are 33 UTF-8 bytes, the head says that the description is at byte 224, which
  is \<open>160 + 32 + 32\<close> from the 28 code units, while the 33 bytes take two words and the
  description's length word is at byte 256.
\<close>

theorem createProposal_offsets_from_code_units:
  "(\<exists>cd. buildCreateProposalCalldata this (str ''A'') (str ''BB'') (str ''[]'')
            (JString (str ''1000000000000000'')) = Inr cd
         \<and> BigInt (str ''0x'' @ take 64 (drop 10 cd)) = Inr 160
         \<and> BigInt (str ''0x'' @ take 64 (drop (10 + 64) cd)) = Inr 224
         \<and> BigInt (str ''0x'' @ take 64 (drop (10 + 2 * 64) cd)) = Inr 288)
   \<and> (\<exists>cd bs ed.
         buildCreateProposalCalldata this
            ([0xF0, 0x178, 0x161, 0x20AC] @ str '' Optimize Parameter #123'') (str ''BB'')
            (str ''[]'') (JString (str ''1000000000000000'')) = Inr cd
         \<and> length ([0xF0, 0x178, 0x161, 0x20AC] @ str '' Optimize Parameter #123'') = 28
         \<and> toUtf8Bytes ([0xF0, 0x178, 0x161, 0x20AC] @ str '' Optimize Parameter #123'') = Inr bs
         \<and> length bs = 33
         \<and> BigInt (str ''0x'' @ take 64 (drop (10 + 64) cd)) = Inr 224
         \<and> 160 + 32 + Math_ceil_div (length bs) 32 * 32 = 256
         \<and> encodeString (str ''BB'') = Inr ed
         \<and> take 64 (drop (10 + 2 * 256) cd) = lengthHex ed)"
proof
  from sample_proposal obtain cd where
    cd: "buildCreateProposalCalldata this (str ''A'') (str ''BB'') (str ''[]'')
            (JString (str ''1000000000000000'')) = Inr cd"
    by blast
  from createProposal_layout[OF cd] cd
  show "\<exists>cd. buildCreateProposalCalldata this (str ''A'') (str ''BB'') (str ''[]'')
            (JString (str ''1000000000000000'')) = Inr cd
         \<and> BigInt (str ''0x'' @ take 64 (drop 10 cd)) = Inr 160
         \<and> BigInt (str ''0x'' @ take 64 (drop (10 + 64) cd)) = Inr 224
         \<and> BigInt (str ''0x'' @ take 64 (drop (10 + 2 * 64) cd)) = Inr 288"
    by (auto simp: Math_ceil_div_def)
next
  let ?title = "[0xF0, 0x178, 0x161, 0x20AC] @ str '' Optimize Parameter #123''"
  have "map_sum id length (toUtf8Bytes ?title) = Inr 33"
    by (simp add: str_def)
  then obtain bs where bs: "toUtf8Bytes ?title = Inr bs" "length bs = 33"
    by (cases "toUtf8Bytes ?title") auto
  have t: "\<exists>et. encodeString ?title = Inr et"
    using encodeString_ok[OF bs(1)] bs(2) by (auto simp: maxValue_def)
  have d: "\<exists>es. encodeString (str ''BB'') = Inr es"
    by (rule encodeString_ascii_ok) (simp_all add: str_def maxValue_def)
  have m: "\<exists>es. encodeString (str ''[]'') = Inr es"
    by (rule encodeString_ascii_ok) (simp_all add: str_def maxValue_def)
  from buildCreateProposalCalldata_ok[OF t d m sample_amount, of this] obtain cd where
    cd: "buildCreateProposalCalldata this ?title (str ''BB'') (str ''[]'')
            (JString (str ''1000000000000000'')) = Inr cd"
    by auto
  from createProposal_layout[OF cd] bs obtain ed where
    "encodeString (str ''BB'') = Inr ed"
    "BigInt (str ''0x'' @ take 64 (drop (10 + 64) cd))
       = Inr (int (160 + 32 + Math_ceil_div (length ?title) 32 * 32))"
    "take 64 (drop (10 + 2 * (160 + 32 + Math_ceil_div (length bs) 32 * 32)) cd) = lengthHex ed"
    by auto
  with bs cd show "\<exists>cd bs ed.
         buildCreateProposalCalldata this ?title (str ''BB'')
            (str ''[]'') (JString (str ''1000000000000000'')) = Inr cd
         \<and> length ?title = 28
         \<and> toUtf8Bytes ?title = Inr bs
         \<and> length bs = 33
         \<and> BigInt (str ''0x'' @ take 64 (drop (10 + 64) cd)) = Inr 224
         \<and> 160 + 32 + Math_ceil_div (length bs) 32 * 32 = 256
         \<and> encodeString (str ''BB'') = Inr ed
         \<and> take 64 (drop (10 + 2 * 256) cd) = lengthHex ed"
    by (intro exI[of _ cd] exI[of _ bs] exI[of _ ed]) (simp add: Math_ceil_div_def)
qed

text \<open>
  Claim C2, as the code has it. \<open>encodeAddress\<close> accepts every \<open>0x\<close> string with an even
  number of hexadecimal digits for at most 32 bytes and returns 64 characters: the bytes
  of the argument, right-aligned after zero bytes. For a 20-byte address the word is 24
  zero characters (12 zero bytes) and then the address. A string that is not such
  hexadecimal data is rejected with \<open>INVALID_ARGUMENT\<close>, one with more than 32 bytes with
  \<open>BUFFER_OVERRUN\<close>.
\<close>

theorem encodeAddress_pads_hex_data:
  "(case encodeAddress addr of
      Inr w \<Rightarrow> isHexDataString addr \<and> length addr \<le> 66 \<and> length w = 64
               \<and> getBytes (HexString (str ''0x'' @ w))
                   = Inr (replicate (32 - (length addr - 2) div 2) 0 @ parseHexPairs (drop 2 addr))
    | Inl e \<Rightarrow> if isHexDataString addr
               then 66 < length addr \<and> e = BUFFER_OVERRUN ''padding exceeds data length''
               else e = INVALID_ARGUMENT ''invalid BytesLike value'')
   \<and> (isHexDataString addr \<and> length addr = 42 \<longrightarrow>
        (\<exists>w bs. encodeAddress addr = Inr w \<and> length w = 64 \<and> take 24 w = replicate 24 0x30
               \<and> getBytes (HexString addr) = Inr bs \<and> length bs = 20
               \<and> getBytes (HexString (str ''0x'' @ drop 24 w)) = Inr bs))"
proof (intro conjI impI)
  show "case encodeAddress addr of
      Inr w \<Rightarrow> isHexDataString addr \<and> length addr \<le> 66 \<and> length w = 64
               \<and> getBytes (HexString (str ''0x'' @ w))
                   = Inr (replicate (32 - (length addr - 2) div 2) 0 @ parseHexPairs (drop 2 addr))
    | Inl e \<Rightarrow> if isHexDataString addr
               then 66 < length addr \<and> e = BUFFER_OVERRUN ''padding exceeds data length''
               else e = INVALID_ARGUMENT ''invalid BytesLike value''"
  proof (cases "isHexDataString addr")
    case False
    then show ?thesis by (simp add: encodeAddress_eq)
  next
    case True
    then have ev: "even (length addr)" "2 \<le> length addr"
      by (auto simp: isHexDataString_def)
    show ?thesis
    proof (cases "32 < (length addr - 2) div 2")
      case big: True
      then have "66 < length addr" by linarith
      with True big show ?thesis by (simp add: encodeAddress_eq)
    next
      case small: False
      with ev have "length addr \<le> 66" by (auto elim!: evenE)
      with True small show ?thesis
        by (simp add: encodeAddress_eq length_parseHexPairs del: getBytes.simps)
    qed
  qed
next
  assume a: "isHexDataString addr \<and> length addr = 42"
  let ?bs = "parseHexPairs (drop 2 addr)"
  have l: "length ?bs = 20" using a by (simp add: length_parseHexPairs)
  have e: "encodeAddress addr = Inr (replicate 24 0x30 @ hexOf ?bs)"
    using a by (simp add: encodeAddress_eq hexOf_append hexOf_replicate_zero)
  have g: "getBytes (HexString addr) = Inr ?bs" using a by simp
  have "getBytes (HexString (str ''0x'' @ drop 24 (replicate 24 0x30 @ hexOf ?bs))) = Inr ?bs"
    by (simp del: getBytes.simps)
  with a l e g show "\<exists>w bs. encodeAddress addr = Inr w \<and> length w = 64 \<and> take 24 w = replicate 24 0x30
               \<and> getBytes (HexString addr) = Inr bs \<and> length bs = 20
               \<and> getBytes (HexString (str ''0x'' @ drop 24 w)) = Inr bs"
    by (simp del: getBytes.simps)
qed

theorem encodeAddress_pads_hex_data_witness:
  "isHexDataString (str ''0xD4949664cD82660AaE99bEdc034a0deA8A0bd517'')
   \<and> length (str ''0xD4949664cD82660AaE99bEdc034a0deA8A0bd517'') = 42
   \<and> (\<exists>w bs. encodeAddress (str ''0xD4949664cD82660AaE99bEdc034a0deA8A0bd517'') = Inr w
          \<and> length w = 64 \<and> take 24 w = replicate 24 0x30
          \<and> getBytes (HexString (str ''0xD4949664cD82660AaE99bEdc034a0deA8A0bd517'')) = Inr bs
          \<and> length bs = 20
          \<and> getBytes (HexString (str ''0x'' @ drop 24 w)) = Inr bs)
   \<and> encodeAddress (str ''0xD4949664cD82660AaE99bEdc034a0deA8A0bd51'')
       = Inl (INVALID_ARGUMENT ''invalid BytesLike value'')"
proof -
  have odd: "\<not> isHexDataString (str ''0xD4949664cD82660AaE99bEdc034a0deA8A0bd51'')"
    by (simp add: isHexDataString_def str_def)
  from encodeAddress_pads_hex_data[of "str ''0xD4949664cD82660AaE99bEdc034a0deA8A0bd51''"] odd
  have 1: "encodeAddress (str ''0xD4949664cD82660AaE99bEdc034a0deA8A0bd51'')
       = Inl (INVALID_ARGUMENT ''invalid BytesLike value'')"
    by (cases "encodeAddress (str ''0xD4949664cD82660AaE99bEdc034a0deA8A0bd51'')") simp_all
  have 2: "length (str ''0xD4949664cD82660AaE99bEdc034a0deA8A0bd517'') = 42" by simp
  from encodeAddress_pads_hex_data[of "str ''0xD4949664cD82660AaE99bEdc034a0deA8A0bd517''"]
    sample_address_hex 2 1
  show ?thesis by blast
qed

text \<open>
  The claim as written fails on both counts: a 19-byte and a 21-byte hexadecimal string
  are padded to a word, not rejected, and in the word of a 20-byte address only the
  first 12 bytes are zero, the thirteenth being the first byte of the address.
\<close>

theorem encodeAddress_counterexample:
  "encodeAddress (str ''0xd4949664cd82660aae99bedc034a0dea8a0bd5'')
     = Inr (replicate 26 0x30 @ str ''d4949664cd82660aae99bedc034a0dea8a0bd5'')
   \<and> encodeAddress (str ''0xd4949664cd82660aae99bedc034a0dea8a0bd517ff'')
     = Inr (replicate 22 0x30 @ str ''d4949664cd82660aae99bedc034a0dea8a0bd517ff'')
   \<and> encodeAddress (str ''0xD4949664cD82660AaE99bEdc034a0deA8A0bd517'')
     = Inr (replicate 24 0x30 @ str ''d4949664cd82660aae99bedc034a0dea8a0bd517'')"
proof -
  have h: "isHexDataString (str ''0xd4949664cd82660aae99bedc034a0dea8a0bd5'')"
    "isHexDataString (str ''0xd4949664cd82660aae99bedc034a0dea8a0bd517ff'')"
    by (simp_all add: isHexDataString_def isDigit_def digitValue_def str_def)
  have 1: "encodeAddress (str ''0xd4949664cd82660aae99bedc034a0dea8a0bd5'')
     = Inr (replicate 26 0x30 @ str ''d4949664cd82660aae99bedc034a0dea8a0bd5'')"
    unfolding encodeAddress_eq using h(1)
    by (simp add: hexOf_append hexOf_replicate_zero)
       (simp add: str_def digitsValue_def digitValue_def hexOf_def hexByte_eq HexCharacters_list)
  have 2: "encodeAddress (str ''0xd4949664cd82660aae99bedc034a0dea8a0bd517ff'')
     = Inr (replicate 22 0x30 @ str ''d4949664cd82660aae99bedc034a0dea8a0bd517ff'')"
    unfolding encodeAddress_eq using h(2)
    by (simp add: hexOf_append hexOf_replicate_zero)
       (simp add: str_def digitsValue_def digitValue_def hexOf_def hexByte_eq HexCharacters_list)
  have 3: "encodeAddress (str ''0xD4949664cD82660AaE99bEdc034a0deA8A0bd517'')
     = Inr (replicate 24 0x30 @ str ''d4949664cd82660aae99bedc034a0dea8a0bd517'')"
    unfolding encodeAddress_eq using sample_address_hex
    by (simp add: hexOf_append hexOf_replicate_zero)
       (simp add: str_def digitsValue_def digitValue_def hexOf_def hexByte_eq HexCharacters_list)
  from 1 2 3 show ?thesis by simp
qed

text \<open>
  Claim C3, as the code has it. When \<open>amountWei\<close> and \<open>feeOrGas\<close> are empty or strings
  that \<open>BigInt\<close> converts, \<open>validateBridgeParams\<close> throws exactly when one of its checks
  fails: the chain id is zero or negative, the token address is not valid, \<open>amountWei\<close> is
  empty or not positive, \<open>feeOrGas\<close> is empty or negative (zero passes), \<open>extraString\<close>
  does not start with \<open>0x\<close>. The message of the error lists every failed check, in this
  order. In \<open>bridgeTokens\<close> a validation error ends the call: the builder is not reached.
\<close>

theorem validation_lists_failed_checks:
  assumes "amountWei = [] \<or> BigInt amountWei = Inr va"
    and "feeOrGas = [] \<or> BigInt feeOrGas = Inr vf"
  shows "validateBridgeParams isValidAddress destChainId tokenAddress amountWei feeOrGas extraString =
     (let errors =
            (if destChainId \<le> 0 then [str ''Invalid destination chain ID''] else [])
          @ (if isValidAddress tokenAddress then [] else [str ''Invalid token address''])
          @ (if amountWei = [] \<or> va \<le> 0 then [str ''Invalid amount''] else [])
          @ (if feeOrGas = [] \<or> vf < 0 then [str ''Invalid fee/gas amount''] else [])
          @ (if startsWith extraString (str ''0x'') then []
             else [str ''Invalid extra string (must be hex address)''])
      in if errors = [] then Inr True
         else Inl (Error (str ''Bridge validation failed: '' @ joinStrings (str '', '') errors)))
   \<and> (isInitialized this \<and> wallet this \<noteq> None
        \<and> validateBridgeParams isValidAddress destChainId tokenAddress amountWei feeOrGas
              extraString = Inl e
      \<longrightarrow> fst (bridgeTokens isValidAddress numberText w this destChainId tokenAddress amountWei feeOrGas
                 extraString) = Inl e)"
  using validateBridgeParams_eq[OF assms] bridgeTokens_validation_first
  by blast

theorem validation_lists_failed_checks_witness:
  "(str ''0'' = [] \<or> BigInt (str ''0'') = Inr 0)
   \<and> (str ''-1'' = [] \<or> BigInt (str ''-1'') = Inr (- 1))
   \<and> validateBridgeParams (\<lambda>a. False) 0 (str ''0x01'') (str ''0'') (str ''-1'') (str ''abc'')
       = Inl (Error (str (''Bridge validation failed: Invalid destination chain ID, ''
                          @ ''Invalid token address, Invalid amount, Invalid fee/gas amount, ''
                          @ ''Invalid extra string (must be hex address)'')))
   \<and> isInitialized (new_BridgeService\<lparr>isInitialized := True, wallet := Some (str ''0x01'')\<rparr>)
   \<and> wallet (new_BridgeService\<lparr>isInitialized := True, wallet := Some (str ''0x01'')\<rparr>) \<noteq> None
   \<and> fst (bridgeTokens (\<lambda>a. False) intToString \<lparr>now = 0, console = []\<rparr>
            (new_BridgeService\<lparr>isInitialized := True, wallet := Some (str ''0x01'')\<rparr>)
            0 (str ''0x01'') (str ''0'') (str ''-1'') (str ''abc''))
       = Inl (Error (str (''Bridge validation failed: Invalid destination chain ID, ''
                          @ ''Invalid token address, Invalid amount, Invalid fee/gas amount, ''
                          @ ''Invalid extra string (must be hex address)'')))"
proof -
  have a: "str ''0'' = [] \<or> BigInt (str ''0'') = Inr 0" by (simp add: BigInt_zero)
  have f: "str ''-1'' = [] \<or> BigInt (str ''-1'') = Inr (- 1)" by (simp add: BigInt_minus_one)
  note t = validation_lists_failed_checks[OF a f, where isValidAddress = "\<lambda>a. False"
      and destChainId = 0 and tokenAddress = "str ''0x01''" and extraString = "str ''abc''"
      and this = "new_BridgeService\<lparr>isInitialized := True, wallet := Some (str ''0x01'')\<rparr>"
      and w = "\<lparr>now = 0, console = []\<rparr>"]
  have n: "str ''0'' \<noteq> []" "str ''-1'' \<noteq> []" "\<not> startsWith (str ''abc'') (str ''0x'')"
    by (simp_all add: str_def startsWith_def)
  from t n have v:
    "validateBridgeParams (\<lambda>a. False) 0 (str ''0x01'') (str ''0'') (str ''-1'') (str ''abc'')
       = Inl (Error (str (''Bridge validation failed: Invalid destination chain ID, ''
                          @ ''Invalid token address, Invalid amount, Invalid fee/gas amount, ''
                          @ ''Invalid extra string (must be hex address)'')))"
    by (simp add: str_def)
  have i: "isInitialized (new_BridgeService\<lparr>isInitialized := True, wallet := Some (str ''0x01'')\<rparr>)"
    "wallet (new_BridgeService\<lparr>isInitialized := True, wallet := Some (str ''0x01'')\<rparr>) \<noteq> None"
    by simp_all
  from t i v have "fst (bridgeTokens (\<lambda>a. False) intToString \<lparr>now = 0, console = []\<rparr>
            (new_BridgeService\<lparr>isInitialized := True, wallet := Some (str ''0x01'')\<rparr>)
            0 (str ''0x01'') (str ''0'') (str ''-1'') (str ''abc''))
       = Inl (Error (str (''Bridge validation failed: Invalid destination chain ID, ''
                          @ ''Invalid token address, Invalid amount, Invalid fee/gas amount, ''
                          @ ''Invalid extra string (must be hex address)'')))"
    by blast
  with a f v i show ?thesis by blast
qed

text \<open>
  The claim as written fails: a fee of zero and an extra string that is not hexadecimal
  pass validation, and an amount that is not a number ends validation with the
  \<open>SyntaxError\<close> of \<open>BigInt\<close>, which names no constraint.
\<close>

theorem validation_counterexample:
  "validateBridgeParams (\<lambda>a. True) 11155111 (str ''0xd4949664cd82660aae99bedc034a0dea8a0bd517'')
     (str ''1000000000000000'') (str ''0'') (str ''0x1234567890abcdef1234567890abcdef12345678'')
     = Inr True
   \<and> BigInt (str ''0'') = Inr 0
   \<and> validateBridgeParams (\<lambda>a. True) 11155111 (str ''0xd4949664cd82660aae99bedc034a0dea8a0bd517'')
       (str ''1000000000000000'') (str ''500000000000000000'') (str ''0xzz'') = Inr True
   \<and> validateBridgeParams (\<lambda>a. False) 0 (str ''0xd4949664cd82660aae99bedc034a0dea8a0bd517'')
       (str ''abc'') (str ''500000000000000000'') (str ''0xzz'') = Inl SyntaxError"
proof -
  have s: "startsWith (str ''0x1234567890abcdef1234567890abcdef12345678'') (str ''0x'')"
    "startsWith (str ''0xzz'') (str ''0x'')"
    by (simp_all add: startsWith_def str_def)
  have n: "str ''1000000000000000'' \<noteq> []" "str ''0'' \<noteq> []" "str ''500000000000000000'' \<noteq> []"
    "str ''abc'' \<noteq> []"
    by (simp_all add: str_def)
  have 1: "validateBridgeParams (\<lambda>a. True) 11155111 (str ''0xd4949664cd82660aae99bedc034a0dea8a0bd517'')
     (str ''1000000000000000'') (str ''0'') (str ''0x1234567890abcdef1234567890abcdef12345678'')
     = Inr True"
    using validateBridgeParams_eq[of "str ''1000000000000000''" 1000000000000000 "str ''0''" 0]
      s n by (simp add: BigInt_sample_amount BigInt_zero)
  have 2: "validateBridgeParams (\<lambda>a. True) 11155111 (str ''0xd4949664cd82660aae99bedc034a0dea8a0bd517'')
       (str ''1000000000000000'') (str ''500000000000000000'') (str ''0xzz'') = Inr True"
    using validateBridgeParams_eq[of "str ''1000000000000000''" 1000000000000000
        "str ''500000000000000000''" 500000000000000000]
      s n by (simp add: BigInt_sample_amount BigInt_sample_fee)
  have 3: "validateBridgeParams (\<lambda>a. False) 0 (str ''0xd4949664cd82660aae99bedc034a0dea8a0bd517'')
       (str ''abc'') (str ''500000000000000000'') (str ''0xzz'') = Inl SyntaxError"
    using n by (simp add: validateBridgeParams_SyntaxError BigInt_abc)
  from 1 2 3 BigInt_zero show ?thesis by simp
qed

text \<open>
  Claim C4. In a calldata returned by the bridge builder the second head word is 160 and
  the length word of the extra string starts at byte 160 of the parameter area (the
  area starts after \<open>0x\<close> and the 4-byte selector, at character 10, and a byte is two
  characters); in a calldata returned by the delegate builder and by the vote builder the
  fourth head word is 128 and the length word of the denom, respectively the reason,
  starts at byte 128.
\<close>

theorem dynamic_offset_matches_layout:
  "(fst (buildBridgeCalldata w destChainId tokenAddress amountWei feeOrGas extraString) = Inr cd
      \<longrightarrow> BigInt (str ''0x'' @ take 64 (drop (10 + 64) cd)) = Inr 160
          \<and> (\<exists>es. encodeString extraString = Inr es
                \<and> take 64 (drop (10 + 2 * 160) cd) = lengthHex es
                \<and> drop (10 + 2 * 160 + 64) cd = paddedData es))
   \<and> (buildDelegationCalldata (new_DelegationCalldataBuilder target) delegator validator
         amount denom = Inr cd'
      \<longrightarrow> BigInt (str ''0x'' @ take 64 (drop (10 + 3 * 64) cd')) = Inr 128
          \<and> (\<exists>es. encodeString (case denom of None \<Rightarrow> str ''ahelios'' | Some d \<Rightarrow> d) = Inr es
                \<and> take 64 (drop (10 + 2 * 128) cd') = lengthHex es
                \<and> drop (10 + 2 * 128 + 64) cd' = paddedData es))
   \<and> (buildVoteCalldata this voter proposalId support reason = Inr cd''
      \<longrightarrow> BigInt (str ''0x'' @ take 64 (drop (10 + 3 * 64) cd'')) = Inr 128
          \<and> (\<exists>es. encodeString reason = Inr es
                \<and> take 64 (drop (10 + 2 * 128) cd'') = lengthHex es
                \<and> drop (10 + 2 * 128 + 64) cd'' = paddedData es))"
proof (intro conjI impI)
  assume "fst (buildBridgeCalldata w destChainId tokenAddress amountWei feeOrGas extraString) = Inr cd"
  from buildBridgeCalldata_Inr[OF this] obtain wd wo wt wa wfee es where
    p: "encodeUint (JNumber destChainId) = Inr wd" "encodeUint (JNumber 160) = Inr wo"
       "encodeAddress tokenAddress = Inr wt" "encodeUint (JString amountWei) = Inr wa"
       "encodeUint (JString feeOrGas) = Inr wfee" "encodeString extraString = Inr es"
       "cd = str ''0x7ae4a8ff'' @ wd @ wo @ wt @ wa @ wfee @ lengthHex es @ paddedData es"
    by blast
  have l: "length wd = 64" "length wo = 64" "length wt = 64" "length wa = 64" "length wfee = 64"
    "length (lengthHex es) = 64"
    using p by (simp_all add: encodeUint_length encodeAddress_length encodeString_lengthHex)
  have "take 64 (drop (10 + 64) cd) = wo"
    using l by (simp add: p(7))
  then show "BigInt (str ''0x'' @ take 64 (drop (10 + 64) cd)) = Inr 160"
    using encodeUint_number_value[OF p(2)] by simp
  have "take 64 (drop (10 + 2 * 160) cd) = lengthHex es"
       "drop (10 + 2 * 160 + 64) cd = paddedData es"
    using l by (simp_all add: p(7))
  with p(6) show "\<exists>es. encodeString extraString = Inr es
        \<and> take 64 (drop (10 + 2 * 160) cd) = lengthHex es
        \<and> drop (10 + 2 * 160 + 64) cd = paddedData es"
    by blast
next
  assume "buildDelegationCalldata (new_DelegationCalldataBuilder target) delegator validator
            amount denom = Inr cd'"
  from buildDelegationCalldata_Inr[OF this] obtain wd wv wa wo es where
    p: "encodeAddress delegator = Inr wd" "encodeAddress validator = Inr wv"
       "encodeUint amount = Inr wa" "encodeUint (JNumber 128) = Inr wo"
       "encodeString (case denom of None \<Rightarrow> str ''ahelios'' | Some d \<Rightarrow> d) = Inr es"
       "cd' = str ''0x'' @ str ''f5e56040'' @ wd @ wv @ wa @ wo @ lengthHex es @ paddedData es"
    by (auto simp: new_DelegationCalldataBuilder_def)
  have l: "length wd = 64" "length wv = 64" "length wa = 64" "length wo = 64"
    "length (lengthHex es) = 64"
    using p by (simp_all add: encodeUint_length encodeAddress_length encodeString_lengthHex)
  have "take 64 (drop (10 + 3 * 64) cd') = wo"
    using l by (simp add: p(6))
  then show "BigInt (str ''0x'' @ take 64 (drop (10 + 3 * 64) cd')) = Inr 128"
    using encodeUint_number_value[OF p(4)] by simp
  have "take 64 (drop (10 + 2 * 128) cd') = lengthHex es"
       "drop (10 + 2 * 128 + 64) cd' = paddedData es"
    using l by (simp_all add: p(6))
  with p(5) show "\<exists>es. encodeString (case denom of None \<Rightarrow> str ''ahelios'' | Some d \<Rightarrow> d) = Inr es
        \<and> take 64 (drop (10 + 2 * 128) cd') = lengthHex es
        \<and> drop (10 + 2 * 128 + 64) cd' = paddedData es"
    by blast
next
  assume "buildVoteCalldata this voter proposalId support reason = Inr cd''"
  from buildVoteCalldata_Inr[OF this] obtain wv wp ws wo es where
    p: "encodeAddress voter = Inr wv" "encodeUint proposalId = Inr wp"
       "encodeBool support = Inr ws" "encodeUint (JNumber 128) = Inr wo"
       "encodeString reason = Inr es"
       "cd'' = str ''0x'' @ str ''9ec4d363'' @ wv @ wp @ ws @ wo @ lengthHex es @ paddedData es"
    by blast
  have l: "length wv = 64" "length wp = 64" "length ws = 64" "length wo = 64"
    "length (lengthHex es) = 64"
    using p by (simp_all add: encodeUint_length encodeAddress_length encodeString_lengthHex
        encodeBool_def)
  have "take 64 (drop (10 + 3 * 64) cd'') = wo"
    using l by (simp add: p(6))
  then show "BigInt (str ''0x'' @ take 64 (drop (10 + 3 * 64) cd'')) = Inr 128"
    using encodeUint_number_value[OF p(4)] by simp
  have "take 64 (drop (10 + 2 * 128) cd'') = lengthHex es"
       "drop (10 + 2 * 128 + 64) cd'' = paddedData es"
    using l by (simp_all add: p(6))
  with p(5) show "\<exists>es. encodeString reason = Inr es
        \<and> take 64 (drop (10 + 2 * 128) cd'') = lengthHex es
        \<and> drop (10 + 2 * 128 + 64) cd'' = paddedData es"
    by blast
qed

theorem dynamic_offset_matches_layout_witness:
  "\<exists>cd cd' cd''.
     fst (buildBridgeCalldata \<lparr>now = 0, console = []\<rparr> 11155111
            (str ''0xd4949664cd82660aae99bedc034a0dea8a0bd517'')
            (str ''1000000000000000'') (str ''500000000000000000'')
            (str ''0x1234567890abcdef1234567890abcdef12345678'')) = Inr cd
     \<and> BigInt (str ''0x'' @ take 64 (drop (10 + 64) cd)) = Inr 160
     \<and> (\<exists>es. encodeString (str ''0x1234567890abcdef1234567890abcdef12345678'') = Inr es
           \<and> take 64 (drop (10 + 2 * 160) cd) = lengthHex es
           \<and> drop (10 + 2 * 160 + 64) cd = paddedData es)
     \<and> buildDelegationCalldata (new_DelegationCalldataBuilder [])
            (str ''0xd4949664cd82660aae99bedc034a0dea8a0bd517'')
            (str ''0xd4949664cd82660aae99bedc034a0dea8a0bd517'')
            (JString (str ''1000000000000000'')) None = Inr cd'
     \<and> BigInt (str ''0x'' @ take 64 (drop (10 + 3 * 64) cd')) = Inr 128
     \<and> (\<exists>es. encodeString (str ''ahelios'') = Inr es
           \<and> take 64 (drop (10 + 2 * 128) cd') = lengthHex es
           \<and> drop (10 + 2 * 128 + 64) cd' = paddedData es)
     \<and> buildVoteCalldata \<lparr>governanceInitialized = True, governanceWallet = None, apiUrl = []\<rparr>
            (str ''0xd4949664cd82660aae99bedc034a0dea8a0bd517'') (JNumber 7) True [] = Inr cd''
     \<and> BigInt (str ''0x'' @ take 64 (drop (10 + 3 * 64) cd'')) = Inr 128
     \<and> (\<exists>es. encodeString [] = Inr es
           \<and> take 64 (drop (10 + 2 * 128) cd'') = lengthHex es
           \<and> drop (10 + 2 * 128 + 64) cd'' = paddedData es)"
proof -
  from sample_bridge sample_delegation sample_vote obtain cd cd' cd'' where
    b: "fst (buildBridgeCalldata \<lparr>now = 0, console = []\<rparr> 11155111
            (str ''0xd4949664cd82660aae99bedc034a0dea8a0bd517'')
            (str ''1000000000000000'') (str ''500000000000000000'')
            (str ''0x1234567890abcdef1234567890abcdef12345678'')) = Inr cd"
    and d: "buildDelegationCalldata (new_DelegationCalldataBuilder [])
            (str ''0xd4949664cd82660aae99bedc034a0dea8a0bd517'')
            (str ''0xd4949664cd82660aae99bedc034a0dea8a0bd517'')
            (JString (str ''1000000000000000'')) None = Inr cd'"
    and v: "buildVoteCalldata \<lparr>governanceInitialized = True, governanceWallet = None, apiUrl = []\<rparr>
            (str ''0xd4949664cd82660aae99bedc034a0dea8a0bd517'') (JNumber 7) True [] = Inr cd''"
    by blast
  from dynamic_offset_matches_layout[of "\<lparr>now = 0, console = []\<rparr>" 11155111
      "str ''0xd4949664cd82660aae99bedc034a0dea8a0bd517''" "str ''1000000000000000''"
      "str ''500000000000000000''" "str ''0x1234567890abcdef1234567890abcdef12345678''" cd
      "[]" "str ''0xd4949664cd82660aae99bedc034a0dea8a0bd517''"
      "str ''0xd4949664cd82660aae99bedc034a0dea8a0bd517''" "JString (str ''1000000000000000'')"
      None cd' "\<lparr>governanceInitialized = True, governanceWallet = None, apiUrl = []\<rparr>"
      "str ''0xd4949664cd82660aae99bedc034a0dea8a0bd517''" "JNumber 7" True "[]" cd'']
    b d v
  show ?thesis by (simp only: option.case simp_thms) blast
qed

text \<open>
  Claim C5, as the code has it. For an argument that denotes the integer \<open>v\<close> (a
  \<open>bigint\<close>, a numeric string, or a number in the safe-integer range), \<open>encodeUint\<close>
  returns a word exactly when \<open>0 \<le> v \<le> 2^256 - 1\<close>; the word has 64 hexadecimal
  characters and reads back as \<open>v\<close>. A negative value is rejected with \<open>NUMERIC_FAULT\<close>
  and a value above \<open>2^256 - 1\<close> with \<open>BUFFER_OVERRUN\<close>, and no word is returned.
\<close>

theorem encodeUint_roundtrip:
  assumes "getBigInt x = Inr v"
  shows "case encodeUint x of
           Inr w \<Rightarrow> 0 \<le> v \<and> v < 2 ^ 256 \<and> length w = 64 \<and> BigInt (str ''0x'' @ w) = Inr v
         | Inl e \<Rightarrow> (v < 0 \<and> e = NUMERIC_FAULT ''unsigned value cannot be negative'')
                    \<or> (2 ^ 256 \<le> v \<and> e = BUFFER_OVERRUN ''padding exceeds data length'')"
proof (cases "encodeUint x")
  case (Inr w)
  from encodeUint_Inr_iff[OF Inr] assms have p:
    "0 \<le> v" "v < 2 ^ 256" "length w = 64" "list_all (isDigit 16) w" "digitsValue 16 w = nat v"
    by auto
  from p(3) have "w \<noteq> []" by auto
  from BigInt_hex_word[OF this p(4)] p(1,5) have "BigInt (str ''0x'' @ w) = Inr v" by simp
  with p Inr show ?thesis by simp
next
  case (Inl e)
  show ?thesis
  proof (cases "v < 0")
    case True
    with encodeUint_negative[OF assms True] Inl show ?thesis by simp
  next
    case False
    show ?thesis
    proof (cases "v < 2 ^ 256")
      case True
      with encodeUint_in_range[OF assms _ True] False Inl show ?thesis by auto
    next
      case big: False
      then have "2 ^ 256 \<le> v" by simp
      with encodeUint_too_large[OF assms this] Inl show ?thesis by simp
    qed
  qed
qed

theorem encodeUint_roundtrip_witness:
  "getBigInt (JString (str ''255'')) = Inr 255
   \<and> (\<exists>w. encodeUint (JString (str ''255'')) = Inr w \<and> length w = 64
           \<and> BigInt (str ''0x'' @ w) = Inr 255)
   \<and> getBigInt (JBigInt (- 1)) = Inr (- 1)
   \<and> encodeUint (JBigInt (- 1)) = Inl (NUMERIC_FAULT ''unsigned value cannot be negative'')
   \<and> getBigInt (JBigInt (2 ^ 256)) = Inr (2 ^ 256)
   \<and> encodeUint (JBigInt (2 ^ 256)) = Inl (BUFFER_OVERRUN ''padding exceeds data length'')"
proof -
  have a: "getBigInt (JString (str ''255'')) = Inr 255"
    by (simp add: BigInt_def StringToBigInt_def trimString_def parseDigits_def digitsValue_def
        isDigit_def digitValue_def isStrWhiteSpaceChar_def str_def)
  have b: "getBigInt (JBigInt (- 1)) = Inr (- 1)" by simp
  have c: "getBigInt (JBigInt (2 ^ 256)) = Inr (2 ^ 256)" by simp
  from encodeUint_roundtrip[OF a]
  have 1: "\<exists>w. encodeUint (JString (str ''255'')) = Inr w \<and> length w = 64
              \<and> BigInt (str ''0x'' @ w) = Inr 255"
    by (cases "encodeUint (JString (str ''255''))") simp_all
  from encodeUint_roundtrip[OF b]
  have 2: "encodeUint (JBigInt (- 1)) = Inl (NUMERIC_FAULT ''unsigned value cannot be negative'')"
    by (cases "encodeUint (JBigInt (- 1))") simp_all
  from encodeUint_roundtrip[OF c]
  have 3: "encodeUint (JBigInt (2 ^ 256)) = Inl (BUFFER_OVERRUN ''padding exceeds data length'')"
    by (cases "encodeUint (JBigInt (2 ^ 256))") simp_all
  from a b c 1 2 3 show ?thesis by simp
qed

text \<open>
  The claim as written, for every integer up to \<open>2^256 - 1\<close>, fails for an argument of
  type number: above \<open>2^53 - 1\<close> a number is rejected, here the number \<open>1e18\<close>.
\<close>

theorem encodeUint_number_counterexample:
  "encodeUint (JNumber (10 ^ 18)) = Inl (INVALID_ARGUMENT ''overflow'')
   \<and> (0 :: int) \<le> 10 ^ 18 \<and> (10 :: int) ^ 18 \<le> 2 ^ 256 - 1"
proof -
  have "getBigInt (JNumber (10 ^ 18)) = Inl (INVALID_ARGUMENT ''overflow'')"
    by (simp add: maxValue_def)
  then show ?thesis by (simp add: encodeUint_invalid)
qed




text \<open>
  Claim C7. Every calldata a builder returns is \<open>0x\<close> followed by hexadecimal digits, the
  first eight of which (four bytes) are the selector of the call: \<open>7ae4a8ff\<close> for bridge,
  \<open>f5e56040\<close> for delegate, \<open>2efe8a5f\<close> for claim, \<open>9ec4d363\<close> for the vote and
  \<open>cb0dddfe\<close> for create-proposal.
\<close>

theorem calldata_starts_with_selector:
  "(fst (buildBridgeCalldata w destChainId tokenAddress amountWei feeOrGas extraString) = Inr cd1
      \<longrightarrow> take 2 cd1 = str ''0x'' \<and> take 8 (drop 2 cd1) = str ''7ae4a8ff''
          \<and> list_all (isDigit 16) (drop 2 cd1))
   \<and> (buildDelegationCalldata (new_DelegationCalldataBuilder target) delegator validator
         amount denom = Inr cd2
      \<longrightarrow> take 2 cd2 = str ''0x'' \<and> take 8 (drop 2 cd2) = str ''f5e56040''
          \<and> list_all (isDigit 16) (drop 2 cd2))
   \<and> (buildClaimCalldata numberText (new_DelegationCalldataBuilder target) delegator claimAmountOrId = Inr cd3
      \<longrightarrow> take 2 cd3 = str ''0x'' \<and> take 8 (drop 2 cd3) = str ''2efe8a5f''
          \<and> list_all (isDigit 16) (drop 2 cd3))
   \<and> (buildVoteCalldata this voter proposalId support reason = Inr cd4
      \<longrightarrow> take 2 cd4 = str ''0x'' \<and> take 8 (drop 2 cd4) = str ''9ec4d363''
          \<and> list_all (isDigit 16) (drop 2 cd4))
   \<and> (buildCreateProposalCalldata this title description messagesJson deposit = Inr cd5
      \<longrightarrow> take 2 cd5 = str ''0x'' \<and> take 8 (drop 2 cd5) = str ''cb0dddfe''
          \<and> list_all (isDigit 16) (drop 2 cd5))"
proof (intro conjI impI)
  assume "fst (buildBridgeCalldata w destChainId tokenAddress amountWei feeOrGas extraString) = Inr cd1"
  from buildBridgeCalldata_Inr[OF this] obtain wd wo wt wa wfee es where
    p: "encodeUint (JNumber destChainId) = Inr wd" "encodeUint (JNumber 160) = Inr wo"
       "encodeAddress tokenAddress = Inr wt" "encodeUint (JString amountWei) = Inr wa"
       "encodeUint (JString feeOrGas) = Inr wfee" "encodeString extraString = Inr es"
       "cd1 = str ''0x7ae4a8ff'' @ wd @ wo @ wt @ wa @ wfee @ lengthHex es @ paddedData es"
    by blast
  from p(7) have c: "cd1 = str ''0x'' @ str ''7ae4a8ff'' @ wd @ wo @ wt @ wa @ wfee
                        @ lengthHex es @ paddedData es"
    by (simp only: bridge_selector append_assoc)
  show "take 2 cd1 = str ''0x''" "take 8 (drop 2 cd1) = str ''7ae4a8ff''"
    by (simp_all add: c)
  have "drop 2 cd1 = str ''7ae4a8ff'' @ wd @ wo @ wt @ wa @ wfee @ lengthHex es @ paddedData es"
    by (simp add: c)
  then show "list_all (isDigit 16) (drop 2 cd1)"
    using p(1-6) selector_digits
    by (simp add: encodeUint_digits encodeAddress_digits encodeString_digits)
next
  assume "buildDelegationCalldata (new_DelegationCalldataBuilder target) delegator validator
            amount denom = Inr cd2"
  from buildDelegationCalldata_Inr[OF this] obtain wd wv wa wo es where
    p: "encodeAddress delegator = Inr wd" "encodeAddress validator = Inr wv"
       "encodeUint amount = Inr wa" "encodeUint (JNumber 128) = Inr wo"
       "encodeString (case denom of None \<Rightarrow> str ''ahelios'' | Some d \<Rightarrow> d) = Inr es"
       "cd2 = str ''0x'' @ str ''f5e56040'' @ wd @ wv @ wa @ wo @ lengthHex es @ paddedData es"
    by (auto simp: new_DelegationCalldataBuilder_def)
  show "take 2 cd2 = str ''0x''" "take 8 (drop 2 cd2) = str ''f5e56040''"
    by (simp_all add: p(6))
  have "drop 2 cd2 = str ''f5e56040'' @ wd @ wv @ wa @ wo @ lengthHex es @ paddedData es"
    by (simp add: p(6))
  then show "list_all (isDigit 16) (drop 2 cd2)"
    using p(1-5) selector_digits
    by (simp add: encodeUint_digits encodeAddress_digits encodeString_digits)
next
  assume "buildClaimCalldata numberText (new_DelegationCalldataBuilder target) delegator claimAmountOrId = Inr cd3"
  from buildClaimCalldata_Inr[OF this] obtain wd wa where
    p: "encodeAddress delegator = Inr wd"
       "encodeUint (JString (toString numberText claimAmountOrId)) = Inr wa"
       "cd3 = str ''0x'' @ str ''2efe8a5f'' @ wd @ wa"
    by (auto simp: new_DelegationCalldataBuilder_def)
  show "take 2 cd3 = str ''0x''" "take 8 (drop 2 cd3) = str ''2efe8a5f''"
    by (simp_all add: p(3))
  have "drop 2 cd3 = str ''2efe8a5f'' @ wd @ wa"
    by (simp add: p(3))
  then show "list_all (isDigit 16) (drop 2 cd3)"
    using p(1,2) selector_digits
    by (simp add: encodeUint_digits encodeAddress_digits)
next
  assume "buildVoteCalldata this voter proposalId support reason = Inr cd4"
  from buildVoteCalldata_Inr[OF this] obtain wv wp ws wo es where
    p: "encodeAddress voter = Inr wv" "encodeUint proposalId = Inr wp"
       "encodeBool support = Inr ws" "encodeUint (JNumber 128) = Inr wo"
       "encodeString reason = Inr es"
       "cd4 = str ''0x'' @ str ''9ec4d363'' @ wv @ wp @ ws @ wo @ lengthHex es @ paddedData es"
    by blast
  show "take 2 cd4 = str ''0x''" "take 8 (drop 2 cd4) = str ''9ec4d363''"
    by (simp_all add: p(6))
  have "drop 2 cd4 = str ''9ec4d363'' @ wv @ wp @ ws @ wo @ lengthHex es @ paddedData es"
    by (simp add: p(6))
  then show "list_all (isDigit 16) (drop 2 cd4)"
    using p(1-5) selector_digits
    by (simp add: encodeUint_digits encodeAddress_digits encodeString_digits encodeBool_def)
next
  assume "buildCreateProposalCalldata this title description messagesJson deposit = Inr cd5"
  from buildCreateProposalCalldata_Inr[OF this] obtain w1 w2 w3 wd wp et ed em where
    p: "encodeUint (JNumber 160) = Inr w1"
       "encodeUint (JNumber (int (160 + 32 + Math_ceil_div (length title) 32 * 32))) = Inr w2"
       "encodeUint (JNumber (int (160 + 32 + Math_ceil_div (length title) 32 * 32
                                  + 32 + Math_ceil_div (length description) 32 * 32))) = Inr w3"
       "encodeUint deposit = Inr wd"
       "encodeAddress (str ''0x0000000000000000000000000000000000000000'') = Inr wp"
       "encodeString title = Inr et" "encodeString description = Inr ed"
       "encodeString messagesJson = Inr em"
       "cd5 = str ''0x'' @ str ''cb0dddfe'' @ w1 @ w2 @ w3 @ wd @ wp
                @ lengthHex et @ paddedData et @ lengthHex ed @ paddedData ed
                @ lengthHex em @ paddedData em"
    by blast
  show "take 2 cd5 = str ''0x''" "take 8 (drop 2 cd5) = str ''cb0dddfe''"
    by (simp_all add: p(9))
  have "drop 2 cd5 = str ''cb0dddfe'' @ w1 @ w2 @ w3 @ wd @ wp
                @ lengthHex et @ paddedData et @ lengthHex ed @ paddedData ed
                @ lengthHex em @ paddedData em"
    by (simp add: p(9))
  then show "list_all (isDigit 16) (drop 2 cd5)"
    using p(1-8) selector_digits
    by (simp add: encodeUint_digits encodeAddress_digits encodeString_digits)
qed

theorem calldata_starts_with_selector_witness:
  "\<exists>cd1 cd2 cd3 cd4 cd5.
     fst (buildBridgeCalldata \<lparr>now = 0, console = []\<rparr> 11155111
            (str ''0xd4949664cd82660aae99bedc034a0dea8a0bd517'')
            (str ''1000000000000000'') (str ''500000000000000000'')
            (str ''0x1234567890abcdef1234567890abcdef12345678'')) = Inr cd1
     \<and> take 2 cd1 = str ''0x'' \<and> take 8 (drop 2 cd1) = str ''7ae4a8ff''
     \<and> list_all (isDigit 16) (drop 2 cd1)
     \<and> buildDelegationCalldata (new_DelegationCalldataBuilder [])
            (str ''0xd4949664cd82660aae99bedc034a0dea8a0bd517'')
            (str ''0xd4949664cd82660aae99bedc034a0dea8a0bd517'')
            (JString (str ''1000000000000000'')) None = Inr cd2
     \<and> take 2 cd2 = str ''0x'' \<and> take 8 (drop 2 cd2) = str ''f5e56040''
     \<and> list_all (isDigit 16) (drop 2 cd2)
     \<and> buildClaimCalldata intToString (new_DelegationCalldataBuilder [])
            (str ''0xd4949664cd82660aae99bedc034a0dea8a0bd517'')
            (JString (str ''1000000000000000'')) = Inr cd3
     \<and> take 2 cd3 = str ''0x'' \<and> take 8 (drop 2 cd3) = str ''2efe8a5f''
     \<and> list_all (isDigit 16) (drop 2 cd3)
     \<and> buildVoteCalldata \<lparr>governanceInitialized = True, governanceWallet = None, apiUrl = []\<rparr>
            (str ''0xd4949664cd82660aae99bedc034a0dea8a0bd517'') (JNumber 7) True [] = Inr cd4
     \<and> take 2 cd4 = str ''0x'' \<and> take 8 (drop 2 cd4) = str ''9ec4d363''
     \<and> list_all (isDigit 16) (drop 2 cd4)
     \<and> buildCreateProposalCalldata
            \<lparr>governanceInitialized = True, governanceWallet = None, apiUrl = []\<rparr>
            (str ''A'') (str ''BB'') (str ''[]'') (JString (str ''1000000000000000'')) = Inr cd5
     \<and> take 2 cd5 = str ''0x'' \<and> take 8 (drop 2 cd5) = str ''cb0dddfe''
     \<and> list_all (isDigit 16) (drop 2 cd5)"
proof -
  from sample_bridge sample_delegation sample_claim sample_vote sample_proposal
  obtain cd1 cd2 cd3 cd4 cd5 where
    b: "fst (buildBridgeCalldata \<lparr>now = 0, console = []\<rparr> 11155111
            (str ''0xd4949664cd82660aae99bedc034a0dea8a0bd517'')
            (str ''1000000000000000'') (str ''500000000000000000'')
            (str ''0x1234567890abcdef1234567890abcdef12345678'')) = Inr cd1"
    and d: "buildDelegationCalldata (new_DelegationCalldataBuilder [])
            (str ''0xd4949664cd82660aae99bedc034a0dea8a0bd517'')
            (str ''0xd4949664cd82660aae99bedc034a0dea8a0bd517'')
            (JString (str ''1000000000000000'')) None = Inr cd2"
    and c: "buildClaimCalldata intToString (new_DelegationCalldataBuilder [])
            (str ''0xd4949664cd82660aae99bedc034a0dea8a0bd517'')
            (JString (str ''1000000000000000'')) = Inr cd3"
    and v: "buildVoteCalldata \<lparr>governanceInitialized = True, governanceWallet = None, apiUrl = []\<rparr>
            (str ''0xd4949664cd82660aae99bedc034a0dea8a0bd517'') (JNumber 7) True [] = Inr cd4"
    and p: "buildCreateProposalCalldata
            \<lparr>governanceInitialized = True, governanceWallet = None, apiUrl = []\<rparr>
            (str ''A'') (str ''BB'') (str ''[]'') (JString (str ''1000000000000000'')) = Inr cd5"
    by blast
  from calldata_starts_with_selector[of "\<lparr>now = 0, console = []\<rparr>" 11155111
      "str ''0xd4949664cd82660aae99bedc034a0dea8a0bd517''" "str ''1000000000000000''"
      "str ''500000000000000000''" "str ''0x1234567890abcdef1234567890abcdef12345678''" cd1
      "[]" "str ''0xd4949664cd82660aae99bedc034a0dea8a0bd517''"
      "str ''0xd4949664cd82660aae99bedc034a0dea8a0bd517''" "JString (str ''1000000000000000'')"
      None cd2 intToString "JString (str ''1000000000000000'')" cd3
      "\<lparr>governanceInitialized = True, governanceWallet = None, apiUrl = []\<rparr>"
      "str ''0xd4949664cd82660aae99bedc034a0dea8a0bd517''" "JNumber 7" True "[]" cd4
      "str ''A''" "str ''BB''" "str ''[]''" "JString (str ''1000000000000000'')" cd5]
    b d c v p
  show ?thesis by (simp only: simp_thms) blast
qed

text \<open>
  Claim C8, as the code has it. Leaving out the denom gives the same calldata as passing
  \<open>ahelios\<close>: the tail of the calldata is then the length word 7 and the seven bytes of
  \<open>ahelios\<close> padded to a word, and for a denom that is passed the tail is the encoding of
  that denom. The claim builder encodes the text \<open>amountOrId.toString()\<close>, not the
  amount: what it returns is the selector, the encoded delegator and one word that reads
  as the value of that text and nothing else, 68 bytes (136 characters after \<open>0x\<close>), and
  it is selector, \<open>encodeAddress(delegator)\<close>, \<open>encodeUint(amountOrId)\<close> for an amount
  that is a string, a \<open>bigint\<close> or a number in the safe-integer range.
\<close>

theorem delegation_default_and_claim_layout:
  "buildDelegationCalldata this delegator validator amount None
     = buildDelegationCalldata this delegator validator amount (Some (str ''ahelios''))
   \<and> (buildDelegationCalldata (new_DelegationCalldataBuilder target) delegator validator amount None
         = Inr dcd
        \<longrightarrow> drop (2 + 2 * (4 + 4 * 32)) dcd
              = replicate 62 0x30 @ str ''07'' @ str ''6168656c696f73'' @ replicate 50 0x30)
   \<and> (buildDelegationCalldata (new_DelegationCalldataBuilder target) delegator validator amount
         (Some denom) = Inr dcd'
        \<longrightarrow> (\<exists>encodedString. encodeString denom = Inr encodedString
               \<and> drop (2 + 2 * (4 + 4 * 32)) dcd'
                   = lengthHex encodedString @ paddedData encodedString))
   \<and> ((case claimAmountOrId of JNumber v \<Rightarrow> - maxValue \<le> v \<and> v \<le> maxValue | _ \<Rightarrow> True)
        \<longrightarrow> buildClaimCalldata numberText (new_DelegationCalldataBuilder target) delegator claimAmountOrId
            = bind (encodeAddress delegator) (\<lambda>encodedDelegator.
              bind (encodeUint claimAmountOrId) (\<lambda>encodedAmount.
                Inr (str ''0x'' @ str ''2efe8a5f'' @ encodedDelegator @ encodedAmount))))
   \<and> (buildClaimCalldata numberText (new_DelegationCalldataBuilder target) delegator claimAmountOrId = Inr cd
        \<longrightarrow> length cd = 2 + 2 * (4 + 2 * 32)
            \<and> (\<exists>encodedDelegator encodedAmount v.
                  encodeAddress delegator = Inr encodedDelegator
                  \<and> getBigInt (JString (toString numberText claimAmountOrId)) = Inr v
                  \<and> length encodedAmount = 64
                  \<and> BigInt (str ''0x'' @ encodedAmount) = Inr v
                  \<and> cd = str ''0x'' @ str ''2efe8a5f'' @ encodedDelegator @ encodedAmount))"
proof (intro conjI impI)
  show "buildDelegationCalldata this delegator validator amount None
     = buildDelegationCalldata this delegator validator amount (Some (str ''ahelios''))"
    by (simp add: buildDelegationCalldata_def)
next
  assume "buildDelegationCalldata (new_DelegationCalldataBuilder target) delegator validator amount
            None = Inr dcd"
  from buildDelegationCalldata_Inr[OF this] obtain wd wv wa wo es where
    p: "encodeAddress delegator = Inr wd" "encodeAddress validator = Inr wv"
       "encodeUint amount = Inr wa" "encodeUint (JNumber 128) = Inr wo"
       "encodeString (str ''ahelios'') = Inr es"
       "dcd = str ''0x'' @ str ''f5e56040'' @ wd @ wv @ wa @ wo @ lengthHex es @ paddedData es"
    by (auto simp: new_DelegationCalldataBuilder_def)
  from p(5) have es: "lengthHex es = replicate 62 0x30 @ str ''07''"
    "paddedData es = str ''6168656c696f73'' @ replicate 50 0x30"
    by (auto simp: encodeString_ahelios)
  have l: "length wd = 64" "length wv = 64" "length wa = 64" "length wo = 64"
    using p(1-4) by (simp_all add: encodeUint_length encodeAddress_length)
  show "drop (2 + 2 * (4 + 4 * 32)) dcd
          = replicate 62 0x30 @ str ''07'' @ str ''6168656c696f73'' @ replicate 50 0x30"
    unfolding p(6) es using l by simp
next
  assume "buildDelegationCalldata (new_DelegationCalldataBuilder target) delegator validator amount
            (Some denom) = Inr dcd'"
  from buildDelegationCalldata_Inr[OF this] obtain wd wv wa wo es where
    p: "encodeAddress delegator = Inr wd" "encodeAddress validator = Inr wv"
       "encodeUint amount = Inr wa" "encodeUint (JNumber 128) = Inr wo"
       "encodeString denom = Inr es"
       "dcd' = str ''0x'' @ str ''f5e56040'' @ wd @ wv @ wa @ wo @ lengthHex es @ paddedData es"
    by (auto simp: new_DelegationCalldataBuilder_def)
  have l: "length wd = 64" "length wv = 64" "length wa = 64" "length wo = 64"
    using p(1-4) by (simp_all add: encodeUint_length encodeAddress_length)
  have "drop (2 + 2 * (4 + 4 * 32)) dcd' = lengthHex es @ paddedData es"
    unfolding p(6) using l by simp
  with p(5) show "\<exists>encodedString. encodeString denom = Inr encodedString
               \<and> drop (2 + 2 * (4 + 4 * 32)) dcd'
                   = lengthHex encodedString @ paddedData encodedString"
    by blast
next
  assume "case claimAmountOrId of JNumber v \<Rightarrow> - maxValue \<le> v \<and> v \<le> maxValue | _ \<Rightarrow> True"
  then have "encodeUint (JString (toString numberText claimAmountOrId)) = encodeUint claimAmountOrId"
    by (intro encodeUint_cong getBigInt_toString)
  then show "buildClaimCalldata numberText (new_DelegationCalldataBuilder target) delegator claimAmountOrId
            = bind (encodeAddress delegator) (\<lambda>encodedDelegator.
              bind (encodeUint claimAmountOrId) (\<lambda>encodedAmount.
                Inr (str ''0x'' @ str ''2efe8a5f'' @ encodedDelegator @ encodedAmount)))"
    by (simp add: buildClaimCalldata_def new_DelegationCalldataBuilder_def)
next
  assume "buildClaimCalldata numberText (new_DelegationCalldataBuilder target) delegator claimAmountOrId = Inr cd"
  from buildClaimCalldata_Inr[OF this] obtain wd wa where
    p: "encodeAddress delegator = Inr wd"
       "encodeUint (JString (toString numberText claimAmountOrId)) = Inr wa"
       "cd = str ''0x'' @ str ''2efe8a5f'' @ wd @ wa"
    by (auto simp: new_DelegationCalldataBuilder_def)
  then show "length cd = 2 + 2 * (4 + 2 * 32)"
    by (simp add: encodeUint_length encodeAddress_length)
  from encodeUint_Inr_iff[OF p(2)] obtain v where
    v: "getBigInt (JString (toString numberText claimAmountOrId)) = Inr v" "0 \<le> v" "length wa = 64"
       "list_all (isDigit 16) wa" "digitsValue 16 wa = nat v"
    by blast
  from v(3) have "wa \<noteq> []" by auto
  from BigInt_hex_word[OF this v(4)] v(2,5) have "BigInt (str ''0x'' @ wa) = Inr v" by simp
  with p v show "\<exists>encodedDelegator encodedAmount v.
                  encodeAddress delegator = Inr encodedDelegator
                  \<and> getBigInt (JString (toString numberText claimAmountOrId)) = Inr v
                  \<and> length encodedAmount = 64
                  \<and> BigInt (str ''0x'' @ encodedAmount) = Inr v
                  \<and> cd = str ''0x'' @ str ''2efe8a5f'' @ encodedDelegator @ encodedAmount"
    by blast
qed

theorem delegation_default_and_claim_layout_witness:
  "\<exists>dcd dcd' cd.
     buildDelegationCalldata (new_DelegationCalldataBuilder [])
           (str ''0xd4949664cd82660aae99bedc034a0dea8a0bd517'')
           (str ''0xd4949664cd82660aae99bedc034a0dea8a0bd517'') (JNumber 5) None = Inr dcd
     \<and> drop (2 + 2 * (4 + 4 * 32)) dcd
         = replicate 62 0x30 @ str ''07'' @ str ''6168656c696f73'' @ replicate 50 0x30
     \<and> buildDelegationCalldata (new_DelegationCalldataBuilder [])
           (str ''0xd4949664cd82660aae99bedc034a0dea8a0bd517'')
           (str ''0xd4949664cd82660aae99bedc034a0dea8a0bd517'') (JNumber 5) (Some []) = Inr dcd'
     \<and> (\<exists>encodedString. encodeString [] = Inr encodedString
           \<and> drop (2 + 2 * (4 + 4 * 32)) dcd' = lengthHex encodedString @ paddedData encodedString)
     \<and> dcd' \<noteq> dcd
     \<and> - maxValue \<le> 5 \<and> 5 \<le> maxValue
     \<and> buildClaimCalldata intToString (new_DelegationCalldataBuilder [])
          (str ''0xd4949664cd82660aae99bedc034a0dea8a0bd517'') (JNumber 5)
        = bind (encodeAddress (str ''0xd4949664cd82660aae99bedc034a0dea8a0bd517''))
            (\<lambda>encodedDelegator. bind (encodeUint (JNumber 5)) (\<lambda>encodedAmount.
               Inr (str ''0x'' @ str ''2efe8a5f'' @ encodedDelegator @ encodedAmount)))
     \<and> buildClaimCalldata intToString (new_DelegationCalldataBuilder [])
          (str ''0xd4949664cd82660aae99bedc034a0dea8a0bd517'') (JNumber 5) = Inr cd
     \<and> length cd = 2 + 2 * (4 + 2 * 32)"
proof -
  let ?a = "str ''0xd4949664cd82660aae99bedc034a0dea8a0bd517''"
  have s: "- maxValue \<le> 5 \<and> 5 \<le> maxValue" by (simp add: maxValue_def)
  obtain wa where a: "encodeUint (JNumber 5) = Inr wa"
    using encodeUint_number_ok[of 5] by (auto simp: maxValue_def)
  obtain wo where o: "encodeUint (JNumber 128) = Inr wo"
    using encodeUint_number_ok[of 128] by (auto simp: maxValue_def)
  from sample_address sample_denom sample_empty obtain wd es ee where
    d: "encodeAddress ?a = Inr wd" "encodeString (str ''ahelios'') = Inr es"
       "encodeString [] = Inr ee"
    by blast
  let ?dcd = "str ''0x'' @ str ''f5e56040'' @ wd @ wd @ wa @ wo @ lengthHex es @ paddedData es"
  let ?dcd' = "str ''0x'' @ str ''f5e56040'' @ wd @ wd @ wa @ wo @ lengthHex ee @ paddedData ee"
  let ?cd = "str ''0x'' @ str ''2efe8a5f'' @ wd @ wa"
  have b1: "buildDelegationCalldata (new_DelegationCalldataBuilder []) ?a ?a (JNumber 5) None
              = Inr ?dcd"
    by (simp add: buildDelegationCalldata_def new_DelegationCalldataBuilder_def a o d)
  have b2: "buildDelegationCalldata (new_DelegationCalldataBuilder []) ?a ?a (JNumber 5) (Some [])
              = Inr ?dcd'"
    by (simp add: buildDelegationCalldata_def new_DelegationCalldataBuilder_def a o d)
  note t = delegation_default_and_claim_layout[where this = "new_DelegationCalldataBuilder []"
      and delegator = ?a and validator = ?a and amount = "JNumber 5"
      and claimAmountOrId = "JNumber 5" and target = "[]" and denom = "[]"
      and numberText = intToString]
  from t[where dcd = ?dcd] b1 have 1: "drop (2 + 2 * (4 + 4 * 32)) ?dcd
         = replicate 62 0x30 @ str ''07'' @ str ''6168656c696f73'' @ replicate 50 0x30"
    by blast
  from t[where dcd' = ?dcd'] b2 have 2: "\<exists>encodedString. encodeString [] = Inr encodedString
           \<and> drop (2 + 2 * (4 + 4 * 32)) ?dcd' = lengthHex encodedString @ paddedData encodedString"
    by blast
  have "length (paddedData ee) = 0"
    using encodeString_Inr[OF d(3)] by (auto simp: Math_ceil_div_def hexOf_def)
  moreover have "length (paddedData es) = 64"
    using d(2) by (auto simp: encodeString_ahelios)
  ultimately have "length ?dcd' \<noteq> length ?dcd"
    using encodeString_lengthHex[OF d(2)] encodeString_lengthHex[OF d(3)] by simp
  then have 3: "?dcd' \<noteq> ?dcd"
    by (rule contrapos_nn) (erule arg_cong)
  from t s have e: "buildClaimCalldata intToString (new_DelegationCalldataBuilder []) ?a (JNumber 5)
        = bind (encodeAddress ?a)
            (\<lambda>encodedDelegator. bind (encodeUint (JNumber 5)) (\<lambda>encodedAmount.
               Inr (str ''0x'' @ str ''2efe8a5f'' @ encodedDelegator @ encodedAmount)))"
    by simp
  then have r: "buildClaimCalldata intToString (new_DelegationCalldataBuilder []) ?a (JNumber 5)
        = Inr ?cd"
    by (simp add: a d)
  from t[where cd = ?cd] r
  have 4: "length ?cd = 2 + 2 * (4 + 2 * 32)"
    by blast
  from b1 1 b2 2 3 s e r 4 show ?thesis by blast
qed

theorem claim_amount_counterexample:
  "buildClaimCalldata (\<lambda>v. str ''1000000000000000000'') (new_DelegationCalldataBuilder [])
       (str ''0xd4949664cd82660aae99bedc034a0dea8a0bd517'') (JNumber (10 ^ 18))
     = Inr (str ''0x2efe8a5f''
            @ replicate 24 0x30 @ str ''d4949664cd82660aae99bedc034a0dea8a0bd517''
            @ replicate 48 0x30 @ str ''0de0b6b3a7640000'')
   \<and> bind (encodeAddress (str ''0xd4949664cd82660aae99bedc034a0dea8a0bd517''))
       (\<lambda>encodedDelegator. bind (encodeUint (JNumber (10 ^ 18))) (\<lambda>encodedAmount.
          Inr (str ''0x'' @ str ''2efe8a5f'' @ encodedDelegator @ encodedAmount)))
     = Inl (INVALID_ARGUMENT ''overflow'')"
proof -
  have t: "toString (\<lambda>v. str ''1000000000000000000'') (JNumber (10 ^ 18))
             = str ''1000000000000000000''"
    by (simp add: Number_toString_def MAX_SAFE_INTEGER_def)
  have 1: "buildClaimCalldata (\<lambda>v. str ''1000000000000000000'') (new_DelegationCalldataBuilder [])
       (str ''0xd4949664cd82660aae99bedc034a0dea8a0bd517'') (JNumber (10 ^ 18))
     = Inr (str ''0x2efe8a5f''
            @ replicate 24 0x30 @ str ''d4949664cd82660aae99bedc034a0dea8a0bd517''
            @ replicate 48 0x30 @ str ''0de0b6b3a7640000'')"
    unfolding buildClaimCalldata_def t
    by (simp add: encodeAddress_sample encodeUint_1e18 new_DelegationCalldataBuilder_def)
       (simp add: str_def)
  have "getBigInt (JNumber (10 ^ 18)) = Inl (INVALID_ARGUMENT ''overflow'')"
    by (simp add: maxValue_def)
  then have 2: "encodeUint (JNumber (10 ^ 18)) = Inl (INVALID_ARGUMENT ''overflow'')"
    by (simp add: encodeUint_invalid)
  show ?thesis
    unfolding 2 using 1 by (simp add: encodeAddress_sample)
qed

text \<open>
  Claim C9. The calldata a builder returns depends on its arguments only: not on the
  clock and the console that the bridge builder's logging touches, not on the
  configuration a delegation builder was constructed with, and not on the state of the
  governance service.
\<close>

theorem builders_depend_on_arguments_only:
  "fst (buildBridgeCalldata w1 destChainId tokenAddress amountWei feeOrGas extraString)
     = fst (buildBridgeCalldata w2 destChainId tokenAddress amountWei feeOrGas extraString)
   \<and> buildDelegationCalldata (new_DelegationCalldataBuilder target1) delegator validator amount denom
     = buildDelegationCalldata (new_DelegationCalldataBuilder target2) delegator validator amount denom
   \<and> buildClaimCalldata numberText (new_DelegationCalldataBuilder target1) delegator claimAmountOrId
     = buildClaimCalldata numberText (new_DelegationCalldataBuilder target2) delegator claimAmountOrId
   \<and> buildVoteCalldata this1 voter proposalId support reason
     = buildVoteCalldata this2 voter proposalId support reason
   \<and> buildCreateProposalCalldata this1 title description messagesJson deposit
     = buildCreateProposalCalldata this2 title description messagesJson deposit"
proof (intro conjI)
  show "fst (buildBridgeCalldata w1 destChainId tokenAddress amountWei feeOrGas extraString)
     = fst (buildBridgeCalldata w2 destChainId tokenAddress amountWei feeOrGas extraString)"
    unfolding buildBridgeCalldata_def Let_def by (simp split: sum.splits)
  show "buildDelegationCalldata (new_DelegationCalldataBuilder target1) delegator validator amount denom
     = buildDelegationCalldata (new_DelegationCalldataBuilder target2) delegator validator amount denom"
    by (simp add: buildDelegationCalldata_def new_DelegationCalldataBuilder_def)
  show "buildClaimCalldata numberText (new_DelegationCalldataBuilder target1) delegator claimAmountOrId
     = buildClaimCalldata numberText (new_DelegationCalldataBuilder target2) delegator claimAmountOrId"
    by (simp add: buildClaimCalldata_def new_DelegationCalldataBuilder_def)
  show "buildVoteCalldata this1 voter proposalId support reason
     = buildVoteCalldata this2 voter proposalId support reason"
    by (simp add: buildVoteCalldata_def)
  show "buildCreateProposalCalldata this1 title description messagesJson deposit
     = buildCreateProposalCalldata this2 title description messagesJson deposit"
    by (simp add: buildCreateProposalCalldata_def)
qed

text \<open>
  Claim C10, as the code has it. The bridge builder has no checks of its own, but its
  encoders have: it returns a calldata, which starts with \<open>0x\<close>, exactly when the
  encoders accept the chain id, the token, the amount, the fee and the extra string, and
  an exception it raises is the one of an encoder, never a validation error. An amount
  that \<open>BigInt\<close> reads as zero or less, and an extra string that does not start with
  \<open>0x\<close>, are always rejected by \<open>validateBridgeParams\<close>, whatever the builder does
  with them. \<open>bridgeTokens\<close> validates first: a validation error ends the call with the
  console holding the line of its \<open>catch\<close> and nothing of the builder, and a calldata
  that \<open>bridgeTokens\<close> returns is the builder's for arguments that passed validation.
  \<open>estimateBridgeGas\<close> goes to the builder without validation.
\<close>

theorem bridge_builder_and_validation:
  "((\<exists>calldata. fst (buildBridgeCalldata w destChainId tokenAddress amountWei feeOrGas
                        extraString) = Inr calldata)
      \<longleftrightarrow> (\<exists>encodedDest. encodeUint (JNumber destChainId) = Inr encodedDest)
           \<and> (\<exists>encodedToken. encodeAddress tokenAddress = Inr encodedToken)
           \<and> (\<exists>encodedAmount. encodeUint (JString amountWei) = Inr encodedAmount)
           \<and> (\<exists>encodedFee. encodeUint (JString feeOrGas) = Inr encodedFee)
           \<and> (\<exists>encodedExtra. encodeString extraString = Inr encodedExtra))
   \<and> (fst (buildBridgeCalldata w destChainId tokenAddress amountWei feeOrGas extraString) = Inr cd
        \<longrightarrow> take 2 cd = str ''0x'')
   \<and> (fst (buildBridgeCalldata w destChainId tokenAddress amountWei feeOrGas extraString) = Inl err
        \<longrightarrow> (encodeUint (JNumber destChainId) = Inl err \<or> encodeUint (JNumber 160) = Inl err
              \<or> encodeAddress tokenAddress = Inl err \<or> encodeUint (JString amountWei) = Inl err
              \<or> encodeUint (JString feeOrGas) = Inl err \<or> encodeString extraString = Inl err)
            \<and> err \<noteq> SyntaxError \<and> (\<forall>m. err \<noteq> Error m))
   \<and> ((BigInt amountWei = Inr v \<and> v \<le> 0) \<or> \<not> startsWith extraString (str ''0x'')
        \<longrightarrow> (\<exists>e. validateBridgeParams isValidAddress destChainId tokenAddress amountWei feeOrGas
                     extraString = Inl e))
   \<and> (isInitialized this \<and> wallet this \<noteq> None
       \<and> validateBridgeParams isValidAddress destChainId tokenAddress amountWei feeOrGas
            extraString = Inl e
        \<longrightarrow> bridgeTokens isValidAddress numberText w this destChainId tokenAddress amountWei
              feeOrGas extraString
            = (Inl e, Helpers_log w (str ''Bridge transaction failed'') (LogError e)))
   \<and> (fst (bridgeTokens isValidAddress numberText w this destChainId tokenAddress amountWei
              feeOrGas extraString) = Inr cd'
        \<longrightarrow> validateBridgeParams isValidAddress destChainId tokenAddress amountWei feeOrGas
              extraString = Inr True
            \<and> fst (buildBridgeCalldata w destChainId tokenAddress amountWei feeOrGas extraString)
                = Inr cd')
   \<and> (isInitialized this
        \<longrightarrow> fst (estimateBridgeGas w this destChainId tokenAddress amountWei feeOrGas extraString)
            = fst (buildBridgeCalldata w destChainId tokenAddress amountWei feeOrGas extraString))"
proof (intro conjI impI)
  show "(\<exists>calldata. fst (buildBridgeCalldata w destChainId tokenAddress amountWei feeOrGas
                        extraString) = Inr calldata)
      \<longleftrightarrow> (\<exists>encodedDest. encodeUint (JNumber destChainId) = Inr encodedDest)
           \<and> (\<exists>encodedToken. encodeAddress tokenAddress = Inr encodedToken)
           \<and> (\<exists>encodedAmount. encodeUint (JString amountWei) = Inr encodedAmount)
           \<and> (\<exists>encodedFee. encodeUint (JString feeOrGas) = Inr encodedFee)
           \<and> (\<exists>encodedExtra. encodeString extraString = Inr encodedExtra)"
    by (rule buildBridgeCalldata_returns_iff)
next
  assume "fst (buildBridgeCalldata w destChainId tokenAddress amountWei feeOrGas extraString) = Inr cd"
  then show "take 2 cd = str ''0x''" by (rule buildBridgeCalldata_prefix)
next
  assume a: "fst (buildBridgeCalldata w destChainId tokenAddress amountWei feeOrGas extraString)
               = Inl err"
  from buildBridgeCalldata_Inl[OF a] show
    "encodeUint (JNumber destChainId) = Inl err \<or> encodeUint (JNumber 160) = Inl err
       \<or> encodeAddress tokenAddress = Inl err \<or> encodeUint (JString amountWei) = Inl err
       \<or> encodeUint (JString feeOrGas) = Inl err \<or> encodeString extraString = Inl err" .
  from buildBridgeCalldata_error[OF a] show "err \<noteq> SyntaxError" "\<forall>m. err \<noteq> Error m"
    by simp_all
next
  assume "(BigInt amountWei = Inr v \<and> v \<le> 0) \<or> \<not> startsWith extraString (str ''0x'')"
  then show "\<exists>e. validateBridgeParams isValidAddress destChainId tokenAddress amountWei feeOrGas
                     extraString = Inl e"
    using validateBridgeParams_rejects_amount validateBridgeParams_rejects_extra by blast
next
  assume "isInitialized this \<and> wallet this \<noteq> None
       \<and> validateBridgeParams isValidAddress destChainId tokenAddress amountWei feeOrGas
            extraString = Inl e"
  then show "bridgeTokens isValidAddress numberText w this destChainId tokenAddress amountWei
              feeOrGas extraString
            = (Inl e, Helpers_log w (str ''Bridge transaction failed'') (LogError e))"
    by (intro bridgeTokens_validation_error) simp_all
next
  assume a: "fst (bridgeTokens isValidAddress numberText w this destChainId tokenAddress amountWei
              feeOrGas extraString) = Inr cd'"
  from bridgeTokens_Inr[OF a] show
    "validateBridgeParams isValidAddress destChainId tokenAddress amountWei feeOrGas
              extraString = Inr True"
    "fst (buildBridgeCalldata w destChainId tokenAddress amountWei feeOrGas extraString) = Inr cd'"
    by simp_all
next
  assume "isInitialized this"
  then show "fst (estimateBridgeGas w this destChainId tokenAddress amountWei feeOrGas extraString)
            = fst (buildBridgeCalldata w destChainId tokenAddress amountWei feeOrGas extraString)"
    by (rule estimateBridgeGas_fst)
qed


theorem bridge_builder_and_validation_witness:
  "(\<exists>cd. fst (buildBridgeCalldata \<lparr>now = 0, console = []\<rparr> 11155111
               (str ''0xd4949664cd82660aae99bedc034a0dea8a0bd517'') (str ''0'')
               (str ''500000000000000000'') (str ''recipient'')) = Inr cd
          \<and> take 2 cd = str ''0x''
          \<and> fst (estimateBridgeGas \<lparr>now = 0, console = []\<rparr>
                   (new_BridgeService\<lparr>isInitialized := True, wallet := Some (str ''0x01'')\<rparr>)
                   11155111 (str ''0xd4949664cd82660aae99bedc034a0dea8a0bd517'') (str ''0'')
                   (str ''500000000000000000'') (str ''recipient'')) = Inr cd)
   \<and> BigInt (str ''0'') = Inr 0 \<and> (0 :: int) \<le> 0
   \<and> \<not> startsWith (str ''recipient'') (str ''0x'')
   \<and> isInitialized (new_BridgeService\<lparr>isInitialized := True, wallet := Some (str ''0x01'')\<rparr>)
   \<and> wallet (new_BridgeService\<lparr>isInitialized := True, wallet := Some (str ''0x01'')\<rparr>) \<noteq> None
   \<and> (\<exists>e. validateBridgeParams (\<lambda>a. True) 11155111
               (str ''0xd4949664cd82660aae99bedc034a0dea8a0bd517'') (str ''0'')
               (str ''500000000000000000'') (str ''recipient'') = Inl e
          \<and> bridgeTokens (\<lambda>a. True) intToString \<lparr>now = 0, console = []\<rparr>
               (new_BridgeService\<lparr>isInitialized := True, wallet := Some (str ''0x01'')\<rparr>)
               11155111 (str ''0xd4949664cd82660aae99bedc034a0dea8a0bd517'') (str ''0'')
               (str ''500000000000000000'') (str ''recipient'')
             = (Inl e, \<lparr>now = 0,
                        console = [(0, LogError e, str ''Bridge transaction failed'')]\<rparr>))
   \<and> fst (buildBridgeCalldata \<lparr>now = 0, console = []\<rparr> 11155111
            (str ''0xd4949664cd82660aae99bedc034a0dea8a0bd517'') (str ''-1'')
            (str ''500000000000000000'') (str ''0x1234567890abcdef1234567890abcdef12345678''))
       = Inl (NUMERIC_FAULT ''unsigned value cannot be negative'')
   \<and> encodeUint (JString (str ''-1'')) = Inl (NUMERIC_FAULT ''unsigned value cannot be negative'')
   \<and> (\<exists>cd'. fst (bridgeTokens (\<lambda>a. True) intToString \<lparr>now = 0, console = []\<rparr>
                    (new_BridgeService\<lparr>isInitialized := True, wallet := Some (str ''0x01'')\<rparr>)
                    11155111 (str ''0xd4949664cd82660aae99bedc034a0dea8a0bd517'')
                    (str ''1000000000000000'') (str ''500000000000000000'')
                    (str ''0x1234567890abcdef1234567890abcdef12345678'')) = Inr cd'
           \<and> validateBridgeParams (\<lambda>a. True) 11155111
                (str ''0xd4949664cd82660aae99bedc034a0dea8a0bd517'') (str ''1000000000000000'')
                (str ''500000000000000000'') (str ''0x1234567890abcdef1234567890abcdef12345678'')
               = Inr True
           \<and> fst (buildBridgeCalldata \<lparr>now = 0, console = []\<rparr> 11155111
                    (str ''0xd4949664cd82660aae99bedc034a0dea8a0bd517'') (str ''1000000000000000'')
                    (str ''500000000000000000'')
                    (str ''0x1234567890abcdef1234567890abcdef12345678'')) = Inr cd')"
proof -
  let ?w = "\<lparr>now = 0, console = []\<rparr>"
  let ?tok = "str ''0xd4949664cd82660aae99bedc034a0dea8a0bd517''"
  let ?amt = "str ''1000000000000000''"
  let ?fee = "str ''500000000000000000''"
  let ?rcp = "str ''0x1234567890abcdef1234567890abcdef12345678''"
  let ?svc = "new_BridgeService\<lparr>isInitialized := True, wallet := Some (str ''0x01'')\<rparr>"
  obtain wd where d: "encodeUint (JNumber 11155111) = Inr wd"
    using encodeUint_number_ok[of 11155111] by (auto simp: maxValue_def)
  obtain wo where o: "encodeUint (JNumber 160) = Inr wo"
    using encodeUint_number_ok[of 160] by (auto simp: maxValue_def)
  have r: "\<exists>es. encodeString (str ''recipient'') = Inr es"
    by (rule encodeString_ascii_ok) (simp_all add: str_def maxValue_def)
  have z: "\<exists>w. encodeUint (JString (str ''0'')) = Inr w"
    by (rule encodeUint_decimal_ok)
       (simp_all add: isDigit_def digitValue_def digitsValue_def str_def)
  from sample_address sample_amount sample_fee sample_recipient r z
  obtain wt wa wfee es er wz where
    p: "encodeAddress ?tok = Inr wt" "encodeUint (JString ?amt) = Inr wa"
       "encodeUint (JString ?fee) = Inr wfee" "encodeString ?rcp = Inr es"
       "encodeString (str ''recipient'') = Inr er" "encodeUint (JString (str ''0'')) = Inr wz"
    by blast
  have s: "isInitialized ?svc" "wallet ?svc \<noteq> None" "11155111 \<in> set (supportedChains ?svc)"
    by (simp_all add: new_BridgeService_def)
  have n: "\<not> startsWith (str ''recipient'') (str ''0x'')" "startsWith ?rcp (str ''0x'')"
    "?amt \<noteq> []" "?fee \<noteq> []"
    by (simp_all add: str_def startsWith_def)
  note t0 = bridge_builder_and_validation[where w = ?w and destChainId = 11155111
      and tokenAddress = ?tok and amountWei = "str ''0''" and feeOrGas = ?fee
      and extraString = "str ''recipient''" and v = 0 and this = ?svc
      and isValidAddress = "\<lambda>a. True" and numberText = intToString]
  note i1 = t0[THEN conjunct1]
  note i2 = t0[THEN conjunct2, THEN conjunct1]
  note i4 = t0[THEN conjunct2, THEN conjunct2, THEN conjunct2, THEN conjunct1]
  note i5 = t0[THEN conjunct2, THEN conjunct2, THEN conjunct2, THEN conjunct2, THEN conjunct1]
  note i7 = t0[THEN conjunct2, THEN conjunct2, THEN conjunct2, THEN conjunct2, THEN conjunct2,
      THEN conjunct2]
  have "\<exists>cd. fst (buildBridgeCalldata ?w 11155111 ?tok (str ''0'') ?fee (str ''recipient'')) = Inr cd"
    by (rule i1[THEN iffD2]) (use d p(1,3,5,6) in blast)
  then obtain cd where
    c: "fst (buildBridgeCalldata ?w 11155111 ?tok (str ''0'') ?fee (str ''recipient'')) = Inr cd" ..
  have 1: "take 2 cd = str ''0x''"
    by (rule i2[THEN mp]) (rule c)
  have g: "fst (estimateBridgeGas ?w ?svc 11155111 ?tok (str ''0'') ?fee (str ''recipient'')) = Inr cd"
    using i7[THEN mp, OF s(1)] c by simp
  have "BigInt (str ''0'') = Inr 0 \<and> (0 :: int) \<le> 0 \<or> \<not> startsWith (str ''recipient'') (str ''0x'')"
    using BigInt_zero by simp
  from i4[THEN mp, OF this] obtain e where
    e: "validateBridgeParams (\<lambda>a. True) 11155111 ?tok (str ''0'') ?fee (str ''recipient'') = Inl e" ..
  have "bridgeTokens (\<lambda>a. True) intToString ?w ?svc 11155111 ?tok (str ''0'') ?fee (str ''recipient'')
       = (Inl e, Helpers_log ?w (str ''Bridge transaction failed'') (LogError e))"
    by (rule i5[THEN mp]) (intro conjI s(1) s(2) e)
  then have 2:
    "bridgeTokens (\<lambda>a. True) intToString ?w ?svc 11155111 ?tok (str ''0'') ?fee (str ''recipient'')
       = (Inl e, \<lparr>now = 0, console = [(0, LogError e, str ''Bridge transaction failed'')]\<rparr>)"
    by (simp add: Helpers_log_def)
  have m: "encodeUint (JString (str ''-1''))
             = Inl (NUMERIC_FAULT ''unsigned value cannot be negative'')"
    by (rule encodeUint_minus_one)
  have 3: "fst (buildBridgeCalldata ?w 11155111 ?tok (str ''-1'') ?fee ?rcp)
             = Inl (NUMERIC_FAULT ''unsigned value cannot be negative'')"
    unfolding buildBridgeCalldata_def Let_def by (simp add: d o p m)
  have v: "validateBridgeParams (\<lambda>a. True) 11155111 ?tok ?amt ?fee ?rcp = Inr True"
    using validateBridgeParams_eq[of ?amt 1000000000000000 ?fee 500000000000000000] n
    by (simp add: BigInt_sample_amount BigInt_sample_fee)
  note b = buildBridgeCalldata_ok[OF d o p(1) p(2) p(3) p(4), of ?w]
  let ?cd = "str ''0x7ae4a8ff'' @ wd @ wo @ wt @ wa @ wfee @ lengthHex es @ paddedData es"
  have bt: "fst (bridgeTokens (\<lambda>a. True) intToString ?w ?svc 11155111 ?tok ?amt ?fee ?rcp)
              = Inr ?cd"
    using b s by (cases "buildBridgeCalldata ?w 11155111 ?tok ?amt ?fee ?rcp")
      (simp add: bridgeTokens_def v)
  note t1 = bridge_builder_and_validation[where w = ?w and destChainId = 11155111
      and tokenAddress = ?tok and amountWei = ?amt and feeOrGas = ?fee
      and extraString = ?rcp and this = ?svc and cd' = ?cd
      and isValidAddress = "\<lambda>a. True" and numberText = intToString]
  note i6 = t1[THEN conjunct2, THEN conjunct2, THEN conjunct2, THEN conjunct2, THEN conjunct2,
      THEN conjunct1]
  note 4 = i6[THEN mp, OF bt]
  have A: "\<exists>cd. fst (buildBridgeCalldata ?w 11155111 ?tok (str ''0'') ?fee (str ''recipient'')) = Inr cd
          \<and> take 2 cd = str ''0x''
          \<and> fst (estimateBridgeGas ?w ?svc 11155111 ?tok (str ''0'') ?fee (str ''recipient'')) = Inr cd"
    by (intro exI[of _ cd] conjI c 1 g)
  have B: "\<exists>e. validateBridgeParams (\<lambda>a. True) 11155111 ?tok (str ''0'') ?fee (str ''recipient'') = Inl e
          \<and> bridgeTokens (\<lambda>a. True) intToString ?w ?svc 11155111 ?tok (str ''0'') ?fee (str ''recipient'')
             = (Inl e, \<lparr>now = 0, console = [(0, LogError e, str ''Bridge transaction failed'')]\<rparr>)"
    by (intro exI[of _ e] conjI e 2)
  have C: "\<exists>cd'. fst (bridgeTokens (\<lambda>a. True) intToString ?w ?svc 11155111 ?tok ?amt ?fee ?rcp) = Inr cd'
           \<and> validateBridgeParams (\<lambda>a. True) 11155111 ?tok ?amt ?fee ?rcp = Inr True
           \<and> fst (buildBridgeCalldata ?w 11155111 ?tok ?amt ?fee ?rcp) = Inr cd'"
    by (intro exI[of _ ?cd] conjI bt 4[THEN conjunct1] 4[THEN conjunct2])
  have Z: "(0 :: int) \<le> 0" by simp
  show ?thesis
    by (intro conjI) (rule A BigInt_zero Z n(1) s(1) s(2) B 3 m C)+
qed

theorem bridge_builder_counterexample:
  "fst (buildBridgeCalldata \<lparr>now = 0, console = []\<rparr> 11155111
          (str ''0xd4949664cd82660aae99bedc034a0dea8a0bd517'') (str ''-1'')
          (str ''500000000000000000'') (str ''0x1234567890abcdef1234567890abcdef12345678''))
     = Inl (NUMERIC_FAULT ''unsigned value cannot be negative'')
   \<and> validateBridgeParams (\<lambda>a. True) 11155111
         (str ''0xd4949664cd82660aae99bedc034a0dea8a0bd517'') (str ''0'')
         (str ''500000000000000000'') (str ''0x1234567890abcdef1234567890abcdef12345678'')
       = Inl (Error (str ''Bridge validation failed: Invalid amount''))
   \<and> map_sum id (take 2)
       (fst (estimateBridgeGas \<lparr>now = 0, console = []\<rparr>
               (new_BridgeService\<lparr>isInitialized := True, wallet := Some (str ''0x01'')\<rparr>)
               11155111 (str ''0xd4949664cd82660aae99bedc034a0dea8a0bd517'') (str ''0'')
               (str ''500000000000000000'') (str ''0x1234567890abcdef1234567890abcdef12345678'')))
       = Inr (str ''0x'')"
proof -
  let ?w = "\<lparr>now = 0, console = []\<rparr>"
  let ?tok = "str ''0xd4949664cd82660aae99bedc034a0dea8a0bd517''"
  let ?fee = "str ''500000000000000000''"
  let ?rcp = "str ''0x1234567890abcdef1234567890abcdef12345678''"
  let ?svc = "new_BridgeService\<lparr>isInitialized := True, wallet := Some (str ''0x01'')\<rparr>"
  obtain wd where d: "encodeUint (JNumber 11155111) = Inr wd"
    using encodeUint_number_ok[of 11155111] by (auto simp: maxValue_def)
  obtain wo where o: "encodeUint (JNumber 160) = Inr wo"
    using encodeUint_number_ok[of 160] by (auto simp: maxValue_def)
  have z: "\<exists>w. encodeUint (JString (str ''0'')) = Inr w"
    by (rule encodeUint_decimal_ok)
       (simp_all add: isDigit_def digitValue_def digitsValue_def str_def)
  from sample_address sample_fee sample_recipient z
  obtain wt wfee es wz where
    p: "encodeAddress ?tok = Inr wt" "encodeUint (JString ?fee) = Inr wfee"
       "encodeString ?rcp = Inr es" "encodeUint (JString (str ''0'')) = Inr wz"
    by blast
  have 1: "fst (buildBridgeCalldata ?w 11155111 ?tok (str ''-1'') ?fee ?rcp)
             = Inl (NUMERIC_FAULT ''unsigned value cannot be negative'')"
    unfolding buildBridgeCalldata_def Let_def by (simp add: d o p encodeUint_minus_one)
  have n: "str ''0'' \<noteq> []" "?fee \<noteq> []" "startsWith ?rcp (str ''0x'')"
    by (simp_all add: str_def startsWith_def)
  have 2: "validateBridgeParams (\<lambda>a. True) 11155111 ?tok (str ''0'') ?fee ?rcp
       = Inl (Error (str ''Bridge validation failed: Invalid amount''))"
    using validateBridgeParams_eq[of "str ''0''" 0 ?fee 500000000000000000] n
    by (simp add: BigInt_zero BigInt_sample_fee) (simp add: str_def)
  note b = buildBridgeCalldata_ok[OF d o p(1) p(4) p(2) p(3), of ?w]
  have "isInitialized ?svc" by simp
  from estimateBridgeGas_fst[OF this, of ?w 11155111 ?tok "str ''0''" ?fee ?rcp] b
    buildBridgeCalldata_prefix[OF b]
  have 3: "map_sum id (take 2) (fst (estimateBridgeGas ?w ?svc 11155111 ?tok (str ''0'') ?fee ?rcp))
       = Inr (str ''0x'')"
    by simp
  from 1 2 3 show ?thesis by blast
qed

end
